(* ===== verification/Prelude.thy ===== *)
theory Prelude
  imports Main "HOL-Library.Word" "HOL-Library.Char_ord" "HOL-Library.List_Lexorder"
    "HOL-Library.Sublist"
begin

text \<open>
  Shared vocabulary of the development: the Go types the sources use (bytes, strings,
  \<open>uint64\<close>), the state-and-error computations every stateful operation is written in, the
  rules that carry invariants and results through such computations, and generic lemmas on
  lists and association lists.
\<close>

section \<open>Types\<close>

text \<open>
  A Go \<open>string\<close> or \<open>[]byte\<close> is a list of bytes; HOL's \<^typ>\<open>char\<close> has exactly the 256
  byte values, so both are \<^typ>\<open>string\<close> and the conversions between them are the identity.
\<close>

type_synonym bytes = string
type_synonym u64 = "64 word"

text \<open>Collections the component theories add to.\<close>

named_theorems preserves_intros \<open>rules that a computation keeps a predicate of the state\<close>
named_theorems frame_simps \<open>what an operation leaves unchanged\<close>

section \<open>Computations with state and errors\<close>

text \<open>
  A Go function that reads and writes shared state and may return an error is a function from
  the state to a result (\<open>Inl\<close> the error, \<open>Inr\<close> the value) and the new state. The state is
  returned on the error branch too: what an operation did before it failed stays done.
\<close>

type_synonym ('s, 'e, 'a) sem = "'s \<Rightarrow> ('e + 'a) \<times> 's"

definition ret :: "'a \<Rightarrow> ('s, 'e, 'a) sem" where
  "ret a s = (Inr a, s)"

definition throw :: "'e \<Rightarrow> ('s, 'e, 'a) sem" where
  "throw e s = (Inl e, s)"

text \<open>\<open>if err != nil { return err }\<close> between two calls.\<close>

definition sbind :: "('s, 'e, 'a) sem \<Rightarrow> ('a \<Rightarrow> ('s, 'e, 'b) sem) \<Rightarrow> ('s, 'e, 'b) sem" where
  "sbind m f s = (case m s of (Inl e, s') \<Rightarrow> (Inl e, s') | (Inr a, s') \<Rightarrow> f a s')"

text \<open>A call whose error the caller inspects itself.\<close>

definition attempt :: "('s, 'e, 'a) sem \<Rightarrow> ('s, 'f, 'e + 'a) sem" where
  "attempt m s = (Inr (fst (m s)), snd (m s))"

text \<open>Wrapping an error on its way up.\<close>

definition map_err :: "('e \<Rightarrow> 'f) \<Rightarrow> ('s, 'e, 'a) sem \<Rightarrow> ('s, 'f, 'a) sem" where
  "map_err g m s = (case m s of (Inl e, s') \<Rightarrow> (Inl (g e), s') | (Inr a, s') \<Rightarrow> (Inr a, s'))"

definition of_sum :: "'e + 'a \<Rightarrow> ('s, 'e, 'a) sem" where
  "of_sum r s = (r, s)"

definition gets :: "('s \<Rightarrow> 'a) \<Rightarrow> ('s, 'e, 'a) sem" where
  "gets f s = (Inr (f s), s)"

definition modify :: "('s \<Rightarrow> 's) \<Rightarrow> ('s, 'e, unit) sem" where
  "modify f s = (Inr (), f s)"

lemmas sem_defs = ret_def throw_def attempt_def of_sum_def gets_def modify_def

subsection \<open>Results\<close>

lemma map_sum_eq_iff [simp]:
  "map_sum f g x = Inr b \<longleftrightarrow> (\<exists>a. x = Inr a \<and> b = g a)"
  "map_sum f g x = Inl c \<longleftrightarrow> (\<exists>a. x = Inl a \<and> c = f a)"
  by (cases x; auto)+

lemma sbind_Inr_iff:
  "sbind m f s = (Inr b, t) \<longleftrightarrow> (\<exists>a u. m s = (Inr a, u) \<and> f a u = (Inr b, t))"
  by (auto simp: sbind_def split: prod.splits sum.splits)

lemma sbind_Inl_iff:
  "sbind m f s = (Inl e, t) \<longleftrightarrow> m s = (Inl e, t) \<or> (\<exists>a u. m s = (Inr a, u) \<and> f a u = (Inl e, t))"
  by (auto simp: sbind_def split: prod.splits sum.splits)

lemma not_Inl_iff [simp]: "(\<forall>x. a \<noteq> Inl x) \<longleftrightarrow> (\<exists>y. a = Inr y)"
  by (cases a) auto

lemma not_Inr_unit_iff [simp]: "a \<noteq> Inr () \<longleftrightarrow> (\<exists>e. a = Inl e)"
  by (cases a) auto

lemma sbind_eval [simp]:
  "m s = (Inr a, u) \<Longrightarrow> sbind m f s = f a u"
  "m s = (Inl e, u) \<Longrightarrow> sbind m f s = (Inl e, u)"
  by (simp_all add: sbind_def)

lemma sem_basic_simps [simp]:
  "ret a s = (Inr a, s)" "throw e s = (Inl e, s)" "of_sum r s = (r, s)"
  "gets g s = (Inr (g s), s)" "modify h s = (Inr (), h s)"
  by (simp_all add: sem_defs)

lemma sbind_monad:
  "sbind (ret a) f = f a" "sbind (throw e) g = throw e"
  "sbind (sbind m h) k = sbind m (\<lambda>x. sbind (h x) k)"
  by (auto simp: fun_eq_iff sbind_def split: prod.splits sum.splits)

lemma attempt_iff [simp]: "attempt m s = (r, t) \<longleftrightarrow> (\<exists>a. r = Inr a \<and> m s = (a, t))"
  by (cases "m s") (auto simp: attempt_def)

lemma map_err_Inr_iff [simp]: "map_err g m s = (Inr a, t) \<longleftrightarrow> m s = (Inr a, t)"
  by (auto simp: map_err_def split: prod.splits sum.splits)

lemma map_err_Inl_iff [simp]: "map_err g m s = (Inl e, t) \<longleftrightarrow> (\<exists>d. m s = (Inl d, t) \<and> e = g d)"
  by (auto simp: map_err_def split: prod.splits sum.splits)

lemma snd_map_err [simp]: "snd (map_err g m s) = snd (m s)"
  by (auto simp: map_err_def split: prod.splits sum.splits)

subsection \<open>Preservation\<close>

text \<open>
  \<open>preserves P m\<close>: from a state in \<open>P\<close> the computation \<open>m\<close> ends in a state in \<open>P\<close>, whether
  it succeeds or fails. Its rules follow the structure of the computation, so an invariant of
  an operation is proved from the invariants of the calls it makes.
\<close>

definition preserves :: "('s \<Rightarrow> bool) \<Rightarrow> ('s, 'e, 'a) sem \<Rightarrow> bool" where
  "preserves P m \<longleftrightarrow> (\<forall>s. P s \<longrightarrow> P (snd (m s)))"

lemma preservesI: "(\<And>s. P s \<Longrightarrow> P (snd (m s))) \<Longrightarrow> preserves P m"
  by (simp add: preserves_def)

lemma preservesD: "preserves P m \<Longrightarrow> P s \<Longrightarrow> m s = (r, t) \<Longrightarrow> P t"
  by (metis preserves_def snd_conv)

lemma preserves_sbind [preserves_intros]:
  assumes "preserves P m" and "\<And>a. preserves P (f a)"
  shows "preserves P (sbind m f)"
  using assms by (auto simp: preserves_def sbind_def split: prod.splits sum.splits)

lemma preserves_basic [preserves_intros]:
  "preserves P (ret a)" "preserves P (throw e)" "preserves P (of_sum r)" "preserves P (gets g)"
  by (simp_all add: preserves_def)

lemma preserves_attempt [preserves_intros]: "preserves P m \<Longrightarrow> preserves P (attempt m)"
  by (simp add: preserves_def attempt_def)

lemma preserves_map_err [preserves_intros]: "preserves P m \<Longrightarrow> preserves P (map_err g m)"
  by (simp add: preserves_def)

lemma preserves_if [preserves_intros]:
  "preserves P m \<Longrightarrow> preserves P n \<Longrightarrow> preserves P (if b then m else n)"
  by simp

lemma preserves_case_sum [preserves_intros]:
  "(\<And>e. preserves P (f e)) \<Longrightarrow> (\<And>a. preserves P (g a)) \<Longrightarrow>
    preserves P (case r of Inl e \<Rightarrow> f e | Inr a \<Rightarrow> g a)"
  by (cases r) simp_all

lemma preserves_case_option [preserves_intros]:
  "preserves P m \<Longrightarrow> (\<And>a. preserves P (g a)) \<Longrightarrow>
    preserves P (case r of None \<Rightarrow> m | Some a \<Rightarrow> g a)"
  by (cases r) simp_all

lemma preserves_case_prod [preserves_intros]:
  "(\<And>a b. preserves P (f a b)) \<Longrightarrow> preserves P (case p of (a, b) \<Rightarrow> f a b)"
  by (cases p) simp

section \<open>Sequences of calls\<close>

text \<open>Calls one after the other, each whatever the ones before returned; the values of those that succeeded.\<close>

fun run_seq :: "('s, 'e, 'a) sem list \<Rightarrow> 's \<Rightarrow> 'a list \<times> 's" where
  "run_seq [] s = ([], s)"
| "run_seq (m # ms) s =
     (case m s of
        (Inl e, t) \<Rightarrow> run_seq ms t
      | (Inr a, t) \<Rightarrow> (case run_seq ms t of (as, u) \<Rightarrow> (a # as, u)))"

section \<open>Association lists sorted by key\<close>

text \<open>
  A directory's entries are kept in the order in which \<open>os.ReadDir\<close> returns them: by file
  name, byte by byte.
\<close>

fun ins :: "'k::linorder \<Rightarrow> 'v \<Rightarrow> ('k \<times> 'v) list \<Rightarrow> ('k \<times> 'v) list" where
  "ins k v [] = [(k, v)]"
| "ins k v ((l, w) # es) =
     (if k < l then (k, v) # (l, w) # es else if k = l then (k, v) # es else (l, w) # ins k v es)"

fun del :: "'k::linorder \<Rightarrow> ('k \<times> 'v) list \<Rightarrow> ('k \<times> 'v) list" where
  "del k [] = []"
| "del k ((l, w) # es) = (if k = l then del k es else (l, w) # del k es)"

definition sorted_keys :: "('k::linorder \<times> 'v) list \<Rightarrow> bool" where
  "sorted_keys es \<longleftrightarrow> sorted_wrt (<) (map fst es)"

lemma sorted_keys_simps [simp]:
  "sorted_keys []"
  "sorted_keys ((k, v) # es) \<longleftrightarrow> (\<forall>l \<in> fst ` set es. k < l) \<and> sorted_keys es"
  by (auto simp: sorted_keys_def)

lemma set_fst_ins: "fst ` set (ins k v es) = insert k (fst ` set es)"
  by (induction k v es rule: ins.induct) auto

lemma sorted_keys_ins [simp]: "sorted_keys es \<Longrightarrow> sorted_keys (ins k v es)"
  by (induction k v es rule: ins.induct) (auto simp: set_fst_ins)

lemma set_del: "set (del k es) \<subseteq> set es"
  by (induction k es rule: del.induct) auto

lemma sorted_keys_del [simp]: "sorted_keys es \<Longrightarrow> sorted_keys (del k es)"
  by (induction k es rule: del.induct) (use set_del in fastforce)+

lemma map_of_notin_sorted:
  fixes k :: "'k::linorder"
  shows "\<forall>l \<in> fst ` set es. k < l \<Longrightarrow> map_of es k = None"
  by (metis map_of_eq_None_iff less_irrefl)

lemma map_of_ins: "map_of (ins k v es) = (map_of es)(k \<mapsto> v)"
  by (induction k v es rule: ins.induct) (auto simp: fun_eq_iff)

lemma map_of_del: "map_of (del k es) = (map_of es)(k := None)"
  by (induction k es rule: del.induct) (auto simp: fun_eq_iff)

lemma distinct_sorted_keys: "sorted_keys es \<Longrightarrow> distinct (map fst es)"
  by (induction es) fastforce+

lemma set_ins: "set (ins k v es) \<subseteq> insert (k, v) (set es)"
  by (induction k v es rule: ins.induct) auto

section \<open>Prefixes\<close>

lemma parallel_or_prefix: "(p :: 'a list) = q \<or> strict_prefix p q \<or> strict_prefix q p \<or> p \<parallel> q"
  by (auto simp: strict_prefix_def)

lemma parallel_Cons [simp]: "(x # xs) \<parallel> (y # ys) \<longleftrightarrow> x \<noteq> y \<or> xs \<parallel> ys"
  by (auto simp: parallel_def)

lemma not_parallel_Nil [simp]: "\<not> [] \<parallel> xs" "\<not> xs \<parallel> []"
  by (auto simp: parallel_def)

end
