(* ===== verification/Go_Strings.thy ===== *)
theory Go_Strings
  imports Prelude
begin

text \<open>
  The parts of Go's \<open>strings\<close>, \<open>strconv\<close> and \<open>path/filepath\<close> packages that the sources call, on
  byte strings: splitting and trimming, decimal formatting and parsing at 64 bits, booleans, and
  the lexical joining of path elements. The lemmas are the round trips the components rely on.
\<close>

section \<open>strings\<close>

definition has_prefix :: "string \<Rightarrow> string \<Rightarrow> bool" where
  "has_prefix s p \<longleftrightarrow> take (length p) s = p"

definition has_suffix :: "string \<Rightarrow> string \<Rightarrow> bool" where
  "has_suffix s p \<longleftrightarrow> length p \<le> length s \<and> drop (length s - length p) s = p"

definition trim_prefix :: "string \<Rightarrow> string \<Rightarrow> string" where
  "trim_prefix s p = (if has_prefix s p then drop (length p) s else s)"

definition trim_right :: "char \<Rightarrow> string \<Rightarrow> string" where
  "trim_right c s = rev (dropWhile (\<lambda>x. x = c) (rev s))"

definition trim_char :: "char \<Rightarrow> string \<Rightarrow> string" where
  "trim_char c s = trim_right c (dropWhile (\<lambda>x. x = c) s)"

text \<open>\<open>strings.Split(s, sep)\<close> for a one-byte separator: the empty string gives one empty piece.\<close>

fun split_on :: "char \<Rightarrow> string \<Rightarrow> string list" where
  "split_on c [] = [[]]"
| "split_on c (x # xs) =
     (if x = c then [] # split_on c xs
      else (case split_on c xs of [] \<Rightarrow> [[x]] | p # ps \<Rightarrow> (x # p) # ps))"

fun join_on :: "char \<Rightarrow> string list \<Rightarrow> string" where
  "join_on c [] = []"
| "join_on c [p] = p"
| "join_on c (p # q # ps) = p @ c # join_on c (q # ps)"

text \<open>\<open>strings.TrimSpace\<close> on the ASCII white space characters.\<close>

definition is_space :: "char \<Rightarrow> bool" where
  "is_space c \<longleftrightarrow> of_char c \<in> {9, 10, 11, 12, 13, 32 :: nat}"

definition trim_space :: "string \<Rightarrow> string" where
  "trim_space s = rev (dropWhile is_space (rev (dropWhile is_space s)))"

lemma has_suffix_append [simp]: "has_suffix (s @ p) p"
  by (simp add: has_suffix_def)

lemma has_suffix_iff: "has_suffix s p \<longleftrightarrow> (\<exists>r. s = r @ p)"
proof
  assume "has_suffix s p"
  then have "s = take (length s - length p) s @ p"
    by (metis append_take_drop_id has_suffix_def)
  then show "\<exists>r. s = r @ p" ..
qed auto

lemma has_prefix_iff: "has_prefix s p \<longleftrightarrow> (\<exists>r. s = p @ r)"
  unfolding has_prefix_def by (metis append_eq_conv_conj append_take_drop_id)

lemma trim_prefix_append [simp]: "trim_prefix (p @ s) p = s"
  by (simp add: trim_prefix_def has_prefix_def)

lemma split_on_not_Nil [simp]: "split_on c s \<noteq> []"
  by (induction s) (auto split: list.splits)

lemma split_on_no_sep: "p \<in> set (split_on c s) \<Longrightarrow> c \<notin> set p"
  by (induction s arbitrary: p) (auto split: if_splits list.splits)

lemma split_on_sep_free [simp]: "c \<notin> set s \<Longrightarrow> split_on c s = [s]"
  by (induction s) auto

lemma split_on_append: "c \<notin> set p \<Longrightarrow> split_on c (p @ c # s) = p # split_on c s"
  by (induction p) auto

lemma split_join: "ps \<noteq> [] \<Longrightarrow> \<forall>p \<in> set ps. c \<notin> set p \<Longrightarrow> split_on c (join_on c ps) = ps"
  by (induction c ps rule: join_on.induct) (auto simp: split_on_append)

lemma join_split [simp]: "join_on c (split_on c s) = s"
proof (induction s)
  case (Cons x xs)
  obtain p ps where ps: "split_on c xs = p # ps"
    by (metis list.exhaust split_on_not_Nil)
  with Cons.IH show ?case by (cases ps) auto
qed simp

lemma trim_right_id: "s = [] \<or> last s \<noteq> c \<Longrightarrow> trim_right c s = s"
  by (cases s rule: rev_cases) (auto simp: trim_right_def)

lemma trim_char_id: "s = [] \<or> hd s \<noteq> c \<and> last s \<noteq> c \<Longrightarrow> trim_char c s = s"
  by (cases s) (auto simp: trim_char_def trim_right_id)

lemma trim_char_Cons [simp]: "trim_char c (c # s) = trim_char c s"
  by (simp add: trim_char_def)

lemma trim_space_id: "\<forall>c \<in> set s. \<not> is_space c \<Longrightarrow> trim_space s = s"
  unfolding trim_space_def by (metis dropWhile_eq_self_iff hd_in_set rev_rev_ident set_rev)

section \<open>strconv\<close>

datatype num_error = NumSyntax | NumRange

definition digit_char :: "nat \<Rightarrow> char" where
  "digit_char d = char_of (48 + d)"

definition digit_val :: "char \<Rightarrow> nat option" where
  "digit_val c = (let n = of_char c :: nat in if 48 \<le> n \<and> n \<le> 57 then Some (n - 48) else None)"

text \<open>\<open>strconv.FormatUint(n, 10)\<close>.\<close>

fun format_nat :: "nat \<Rightarrow> string" where
  "format_nat n = (if n < 10 then [digit_char n] else format_nat (n div 10) @ [digit_char (n mod 10)])"

declare format_nat.simps [simp del]

definition format_uint :: "u64 \<Rightarrow> string" where
  "format_uint n = format_nat (unat n)"

text \<open>
  The scanning loop of \<open>strconv.ParseUint(s, 10, 64)\<close>: digit by digit, with the range check at
  every step, so a bad digit after an overflow is still a range error.
\<close>

fun parse_digits :: "nat \<Rightarrow> string \<Rightarrow> num_error + nat" where
  "parse_digits acc [] = Inr acc"
| "parse_digits acc (c # cs) =
     (case digit_val c of
        None \<Rightarrow> Inl NumSyntax
      | Some d \<Rightarrow>
          (let n = acc * 10 + d
           in if 2 ^ 64 \<le> n then Inl NumRange else parse_digits n cs))"

lemma parse_digits_code [code]:
  "parse_digits acc [] = Inr acc"
  "parse_digits acc (c # cs) =
     (case digit_val c of
        None \<Rightarrow> Inl NumSyntax
      | Some d \<Rightarrow>
          (let n = acc * 10 + d
           in if (18446744073709551616 :: int) \<le> int n then Inl NumRange else parse_digits n cs))"
proof -
  have "(2 :: nat) ^ 64 \<le> n \<longleftrightarrow> (18446744073709551616 :: int) \<le> int n" for n by simp
  then show "parse_digits acc (c # cs) =
     (case digit_val c of
        None \<Rightarrow> Inl NumSyntax
      | Some d \<Rightarrow>
          (let n = acc * 10 + d
           in if (18446744073709551616 :: int) \<le> int n then Inl NumRange else parse_digits n cs))"
    by (simp only: parse_digits.simps)
qed simp

definition parse_nat64 :: "string \<Rightarrow> num_error + nat" where
  "parse_nat64 s = (if s = [] then Inl NumSyntax else parse_digits 0 s)"

definition parse_uint :: "string \<Rightarrow> num_error + u64" where
  "parse_uint s = map_sum id of_nat (parse_nat64 s)"

text \<open>\<open>strconv.FormatInt\<close> and \<open>strconv.ParseInt(s, 10, 64)\<close>, signed.\<close>

definition format_int :: "int \<Rightarrow> string" where
  "format_int i = (if i < 0 then CHR ''-'' # format_nat (nat (- i)) else format_nat (nat i))"

definition parse_int :: "string \<Rightarrow> num_error + int" where
  "parse_int s =
     (if s = [] then Inl NumSyntax
      else
        let neg = (hd s = CHR ''-'');
            body = (if hd s = CHR ''-'' \<or> hd s = CHR ''+'' then tl s else s)
        in case parse_nat64 body of
             Inl e \<Rightarrow> Inl e
           | Inr n \<Rightarrow>
               if \<not> neg \<and> 2 ^ 63 \<le> n then Inl NumRange
               else if neg \<and> 2 ^ 63 < n then Inl NumRange
               else Inr (if neg then - int n else int n))"

lemma parse_int_code [code]:
  "parse_int s =
     (if s = [] then Inl NumSyntax
      else
        let neg = (hd s = CHR ''-'');
            body = (if hd s = CHR ''-'' \<or> hd s = CHR ''+'' then tl s else s)
        in case parse_nat64 body of
             Inl e \<Rightarrow> Inl e
           | Inr n \<Rightarrow>
               if \<not> neg \<and> (9223372036854775808 :: int) \<le> int n then Inl NumRange
               else if neg \<and> (9223372036854775808 :: int) < int n then Inl NumRange
               else Inr (if neg then - int n else int n))"
proof -
  have "(2 :: nat) ^ 63 \<le> n \<longleftrightarrow> (9223372036854775808 :: int) \<le> int n"
    "(2 :: nat) ^ 63 < n \<longleftrightarrow> (9223372036854775808 :: int) < int n" for n by simp_all
  then show ?thesis by (simp only: parse_int_def)
qed

definition parse_bool :: "string \<Rightarrow> num_error + bool" where
  "parse_bool s =
     (if s \<in> set [''1'', ''t'', ''T'', ''true'', ''TRUE'', ''True''] then Inr True
      else if s \<in> set [''0'', ''f'', ''F'', ''false'', ''FALSE'', ''False''] then Inr False
      else Inl NumSyntax)"

lemma digit_val_char [simp]: "d < 10 \<Longrightarrow> digit_val (digit_char d) = Some d"
  by (simp add: digit_val_def digit_char_def of_char_of)

lemma digit_char_neq [simp]:
  "d < 10 \<Longrightarrow> digit_char d \<noteq> CHR ''-''" "d < 10 \<Longrightarrow> digit_char d \<noteq> CHR ''+''"
  "d < 10 \<Longrightarrow> \<not> is_space (digit_char d)" "d < 10 \<Longrightarrow> digit_char d \<noteq> CHR ''/''"
  by (auto simp: digit_char_def is_space_def of_char_of dest: arg_cong [of _ _ "of_char :: char \<Rightarrow> nat"])

lemma format_nat_digits: "c \<in> set (format_nat n) \<Longrightarrow> \<exists>d < 10. c = digit_char d"
proof (induction n rule: format_nat.induct)
  case (1 n)
  show ?case
  proof (cases "n < 10")
    case True
    with 1 show ?thesis by (subst (asm) (2) format_nat.simps) auto
  next
    case False
    with 1(2) have "c \<in> set (format_nat (n div 10)) \<or> c = digit_char (n mod 10)"
      by (subst (asm) format_nat.simps) auto
    moreover have "n mod 10 < 10" by simp
    ultimately show ?thesis using 1(1) False by blast
  qed
qed

lemma format_nat_not_Nil [simp]: "format_nat n \<noteq> []"
  by (subst format_nat.simps) simp

lemma parse_digits_append:
  "parse_digits acc (s @ t) =
     (case parse_digits acc s of Inl e \<Rightarrow> Inl e | Inr n \<Rightarrow> parse_digits n t)"
  by (induction acc s rule: parse_digits.induct) (auto split: option.splits simp: Let_def)

lemma parse_digits_format: "n < 2 ^ 64 \<Longrightarrow> parse_digits 0 (format_nat n) = Inr n"
proof (induction n rule: format_nat.induct)
  case (1 n)
  show ?case
  proof (cases "n < 10")
    case True
    then show ?thesis by (subst format_nat.simps) simp
  next
    case False
    with 1 have "parse_digits 0 (format_nat (n div 10)) = Inr (n div 10)" by simp
    with False 1(2) show ?thesis
      by (subst format_nat.simps) (simp add: parse_digits_append Let_def)
  qed
qed

lemma parse_nat64_format [simp]: "n < 2 ^ 64 \<Longrightarrow> parse_nat64 (format_nat n) = Inr n"
  by (simp add: parse_nat64_def parse_digits_format)

lemma parse_uint_format [simp]: "parse_uint (format_uint n) = Inr n"
proof -
  have "unat n < 2 ^ 64" using unsigned_less [of n] by simp
  then show ?thesis by (simp add: parse_uint_def format_uint_def)
qed

lemma format_uint_not_Nil [simp]: "format_uint n \<noteq> []"
  by (simp add: format_uint_def)

lemma trim_space_format_uint [simp]: "trim_space (format_uint n) = format_uint n"
  by (rule trim_space_id) (auto simp: format_uint_def dest!: format_nat_digits)

lemma hd_format_nat: "hd (format_nat n) \<noteq> CHR ''-'' \<and> hd (format_nat n) \<noteq> CHR ''+''"
  using format_nat_digits [of "hd (format_nat n)" n] by (metis digit_char_neq(1,2) format_nat_not_Nil hd_in_set)

lemma parse_int_format [simp]:
  assumes "- (2 ^ 63) \<le> i" and "i < 2 ^ 63"
  shows "parse_int (format_int i) = Inr i"
proof (cases "i < 0")
  case True
  with assms(1) have "nat (- i) \<le> 2 ^ 63" and "nat (- i) < 2 ^ 64" by simp_all
  with True show ?thesis by (simp add: parse_int_def format_int_def)
next
  case False
  with assms(2) have "nat i < 2 ^ 63" and "nat i < 2 ^ 64" by simp_all
  with False show ?thesis by (simp add: parse_int_def format_int_def hd_format_nat)
qed

lemma parse_bool_true [simp]: "parse_bool ''true'' = Inr True"
  by (simp add: parse_bool_def)

section \<open>path/filepath\<close>

text \<open>
  A path is represented by the file it denotes: the list of the components of its cleaned
  absolute form. \<open>filepath.Join\<close> cleans lexically; without symbolic links that is the kernel's
  own resolution, so a Go path and its cleaned form denote the same file.
\<close>

type_synonym path = "string list"

definition clean_step :: "path \<Rightarrow> string \<Rightarrow> path" where
  "clean_step p c =
     (if c = [] \<or> c = ''.'' then p else if c = ''..'' then butlast p else p @ [c])"

definition clean_from :: "path \<Rightarrow> string list \<Rightarrow> path" where
  "clean_from p cs = foldl clean_step p cs"

text \<open>
  \<open>filepath.Join(elems...)\<close> seen from the working directory \<open>cwd\<close>: empty elements are dropped,
  and the result is absolute when the first remaining element starts with a slash.
\<close>

definition join_path :: "path \<Rightarrow> string list \<Rightarrow> path" where
  "join_path cwd elems =
     (let es = filter (\<lambda>e. e \<noteq> []) elems;
          start = (case es of [] \<Rightarrow> cwd | e # _ \<Rightarrow> if hd e = CHR ''/'' then [] else cwd)
      in clean_from start (concat (map (split_on (CHR ''/'')) es)))"

text \<open>A plain segment names an entry of the directory it is joined to.\<close>

definition plain_seg :: "string \<Rightarrow> bool" where
  "plain_seg s \<longleftrightarrow> s \<noteq> [] \<and> s \<noteq> ''.'' \<and> s \<noteq> ''..'' \<and> CHR ''/'' \<notin> set s"

lemma clean_from_append [simp]: "clean_from p (cs @ ds) = clean_from (clean_from p cs) ds"
  by (simp add: clean_from_def)

lemma clean_from_plain: "\<forall>s \<in> set cs. plain_seg s \<Longrightarrow> clean_from p cs = p @ cs"
  by (induction cs arbitrary: p) (auto simp: clean_from_def clean_step_def plain_seg_def)

lemma join_path_Cons:
  "r \<noteq> [] \<Longrightarrow> join_path cwd (r # es) =
     clean_from (join_path cwd [r]) (concat (map (split_on (CHR ''/'')) (filter (\<lambda>e. e \<noteq> []) es)))"
  by (simp add: join_path_def Let_def)

lemma concat_split_plain:
  "\<forall>s \<in> set es. plain_seg s \<Longrightarrow> concat (map (split_on (CHR ''/'')) es) = es"
  by (induction es) (auto simp: plain_seg_def)

lemma join_path_plain:
  assumes "r \<noteq> []" and "\<forall>s \<in> set es. plain_seg s"
  shows "join_path cwd (r # es) = join_path cwd [r] @ es"
proof -
  from assms(2) have "filter (\<lambda>e. e \<noteq> []) es = es"
    by (auto simp: filter_id_conv plain_seg_def)
  with assms show ?thesis
    by (subst join_path_Cons) (simp_all add: concat_split_plain clean_from_plain)
qed

lemma join_path_snoc:
  assumes "r \<noteq> []" and "plain_seg x"
  shows "join_path cwd (r # es @ [x]) = join_path cwd (r # es) @ [x]"
proof -
  have "clean_from p [x] = p @ [x]" for p
    using clean_from_plain [of "[x]" p] assms(2) by simp
  with assms show ?thesis by (simp add: join_path_def Let_def plain_seg_def)
qed

end
