(* ===== verification/Filesystem.thy ===== *)
theory Filesystem
  imports Go_Strings
begin

text \<open>
  The file system below the storage tree: a tree of directories and files, the system calls of
  Go's \<open>os\<close> package that the sources issue, and a list of faults that decides which calls fail.
  \<open>file_at\<close> abstracts the tree to a map from paths to contents; the laws of the calls are stated
  on that map. The theory ends with the two routines of \<open>internal/fsstorage/store.go\<close> that work
  on files alone: the temporary-file-and-rename write and the directory walk.
\<close>

section \<open>The tree\<close>

datatype os_error = ENOENT | ENOTDIR | EISDIR | ENOTEMPTY | EIO

datatype node = File bytes | Dir "(string \<times> node) list"

fun node_at :: "node \<Rightarrow> path \<Rightarrow> os_error + node" where
  "node_at n [] = Inr n"
| "node_at (File b) (c # cs) = Inl ENOTDIR"
| "node_at (Dir es) (c # cs) =
     (case map_of es c of None \<Rightarrow> Inl ENOENT | Some n \<Rightarrow> node_at n cs)"

text \<open>Setting or deleting the entry a path names; its parent directory must exist.\<close>

fun put_at :: "path \<Rightarrow> node \<Rightarrow> node \<Rightarrow> os_error + node" where
  "put_at [] m n = Inl EISDIR"
| "put_at (c # cs) m (File b) = Inl ENOTDIR"
| "put_at [c] m (Dir es) = Inr (Dir (ins c m es))"
| "put_at (c # d # cs) m (Dir es) =
     (case map_of es c of
        None \<Rightarrow> Inl ENOENT
      | Some k \<Rightarrow>
          (case put_at (d # cs) m k of
             Inl e \<Rightarrow> Inl e
           | Inr k' \<Rightarrow> Inr (Dir (ins c k' es))))"

fun del_at :: "path \<Rightarrow> node \<Rightarrow> os_error + node" where
  "del_at [] n = Inl EISDIR"
| "del_at (c # cs) (File b) = Inl ENOTDIR"
| "del_at [c] (Dir es) = (if map_of es c = None then Inl ENOENT else Inr (Dir (del c es)))"
| "del_at (c # d # cs) (Dir es) =
     (case map_of es c of
        None \<Rightarrow> Inl ENOENT
      | Some k \<Rightarrow>
          (case del_at (d # cs) k of
             Inl e \<Rightarrow> Inl e
           | Inr k' \<Rightarrow> Inr (Dir (ins c k' es))))"

text \<open>\<open>os.MkdirAll\<close>: every missing directory on the way is made.\<close>

fun mkdirs_at :: "path \<Rightarrow> node \<Rightarrow> os_error + node" where
  "mkdirs_at p (File b) = Inl ENOTDIR"
| "mkdirs_at [] (Dir es) = Inr (Dir es)"
| "mkdirs_at (c # cs) (Dir es) =
     (case mkdirs_at cs (case map_of es c of None \<Rightarrow> Dir [] | Some n \<Rightarrow> n) of
        Inl e \<Rightarrow> Inl e
      | Inr n' \<Rightarrow> Inr (Dir (ins c n' es)))"

text \<open>The abstraction: which paths are files, and what they hold.\<close>

definition file_at :: "node \<Rightarrow> path \<Rightarrow> bytes option" where
  "file_at n p = (case node_at n p of Inr (File b) \<Rightarrow> Some b | _ \<Rightarrow> None)"

definition dir_at :: "node \<Rightarrow> path \<Rightarrow> bool" where
  "dir_at n p \<longleftrightarrow> (case node_at n p of Inr (Dir es) \<Rightarrow> True | _ \<Rightarrow> False)"

fun wf_node :: "node \<Rightarrow> bool" where
  "wf_node (File b) = True"
| "wf_node (Dir es) = (sorted_keys es \<and> (\<forall>e \<in> set es. wf_node (snd e)))"

subsection \<open>Laws of the tree\<close>

lemma node_at_append:
  "node_at n (p @ q) = (case node_at n p of Inl e \<Rightarrow> Inl e | Inr m \<Rightarrow> node_at m q)"
  by (induction n p rule: node_at.induct) (auto split: option.splits)

lemma node_at_File [simp]: "node_at (File b) p = (if p = [] then Inr (File b) else Inl ENOTDIR)"
  by (cases p) auto

lemma file_at_simps [simp]:
  "file_at (File b) p = (if p = [] then Some b else None)"
  "file_at (Dir es) [] = None"
  "file_at (Dir es) (c # cs) = (case map_of es c of None \<Rightarrow> None | Some n \<Rightarrow> file_at n cs)"
  by (auto simp: file_at_def split: option.splits)

lemma dir_at_simps [simp]:
  "\<not> dir_at (File b) p"
  "dir_at (Dir es) []"
  "dir_at (Dir es) (c # cs) = (case map_of es c of None \<Rightarrow> False | Some n \<Rightarrow> dir_at n cs)"
  by (auto simp: dir_at_def split: option.splits)

lemma file_at_empty_dir [simp]: "file_at (Dir []) p = None"
  by (cases p) simp_all

lemma dir_at_empty_dir [simp]: "dir_at (Dir []) p \<longleftrightarrow> p = []"
  by (cases p) simp_all

lemma put_at_same: "put_at p m n = Inr n' \<Longrightarrow> node_at n' p = Inr m"
  by (induction p m n arbitrary: n' rule: put_at.induct)
    (auto simp: map_of_ins split: option.splits sum.splits)

lemma file_at_put:
  "put_at p (File b) n = Inr n' \<Longrightarrow> \<not> dir_at n p \<Longrightarrow> file_at n' q = ((file_at n)(p \<mapsto> b)) q"
proof (induction p "File b" n arbitrary: n' q rule: put_at.induct)
  case (3 c es)
  then show ?case
    by (cases q; cases "map_of es c"; cases "the (map_of es c)") (auto simp: map_of_ins)
next
  case (4 c d cs es)
  then obtain k k' where k: "map_of es c = Some k" "put_at (d # cs) (File b) k = Inr k'"
    and n': "n' = Dir (ins c k' es)" by (auto split: option.splits sum.splits)
  show ?case
  proof (cases q)
    case (Cons x xs)
    with 4 k n' show ?thesis by (cases "x = c") (auto simp: map_of_ins)
  qed (simp add: n')
qed auto

lemma file_at_del:
  "del_at p n = Inr n' \<Longrightarrow> node_at n p = Inr (Dir []) \<or> \<not> dir_at n p \<Longrightarrow>
    file_at n' q = ((file_at n)(p := None)) q"
proof (induction p n arbitrary: n' q rule: del_at.induct)
  case (3 c es)
  then show ?case
    by (cases q; cases "the (map_of es c)") (auto simp: map_of_del neq_Nil_conv split: if_splits)
next
  case (4 c d cs es)
  then obtain k k' where k: "map_of es c = Some k" "del_at (d # cs) k = Inr k'"
    and n': "n' = Dir (ins c k' es)" by (auto split: option.splits sum.splits)
  show ?case
  proof (cases q)
    case (Cons x xs)
    with 4 k n' show ?thesis by (cases "x = c") (auto simp: map_of_ins)
  qed (simp add: n')
qed auto

lemma file_at_mkdirs: "mkdirs_at p n = Inr n' \<Longrightarrow> file_at n' q = file_at n q"
proof (induction p n arbitrary: n' q rule: mkdirs_at.induct)
  case (3 c cs es)
  then show ?case
    by (cases q) (auto simp: map_of_ins split: option.splits sum.splits)
qed auto

lemma node_at_wf: "wf_node n \<Longrightarrow> node_at n p = Inr m \<Longrightarrow> wf_node m"
  by (induction n p rule: node_at.induct) (auto split: option.splits dest!: map_of_SomeD)

lemma wf_map_of: "wf_node (Dir es) \<Longrightarrow> map_of es c = Some n \<Longrightarrow> wf_node n"
  by (auto dest!: map_of_SomeD)

lemma wf_ins: "wf_node (Dir es) \<Longrightarrow> wf_node n \<Longrightarrow> wf_node (Dir (ins c n es))"
  using set_ins [of c n es] by fastforce

lemma wf_put_at: "put_at p m n = Inr n' \<Longrightarrow> wf_node n \<Longrightarrow> wf_node m \<Longrightarrow> wf_node n'"
proof (induction p m n arbitrary: n' rule: put_at.induct)
  case (4 c d cs m es)
  then show ?case
    by (auto split: option.splits sum.splits intro: wf_ins dest: wf_map_of simp del: wf_node.simps)
qed (auto intro: wf_ins simp del: wf_node.simps)

lemma wf_del_at: "del_at p n = Inr n' \<Longrightarrow> wf_node n \<Longrightarrow> wf_node n'"
proof (induction p n arbitrary: n' rule: del_at.induct)
  case (3 c es)
  then show ?case using set_del [of c es] by (fastforce split: if_splits)
next
  case (4 c d cs es)
  then show ?case
    by (auto split: option.splits sum.splits intro: wf_ins dest: wf_map_of simp del: wf_node.simps)
qed auto

lemma wf_mkdirs_at: "mkdirs_at p n = Inr n' \<Longrightarrow> wf_node n \<Longrightarrow> wf_node n'"
proof (induction p n arbitrary: n' rule: mkdirs_at.induct)
  case (3 c cs es)
  have "wf_node (case map_of es c of None \<Rightarrow> Dir [] | Some n \<Rightarrow> n)"
    using 3(3) by (auto split: option.splits dest: wf_map_of simp del: wf_node.simps) simp
  with 3 show ?case
    by (auto split: sum.splits intro: wf_ins simp del: wf_node.simps)
qed auto

section \<open>System calls\<close>

text \<open>
  The state the calls work on. \<open>fs_faults\<close> decides the next calls: each call takes the head of
  the list, and \<open>Fault e k\<close> makes it fail with \<open>e\<close> after \<open>k\<close> units of its work (bytes of a
  write, directories of a \<open>MkdirAll\<close>). A crash of the process is a list in which every further
  call fails at once. The record is extended by the components with the state they add.
\<close>

datatype fault = NoFault | Fault os_error nat

record fs_state =
  fs_root :: node
  fs_cwd :: path
  fs_faults :: "fault list"

abbreviation files :: "'x fs_state_scheme \<Rightarrow> path \<Rightarrow> bytes option" where
  "files s \<equiv> file_at (fs_root s)"

definition syscall ::
  "(nat \<Rightarrow> node \<Rightarrow> node) \<Rightarrow> (node \<Rightarrow> os_error + 'a \<times> node) \<Rightarrow> ('x fs_state_scheme, os_error, 'a) sem" where
  "syscall part body s =
     (case fs_faults s of
        Fault e k # fs \<Rightarrow> (Inl e, s\<lparr>fs_root := part k (fs_root s), fs_faults := fs\<rparr>)
      | fs \<Rightarrow>
          (case body (fs_root s) of
             Inl e \<Rightarrow> (Inl e, s\<lparr>fs_faults := tl fs\<rparr>)
           | Inr (a, n) \<Rightarrow> (Inr a, s\<lparr>fs_root := n, fs_faults := tl fs\<rparr>)))"

definition query :: "(node \<Rightarrow> os_error + 'a) \<Rightarrow> ('x fs_state_scheme, os_error, 'a) sem" where
  "query f = syscall (\<lambda>k n. n) (\<lambda>n. map_sum id (\<lambda>a. (a, n)) (f n))"

definition change ::
  "(nat \<Rightarrow> node \<Rightarrow> node) \<Rightarrow> (node \<Rightarrow> os_error + node) \<Rightarrow> ('x fs_state_scheme, os_error, unit) sem" where
  "change part f = syscall part (\<lambda>n. map_sum id (\<lambda>n'. ((), n')) (f n))"

definition os_stat :: "path \<Rightarrow> ('x fs_state_scheme, os_error, node) sem" where
  "os_stat p = query (\<lambda>n. node_at n p)"

definition os_read_file :: "path \<Rightarrow> ('x fs_state_scheme, os_error, bytes) sem" where
  "os_read_file p =
     query (\<lambda>n. case node_at n p of
                  Inl e \<Rightarrow> Inl e | Inr (File b) \<Rightarrow> Inr b | Inr (Dir es) \<Rightarrow> Inl EISDIR)"

definition os_mkdir_all :: "path \<Rightarrow> ('x fs_state_scheme, os_error, unit) sem" where
  "os_mkdir_all p =
     change (\<lambda>k n. case mkdirs_at (take k p) n of Inl e \<Rightarrow> n | Inr n' \<Rightarrow> n') (mkdirs_at p)"

text \<open>\<open>os.Create\<close> truncates an existing file; \<open>f.Write\<close> may stop after some bytes.\<close>

definition put_file :: "path \<Rightarrow> bytes \<Rightarrow> node \<Rightarrow> os_error + node" where
  "put_file p b n = (if dir_at n p then Inl EISDIR else put_at p (File b) n)"

definition os_create :: "path \<Rightarrow> ('x fs_state_scheme, os_error, unit) sem" where
  "os_create p = change (\<lambda>k n. n) (put_file p [])"

definition f_write :: "path \<Rightarrow> bytes \<Rightarrow> ('x fs_state_scheme, os_error, unit) sem" where
  "f_write p b =
     change (\<lambda>k n. case put_file p (take k b) n of Inl e \<Rightarrow> n | Inr n' \<Rightarrow> n') (put_file p b)"

text \<open>\<open>f.Sync\<close> and \<open>f.Close\<close> may fail but change no content.\<close>

definition f_sync :: "('x fs_state_scheme, os_error, unit) sem" where
  "f_sync = change (\<lambda>k n. n) Inr"

definition f_close :: "('x fs_state_scheme, os_error, unit) sem" where
  "f_close = change (\<lambda>k n. n) Inr"

definition remove_at :: "path \<Rightarrow> node \<Rightarrow> os_error + node" where
  "remove_at p n =
     (case node_at n p of
        Inl e \<Rightarrow> Inl e
      | Inr (File b) \<Rightarrow> del_at p n
      | Inr (Dir es) \<Rightarrow> if es = [] then del_at p n else Inl ENOTEMPTY)"

definition os_remove :: "path \<Rightarrow> ('x fs_state_scheme, os_error, unit) sem" where
  "os_remove p = change (\<lambda>k n. n) (remove_at p)"

text \<open>
  \<open>os.Rename\<close> of a file: the new name gets the content and the old name goes, in one step. (The
  sources rename only the temporary file they have just written, never a directory.)
\<close>

definition rename_at :: "path \<Rightarrow> path \<Rightarrow> node \<Rightarrow> os_error + node" where
  "rename_at p q n =
     (case node_at n p of
        Inl e \<Rightarrow> Inl e
      | Inr (Dir es) \<Rightarrow> Inl EISDIR
      | Inr (File b) \<Rightarrow>
          (if p = q then Inr n
           else case put_file q b n of
             Inl e \<Rightarrow> Inl e
           | Inr n' \<Rightarrow> del_at p n'))"

definition os_rename :: "path \<Rightarrow> path \<Rightarrow> ('x fs_state_scheme, os_error, unit) sem" where
  "os_rename p q = change (\<lambda>k n. n) (rename_at p q)"

lemmas os_defs = os_stat_def os_read_file_def os_mkdir_all_def os_create_def f_write_def
  f_sync_def f_close_def os_remove_def os_rename_def

subsection \<open>What the calls do to the files\<close>

text \<open>A call writes the tree and the fault list and nothing else.\<close>

lemma syscall_ext:
  "fs_cwd (snd (syscall part body s)) = fs_cwd s"
  "fs_state.more (snd (syscall part body s)) = fs_state.more s"
  by (auto simp: syscall_def split: list.splits fault.splits sum.splits prod.splits)

lemma preserves_ext:
  "preserves (\<lambda>s. P (fs_cwd s) (fs_state.more s)) (syscall part body)"
  by (simp add: preserves_def syscall_ext)

lemma query_root [simp]: "fs_root (snd (query f s)) = fs_root s"
  by (auto simp: query_def syscall_def split: list.splits fault.splits sum.splits prod.splits)

lemma query_Inr: "query f s = (Inr a, t) \<Longrightarrow> f (fs_root s) = Inr a"
  by (auto simp: query_def syscall_def split: list.splits fault.splits sum.splits prod.splits)

lemma change_Inr: "change part f s = (Inr u, t) \<Longrightarrow> f (fs_root s) = Inr (fs_root t)"
  by (auto simp: change_def syscall_def split: list.splits fault.splits sum.splits prod.splits)

lemma change_Inl:
  "change part f s = (Inl e, t) \<Longrightarrow> fs_root t = fs_root s \<or> (\<exists>k. fs_root t = part k (fs_root s))"
  by (auto simp: change_def syscall_def split: list.splits fault.splits sum.splits prod.splits)

text \<open>With no fault ahead, a call succeeds exactly when the tree allows it.\<close>

lemma query_no_fault: "fs_faults s = [] \<Longrightarrow> query f s = (f (fs_root s), s)"
  by (auto simp: query_def syscall_def split: sum.splits)

lemma change_no_fault:
  "fs_faults s = [] \<Longrightarrow> change part f s =
     (case f (fs_root s) of Inl e \<Rightarrow> (Inl e, s) | Inr n \<Rightarrow> (Inr (), s\<lparr>fs_root := n\<rparr>))"
  by (auto simp: change_def syscall_def split: sum.splits)

text \<open>
  A predicate of the tree is kept by a call if its effect keeps it, also where the call stops
  half-way.
\<close>

lemma preserves_change:
  assumes "\<And>n n'. P n \<Longrightarrow> f n = Inr n' \<Longrightarrow> P n'" and "\<And>k n. P n \<Longrightarrow> P (part k n)"
  shows "preserves (\<lambda>s. P (fs_root s)) (change part f)"
  using assms
  by (auto simp: preserves_def change_def syscall_def split: list.splits fault.splits sum.splits prod.splits)

lemma preserves_query: "preserves (\<lambda>s. P (fs_root s)) (query f)"
  by (simp add: preserves_def)

text \<open>Well-formedness of the tree is kept by every call.\<close>

lemma wf_put_file: "wf_node n \<Longrightarrow> put_file p b n = Inr n' \<Longrightarrow> wf_node n'"
  by (auto simp: put_file_def split: if_splits dest: wf_put_at)

lemma preserves_wf [preserves_intros]:
  "preserves (\<lambda>s. wf_node (fs_root s)) (os_stat p)"
  "preserves (\<lambda>s. wf_node (fs_root s)) (os_read_file p)"
  "preserves (\<lambda>s. wf_node (fs_root s)) (os_mkdir_all p)"
  "preserves (\<lambda>s. wf_node (fs_root s)) (os_create p)"
  "preserves (\<lambda>s. wf_node (fs_root s)) (f_write p b)"
  "preserves (\<lambda>s. wf_node (fs_root s)) f_sync"
  "preserves (\<lambda>s. wf_node (fs_root s)) f_close"
  "preserves (\<lambda>s. wf_node (fs_root s)) (os_remove p)"
  "preserves (\<lambda>s. wf_node (fs_root s)) (os_rename p q)"
  unfolding os_defs
  by (intro preserves_change preserves_query;
      auto simp: remove_at_def rename_at_def
           split: sum.splits node.splits if_splits
           dest: wf_put_file wf_del_at wf_mkdirs_at)+

text \<open>
  The files after each call, as updates of the map \<^const>\<open>file_at\<close>. A call that fails leaves
  every file other than the one it writes alone.
\<close>

lemma files_put_file: "put_file p b n = Inr n' \<Longrightarrow> file_at n' = (file_at n)(p \<mapsto> b)"
  by (auto simp: put_file_def fun_eq_iff file_at_put split: if_splits)

lemma files_remove: "remove_at p n = Inr n' \<Longrightarrow> file_at n' = (file_at n)(p := None)"
proof -
  assume "remove_at p n = Inr n'"
  then have "del_at p n = Inr n'" and "node_at n p = Inr (Dir []) \<or> \<not> dir_at n p"
    by (auto simp: remove_at_def dir_at_def split: sum.splits node.splits if_splits)
  then show ?thesis by (simp add: fun_eq_iff file_at_del)
qed

lemma files_rename:
  assumes "rename_at p q n = Inr n'" and "p \<noteq> q"
  shows "\<exists>b. file_at n p = Some b \<and> file_at n' = (file_at n)(q \<mapsto> b, p := None)"
proof -
  from assms obtain b m where b: "node_at n p = Inr (File b)" and m: "put_file q b n = Inr m"
    and n': "del_at p m = Inr n'"
    by (auto simp: rename_at_def split: sum.splits node.splits)
  from files_put_file [OF m] assms(2) b have "file_at m p = Some b" by (simp add: file_at_def)
  then have "\<not> dir_at m p" by (auto simp: file_at_def dir_at_def split: sum.splits node.splits)
  with n' have "file_at n' = (file_at m)(p := None)" by (simp add: fun_eq_iff file_at_del)
  with files_put_file [OF m] b show ?thesis by (simp add: file_at_def)
qed

lemma os_read_file_Inr: "os_read_file p s = (Inr b, t) \<Longrightarrow> files s p = Some b"
  by (auto simp: os_read_file_def file_at_def dest!: query_Inr split: sum.splits node.splits)

lemma os_create_Inr: "os_create p s = (Inr u, t) \<Longrightarrow> files t = (files s)(p \<mapsto> [])"
  unfolding os_create_def by (blast dest: change_Inr files_put_file)

lemma f_write_Inr: "f_write p b s = (Inr u, t) \<Longrightarrow> files t = (files s)(p \<mapsto> b)"
  unfolding f_write_def by (blast dest: change_Inr files_put_file)

lemma os_remove_Inr: "os_remove p s = (Inr u, t) \<Longrightarrow> files t = (files s)(p := None)"
  unfolding os_remove_def by (blast dest: change_Inr files_remove)

lemma os_rename_Inr:
  "os_rename p q s = (Inr u, t) \<Longrightarrow> p \<noteq> q \<Longrightarrow>
    \<exists>b. files s p = Some b \<and> files t = (files s)(q \<mapsto> b, p := None)"
  unfolding os_rename_def by (blast dest: change_Inr files_rename)

definition agree_off :: "path set \<Rightarrow> (path \<Rightarrow> bytes option) \<Rightarrow> 'x fs_state_scheme \<Rightarrow> bool" where
  "agree_off A F s \<longleftrightarrow> (\<forall>q. q \<notin> A \<longrightarrow> files s q = F q)"

lemma preserves_agree_query:
  "preserves (agree_off A F) (os_stat p)" "preserves (agree_off A F) (os_read_file p)"
  by (auto simp: preserves_def agree_off_def os_defs)

lemma preserves_agree_change:
  "preserves (agree_off A F) (os_mkdir_all d)"
  "preserves (agree_off A F) f_sync"
  "preserves (agree_off A F) f_close"
  "p \<in> A \<Longrightarrow> preserves (agree_off A F) (os_create p)"
  "p \<in> A \<Longrightarrow> preserves (agree_off A F) (f_write p b)"
  "p \<in> A \<Longrightarrow> preserves (agree_off A F) (os_remove p)"
  unfolding agree_off_def os_defs
  by (intro preserves_change;
      auto simp: file_at_mkdirs files_put_file files_remove split: sum.splits)+

lemma preserves_agree_rename: "p \<in> A \<Longrightarrow> q \<in> A \<Longrightarrow> preserves (agree_off A F) (os_rename p q)"
  unfolding agree_off_def os_defs
proof (rule preserves_change)
  fix n n' assume "p \<in> A" "q \<in> A" and F: "\<forall>r. r \<notin> A \<longrightarrow> file_at n r = F r"
    and n': "rename_at p q n = Inr n'"
  show "\<forall>r. r \<notin> A \<longrightarrow> file_at n' r = F r"
  proof (cases "p = q")
    case True
    with n' have "n' = n" by (auto simp: rename_at_def split: sum.splits node.splits)
    with F show ?thesis by simp
  next
    case False
    with files_rename [OF n'] F \<open>p \<in> A\<close> \<open>q \<in> A\<close> show ?thesis by auto
  qed
qed auto

lemma os_rename_Inl: "os_rename p q s = (Inl e, t) \<Longrightarrow> fs_root t = fs_root s"
  by (auto simp: os_rename_def dest: change_Inl)

lemmas preserves_agree [preserves_intros] =
  preserves_agree_query preserves_agree_change preserves_agree_rename

section \<open>Writing through a temporary file\<close>

text \<open>
  \<open>path + ".tmp"\<close>. The two writers of the sources, \<open>atomicWrite\<close> (store.go) and
  \<open>Counter.persist\<close> (counter.go), contain the same sequence of calls after they have fixed the
  temporary name: create, write, sync, close, rename, with the temporary file removed on failure
  (but not after a failed rename).
\<close>

definition tmp_of :: "path \<Rightarrow> path" where
  "tmp_of p = butlast p @ [last p @ ''.tmp'']"

definition write_tmp :: "path \<Rightarrow> bytes \<Rightarrow> ('x fs_state_scheme, os_error, unit) sem" where
  "write_tmp tmp data =
     sbind (os_create tmp) (\<lambda>_.
     sbind (attempt (f_write tmp data)) (\<lambda>r. case r of
         Inl e \<Rightarrow> sbind (attempt f_close) (\<lambda>_. sbind (attempt (os_remove tmp)) (\<lambda>_. throw e))
       | Inr _ \<Rightarrow>
     sbind (attempt f_sync) (\<lambda>r. case r of
         Inl e \<Rightarrow> sbind (attempt f_close) (\<lambda>_. sbind (attempt (os_remove tmp)) (\<lambda>_. throw e))
       | Inr _ \<Rightarrow>
     sbind (attempt f_close) (\<lambda>r. case r of
         Inl e \<Rightarrow> sbind (attempt (os_remove tmp)) (\<lambda>_. throw e)
       | Inr _ \<Rightarrow> ret ()))))"

definition replace_file :: "path \<Rightarrow> bytes \<Rightarrow> ('x fs_state_scheme, os_error, unit) sem" where
  "replace_file path data =
     sbind (write_tmp (tmp_of path) data) (\<lambda>_. os_rename (tmp_of path) path)"

definition atomicWrite :: "path \<Rightarrow> bytes \<Rightarrow> ('x fs_state_scheme, os_error, unit) sem" where
  "atomicWrite path data =
     sbind (os_mkdir_all (butlast path)) (\<lambda>_. replace_file path data)"

lemma tmp_of_neq [simp]: "tmp_of p \<noteq> p" "p \<noteq> tmp_of p"
proof -
  show "tmp_of p \<noteq> p"
    by (cases p rule: rev_cases) (auto simp: tmp_of_def)
  then show "p \<noteq> tmp_of p" by metis
qed

lemma preserves_agree_write_tmp [preserves_intros]:
  "tmp \<in> A \<Longrightarrow> preserves (agree_off A F) (write_tmp tmp data)"
  unfolding write_tmp_def by (intro preserves_intros) auto

lemma preserves_agree_replace_file [preserves_intros]:
  "path \<in> A \<Longrightarrow> tmp_of path \<in> A \<Longrightarrow> preserves (agree_off A F) (replace_file path data)"
  unfolding replace_file_def by (intro preserves_intros)

lemma preserves_agree_atomicWrite [preserves_intros]:
  "path \<in> A \<Longrightarrow> tmp_of path \<in> A \<Longrightarrow> preserves (agree_off A F) (atomicWrite path data)"
  unfolding atomicWrite_def by (intro preserves_intros)

lemma preserves_wf_replace_file [preserves_intros]:
  "preserves (\<lambda>s. wf_node (fs_root s)) (replace_file path data)"
  unfolding replace_file_def write_tmp_def by (intro preserves_intros)

lemma preserves_wf_atomicWrite [preserves_intros]:
  "preserves (\<lambda>s. wf_node (fs_root s)) (atomicWrite path data)"
  unfolding atomicWrite_def by (intro preserves_intros)

lemma write_tmp_Inr:
  assumes "write_tmp tmp data s = (Inr u, t)"
  shows "files t = (files s)(tmp \<mapsto> data)"
proof -
  from assms obtain s1 s2 s3 where
    1: "os_create tmp s = (Inr (), s1)" and 2: "f_write tmp data s1 = (Inr (), s2)"
    and 3: "f_sync s2 = (Inr (), s3)" and 4: "f_close s3 = (Inr (), t)"
    by (auto simp: write_tmp_def sbind_Inr_iff split: sum.split_asm)
  from 3 4 have "fs_root t = fs_root s2"
    by (auto simp: f_sync_def f_close_def dest!: change_Inr)
  with os_create_Inr [OF 1] f_write_Inr [OF 2] show ?thesis by auto
qed

lemma replace_file_Inr:
  assumes "replace_file path data s = (Inr u, t)"
  shows "files t = (files s)(path \<mapsto> data, tmp_of path := None)"
proof -
  from assms obtain v where v: "write_tmp (tmp_of path) data s = (Inr (), v)"
    and r: "os_rename (tmp_of path) path v = (Inr u, t)"
    by (auto simp: replace_file_def sbind_Inr_iff)
  from os_rename_Inr [OF r] write_tmp_Inr [OF v] show ?thesis by auto
qed

lemma replace_file_Inl:
  assumes "replace_file path data s = (Inl e, t)" and "q \<noteq> tmp_of path"
  shows "files t q = files s q"
proof -
  let ?P = "agree_off {tmp_of path} (files s)"
  have w: "preserves ?P (write_tmp (tmp_of path) data)" by (intro preserves_intros) auto
  have s: "?P s" by (simp add: agree_off_def)
  have "?P t"
  proof (cases "fst (write_tmp (tmp_of path) data s)")
    case (Inl d)
    with assms(1) have "write_tmp (tmp_of path) data s = (Inl e, t)"
      by (auto simp: replace_file_def sbind_Inl_iff)
    with w s show ?thesis by (rule preservesD)
  next
    case (Inr u)
    with assms(1) obtain v where v: "write_tmp (tmp_of path) data s = (Inr (), v)"
      and r: "os_rename (tmp_of path) path v = (Inl e, t)"
      by (auto simp: replace_file_def sbind_Inl_iff)
    from w s v have "?P v" by (rule preservesD)
    with os_rename_Inl [OF r] show ?thesis by (simp add: agree_off_def)
  qed
  with assms(2) show ?thesis by (simp add: agree_off_def)
qed

lemma os_mkdir_all_files: "os_mkdir_all d s = (r, t) \<Longrightarrow> files t = files s"
  using preservesD [OF preserves_agree_change(1), of "{}" "files s" s d r t]
  by (simp add: agree_off_def fun_eq_iff)

lemma atomicWrite_Inr:
  "atomicWrite path data s = (Inr u, t) \<Longrightarrow> files t = (files s)(path \<mapsto> data, tmp_of path := None)"
  by (auto simp: atomicWrite_def sbind_Inr_iff os_mkdir_all_files dest!: replace_file_Inr)

lemma atomicWrite_Inl:
  "atomicWrite path data s = (Inl e, t) \<Longrightarrow> q \<noteq> tmp_of path \<Longrightarrow> files t q = files s q"
  by (auto simp: atomicWrite_def sbind_Inl_iff os_mkdir_all_files dest!: replace_file_Inl)

text \<open>Nothing but the tree and the fault list changes.\<close>

lemma preserves_ext_os [preserves_intros]:
  "preserves (\<lambda>s. P (fs_cwd s) (fs_state.more s)) (os_stat p)"
  "preserves (\<lambda>s. P (fs_cwd s) (fs_state.more s)) (os_read_file p)"
  "preserves (\<lambda>s. P (fs_cwd s) (fs_state.more s)) (os_mkdir_all p)"
  "preserves (\<lambda>s. P (fs_cwd s) (fs_state.more s)) (os_create p)"
  "preserves (\<lambda>s. P (fs_cwd s) (fs_state.more s)) (f_write p b)"
  "preserves (\<lambda>s. P (fs_cwd s) (fs_state.more s)) f_sync"
  "preserves (\<lambda>s. P (fs_cwd s) (fs_state.more s)) f_close"
  "preserves (\<lambda>s. P (fs_cwd s) (fs_state.more s)) (os_remove p)"
  "preserves (\<lambda>s. P (fs_cwd s) (fs_state.more s)) (os_rename p q)"
  unfolding os_defs query_def change_def by (rule preserves_ext)+

lemma preserves_ext_write [preserves_intros]:
  "preserves (\<lambda>s. P (fs_cwd s) (fs_state.more s)) (replace_file path data)"
  "preserves (\<lambda>s. P (fs_cwd s) (fs_state.more s)) (atomicWrite path data)"
  unfolding atomicWrite_def replace_file_def write_tmp_def by (intro preserves_intros)+

lemma preserves_same:
  assumes "\<And>P :: path \<Rightarrow> 'x \<Rightarrow> bool. preserves (\<lambda>s :: 'x fs_state_scheme. P (fs_cwd s) (fs_state.more s)) m"
  shows "fs_cwd (snd (m s)) = fs_cwd s" "fs_state.more (snd (m s)) = fs_state.more s"
  using assms [of "\<lambda>c x. c = fs_cwd s"] assms [of "\<lambda>c x. x = fs_state.more s"]
  by (simp_all add: preserves_def)

lemmas os_same [frame_simps] = preserves_ext_os [THEN preserves_same(1)]
  preserves_ext_os [THEN preserves_same(2)]
  preserves_ext_write [THEN preserves_same(1)] preserves_ext_write [THEN preserves_same(2)]

lemma os_call_same:
  "atomicWrite p d s = (r, t) \<Longrightarrow> fs_state.more t = fs_state.more s \<and> fs_cwd t = fs_cwd s"
  "os_remove p s = (r, t) \<Longrightarrow> fs_state.more t = fs_state.more s \<and> fs_cwd t = fs_cwd s"
  "os_read_file p s = (r', t) \<Longrightarrow> fs_state.more t = fs_state.more s \<and> fs_cwd t = fs_cwd s"
  "os_stat p s = (r'', t) \<Longrightarrow> fs_state.more t = fs_state.more s \<and> fs_cwd t = fs_cwd s"
  by (drule arg_cong [where f = snd], drule sym, simp add: frame_simps)+

text \<open>
  Faults stand for errors of the disk, not for a file that has gone: in a steady state no call
  reports \<open>ENOENT\<close> for a file that is there.
\<close>

definition steady :: "'x fs_state_scheme \<Rightarrow> bool" where
  "steady s \<longleftrightarrow> (\<forall>k. Fault ENOENT k \<notin> set (fs_faults s))"

lemma preserves_steady_syscall: "preserves steady (syscall part body)"
  by (auto simp: preserves_def steady_def syscall_def
      split: list.splits fault.splits sum.splits prod.splits)

lemma preserves_steady [preserves_intros]:
  "preserves steady (os_stat p)" "preserves steady (os_read_file p)"
  "preserves steady (os_mkdir_all p)" "preserves steady (os_create p)"
  "preserves steady (f_write p b)" "preserves steady f_sync" "preserves steady f_close"
  "preserves steady (os_remove p)" "preserves steady (os_rename p q)"
  unfolding os_defs query_def change_def by (rule preserves_steady_syscall)+

lemma preserves_steady_write [preserves_intros]:
  "preserves steady (replace_file path data)" "preserves steady (atomicWrite path data)"
  unfolding atomicWrite_def replace_file_def write_tmp_def by (intro preserves_intros)+

lemma query_ENOENT: "query f s = (Inl ENOENT, t) \<Longrightarrow> steady s \<Longrightarrow> f (fs_root s) = Inl ENOENT"
  by (auto simp: query_def syscall_def steady_def
      split: list.splits fault.splits sum.splits prod.splits)

lemma os_read_file_ENOENT: "os_read_file p s = (Inl ENOENT, t) \<Longrightarrow> steady s \<Longrightarrow> files s p = None"
  by (auto simp: os_read_file_def file_at_def dest!: query_ENOENT split: sum.splits node.splits)

lemma os_stat_ENOENT: "os_stat p s = (Inl ENOENT, t) \<Longrightarrow> steady s \<Longrightarrow> files s p = None"
  by (auto simp: os_stat_def file_at_def dest!: query_ENOENT)

lemma os_stat_Inr: "os_stat p s = (Inr n, t) \<Longrightarrow> files s p \<noteq> None \<or> dir_at (fs_root s) p"
  by (auto simp: os_stat_def file_at_def dir_at_def dest!: query_Inr split: node.splits)

lemma os_query_root:
  "os_stat p s = (r, t) \<Longrightarrow> fs_root t = fs_root s"
  "os_read_file p s = (r', t) \<Longrightarrow> fs_root t = fs_root s"
  unfolding os_stat_def os_read_file_def by (metis query_root snd_conv)+

lemma os_remove_Inl: "os_remove p s = (Inl e, t) \<Longrightarrow> fs_root t = fs_root s"
  by (auto simp: os_remove_def dest: change_Inl)

subsection \<open>When a write succeeds\<close>

lemma put_at_ok: "dir_at n d \<Longrightarrow> \<exists>n'. put_at (d @ [c]) m n = Inr n'"
proof (induction n d rule: node_at.induct)
  case (1 n)
  then show ?case by (cases n) auto
next
  case (3 es x xs)
  then obtain k where k: "map_of es x = Some k" "dir_at k xs" by (auto split: option.splits)
  with 3 obtain k' where "put_at (xs @ [c]) m k = Inr k'" by auto
  with k show ?case by (cases xs) auto
qed auto

lemma dir_at_put_above: "put_at p m n = Inr n' \<Longrightarrow> strict_prefix q p \<Longrightarrow> dir_at n' q"
proof (induction p m n arbitrary: n' q rule: put_at.induct)
  case (3 c m es)
  then show ?case by (cases q) auto
next
  case (4 c d cs m es)
  then show ?case by (cases q) (auto simp: map_of_ins split: option.splits sum.splits)
qed auto

lemma dir_at_put_other:
  "put_at p (File b) n = Inr n' \<Longrightarrow> p \<parallel> q \<Longrightarrow> dir_at n' q = dir_at n q"
proof (induction p "File b" n arbitrary: n' q rule: put_at.induct)
  case (3 c es)
  then show ?case by (cases q) (auto simp: map_of_ins)
next
  case (4 c d cs es)
  then show ?case by (cases q) (auto simp: map_of_ins split: option.splits sum.splits if_splits)
qed auto

lemma del_at_ok: "file_at n p = Some b \<Longrightarrow> p \<noteq> [] \<Longrightarrow> \<exists>n'. del_at p n = Inr n'"
proof (induction p n rule: del_at.induct)
  case (3 c es)
  then show ?case by (auto split: option.splits)
next
  case (4 c d cs es)
  then show ?case by (fastforce split: option.splits sum.splits)
qed (auto split: if_splits)

lemma mkdirs_ok:
  "(\<And>q. prefix q d \<Longrightarrow> file_at n q = None) \<Longrightarrow>
    \<exists>n'. mkdirs_at d n = Inr n' \<and> dir_at n' d \<and> (\<forall>q. dir_at n' q \<longleftrightarrow> dir_at n q \<or> prefix q d)"
proof (induction d n rule: mkdirs_at.induct)
  case (1 p b)
  from 1 [of "[]"] show ?case by simp
next
  case (2 es)
  then show ?case by (auto simp: prefix_Nil intro: exI [of _ "Dir es"])
next
  case (3 c cs es)
  let ?k = "case map_of es c of None \<Rightarrow> Dir [] | Some n \<Rightarrow> n"
  have "file_at ?k q = None" if "prefix q cs" for q
    using 3(2) [of "c # q"] that by (auto split: option.splits)
  from 3(1) [OF this] obtain k' where k': "mkdirs_at cs ?k = Inr k'" "dir_at k' cs"
    and all: "\<forall>q. dir_at k' q \<longleftrightarrow> dir_at ?k q \<or> prefix q cs" by blast
  have "dir_at (Dir (ins c k' es)) q \<longleftrightarrow> dir_at (Dir es) q \<or> prefix q (c # cs)" for q
    using all by (cases q) (auto simp: map_of_ins split: option.splits dest: spec [of _ "tl q"])
  with k' show ?case by (auto simp: map_of_ins)
qed

text \<open>
  A path can be written when no directory on the way to it is taken by a file and neither it nor
  its temporary name is a directory. Then, with no fault, the write succeeds.
\<close>

definition writable :: "node \<Rightarrow> path \<Rightarrow> bool" where
  "writable n p \<longleftrightarrow>
     p \<noteq> [] \<and> (\<forall>q. strict_prefix q p \<longrightarrow> file_at n q = None) \<and> \<not> dir_at n p \<and> \<not> dir_at n (tmp_of p)"

lemma tmp_of_parallel: "p \<noteq> [] \<Longrightarrow> tmp_of p \<parallel> p"
  by (cases p rule: rev_cases) (auto simp: tmp_of_def parallel_def)

lemma strict_prefix_butlast: "p \<noteq> [] \<Longrightarrow> strict_prefix (butlast p) p"
  by (cases p rule: rev_cases) (auto simp: strict_prefix_def)

lemma put_file_ok:
  assumes "dir_at n (butlast p)" and "p \<noteq> []" and "\<not> dir_at n p"
  shows "\<exists>n'. put_file p b n = Inr n' \<and> dir_at n' (butlast p) \<and>
           (\<forall>q. p \<parallel> q \<longrightarrow> dir_at n' q = dir_at n q) \<and> node_at n' p = Inr (File b)"
proof -
  from put_at_ok [OF assms(1), of "last p" "File b"] assms(2)
  obtain n' where n': "put_at p (File b) n = Inr n'" by auto
  from n' strict_prefix_butlast [OF assms(2)] have "dir_at n' (butlast p)"
    by (rule dir_at_put_above)
  with n' assms(3) show ?thesis
    by (auto simp: put_file_def dir_at_put_other put_at_same)
qed

lemma rename_ok:
  assumes "dir_at n (butlast q)" and "q \<noteq> []" and "\<not> dir_at n q"
    and "node_at n p = Inr (File b)" and "p \<parallel> q"
  shows "\<exists>n'. rename_at p q n = Inr n'"
proof -
  from put_file_ok [OF assms(1-3)] obtain m where m: "put_file q b n = Inr m" by blast
  from assms(5) have "p \<noteq> q" and "p \<noteq> []" by (auto simp: parallel_def)
  with files_put_file [OF m] assms(4) have "file_at m p = Some b" by (simp add: file_at_def)
  with \<open>p \<noteq> []\<close> obtain n' where "del_at p m = Inr n'" using del_at_ok by blast
  with m \<open>p \<noteq> q\<close> assms(4) show ?thesis by (auto simp: rename_at_def)
qed

lemma replace_file_ok:
  assumes "fs_faults s = []" and "dir_at (fs_root s) (butlast p)" and "p \<noteq> []"
    and "\<not> dir_at (fs_root s) p" and "\<not> dir_at (fs_root s) (tmp_of p)"
  shows "\<exists>t. replace_file p data s = (Inr (), t) \<and> fs_faults t = []"
proof -
  let ?q = "tmp_of p"
  have q: "?q \<noteq> []" "butlast ?q = butlast p" by (auto simp: tmp_of_def)
  from put_file_ok [of "fs_root s" ?q "[]"] assms q tmp_of_parallel [of p]
  obtain n1 where n1: "put_file ?q [] (fs_root s) = Inr n1" "dir_at n1 (butlast p)"
    "\<not> dir_at n1 p" "\<not> dir_at n1 ?q" by (auto simp: dir_at_def)
  from put_file_ok [of n1 ?q data] n1 assms(3) q tmp_of_parallel [of p]
  obtain n2 where n2: "put_file ?q data n1 = Inr n2" "dir_at n2 (butlast p)"
    "\<not> dir_at n2 p" "node_at n2 ?q = Inr (File data)" by auto
  from rename_ok [OF n2(2) assms(3) n2(3,4)] tmp_of_parallel [OF assms(3)]
  obtain n3 where n3: "rename_at ?q p n2 = Inr n3" by auto
  from assms(1) n1(1) n2(1) n3 show ?thesis
    by (simp add: replace_file_def write_tmp_def sbind_def attempt_def os_defs change_no_fault)
qed

lemma atomicWrite_ok:
  assumes "fs_faults s = []" and "writable (fs_root s) p"
  shows "\<exists>t. atomicWrite p data s = (Inr (), t) \<and> fs_faults t = []"
proof -
  from assms(2) have p: "p \<noteq> []" by (simp add: writable_def)
  have "file_at (fs_root s) q = None" if "prefix q (butlast p)" for q
    using assms(2) that strict_prefix_butlast [OF p]
    by (auto simp: writable_def dest: prefix_order.le_less_trans)
  from mkdirs_ok [OF this] obtain n where n: "mkdirs_at (butlast p) (fs_root s) = Inr n"
    "dir_at n (butlast p)" and d: "\<forall>q. dir_at n q \<longleftrightarrow> dir_at (fs_root s) q \<or> prefix q (butlast p)"
    by blast
  have short: "\<not> prefix p (butlast p)" "\<not> prefix (tmp_of p) (butlast p)"
    using p by (auto simp: tmp_of_def dest!: prefix_length_le) (cases p; simp)
  let ?s = "s\<lparr>fs_root := n\<rparr>"
  have "os_mkdir_all (butlast p) s = (Inr (), ?s)"
    using assms(1) n(1) by (simp add: os_mkdir_all_def change_no_fault)
  moreover have "\<exists>t. replace_file p data ?s = (Inr (), t) \<and> fs_faults t = []"
    using assms n(2) d short p by (intro replace_file_ok) (auto simp: writable_def)
  ultimately show ?thesis by (auto simp: atomicWrite_def)
qed

subsection \<open>Directories\<close>

text \<open>Writing, renaming and removing files leaves the directories as they are.\<close>

lemma dirs_put:
  "put_at p (File b) n = Inr n' \<Longrightarrow> \<not> dir_at n p \<Longrightarrow> dir_at n' q = dir_at n q"
proof (induction p "File b" n arbitrary: n' q rule: put_at.induct)
  case (3 c es)
  then show ?case
    by (cases q; cases "map_of es c"; cases "the (map_of es c)")
      (auto simp: map_of_ins split: if_splits option.splits)
next
  case (4 c d cs es)
  then obtain k k' where k: "map_of es c = Some k" "put_at (d # cs) (File b) k = Inr k'"
    and n': "n' = Dir (ins c k' es)" by (auto split: option.splits sum.splits)
  show ?case
  proof (cases q)
    case (Cons x xs)
    with 4 k n' show ?thesis by (cases "x = c") (auto simp: map_of_ins)
  qed (simp add: n')
qed auto

lemma dirs_del:
  "del_at p n = Inr n' \<Longrightarrow> \<not> dir_at n p \<Longrightarrow> dir_at n' q = dir_at n q"
proof (induction p n arbitrary: n' q rule: del_at.induct)
  case (3 c es)
  then show ?case
    by (cases q; cases "the (map_of es c)") (auto simp: map_of_del neq_Nil_conv split: if_splits)
next
  case (4 c d cs es)
  then obtain k k' where k: "map_of es c = Some k" "del_at (d # cs) k = Inr k'"
    and n': "n' = Dir (ins c k' es)" by (auto split: option.splits sum.splits)
  show ?case
  proof (cases q)
    case (Cons x xs)
    with 4 k n' show ?thesis by (cases "x = c") (auto simp: map_of_ins)
  qed (simp add: n')
qed auto

lemma node_at_missing:
  "dir_at n (butlast p) \<Longrightarrow> p \<noteq> [] \<Longrightarrow> file_at n p = None \<Longrightarrow> \<not> dir_at n p \<Longrightarrow> node_at n p = Inl ENOENT"
proof (induction p rule: rev_induct)
  case (snoc c d)
  then obtain es where "node_at n d = Inr (Dir es)" by (auto simp: dir_at_def split: sum.splits node.splits)
  with snoc show ?case
    by (auto simp: node_at_append file_at_def dir_at_def split: option.splits node.splits)
qed simp

lemma del_at_parent: "del_at p n = Inr n' \<Longrightarrow> dir_at n (butlast p)"
  by (induction p n arbitrary: n' rule: del_at.induct) (auto split: option.splits sum.splits if_splits)

lemma dirs_remove:
  assumes "remove_at p n = Inr n'" and "file_at n p = Some b"
  shows "dir_at n' q = dir_at n q" "dir_at n (butlast p)"
proof -
  from assms have d: "del_at p n = Inr n'" and "\<not> dir_at n p"
    by (auto simp: remove_at_def file_at_def dir_at_def split: sum.splits node.splits)
  then show "dir_at n' q = dir_at n q" "dir_at n (butlast p)"
    by (simp_all add: dirs_del del_at_parent)
qed

lemma dirs_rename:
  assumes "rename_at p q n = Inr n'"
  shows "dir_at n' x = dir_at n x"
proof (cases "p = q")
  case False
  with assms obtain b m where b: "node_at n p = Inr (File b)" and m: "put_file q b n = Inr m"
    and n': "del_at p m = Inr n'"
    by (auto simp: rename_at_def split: sum.splits node.splits)
  from m have "put_at q (File b) n = Inr m" "\<not> dir_at n q" by (auto simp: put_file_def split: if_splits)
  then have "dir_at m y = dir_at n y" for y by (rule dirs_put)
  with dirs_del [OF n'] b show ?thesis by (simp add: dir_at_def)
qed (use assms in \<open>auto simp: rename_at_def split: sum.splits node.splits\<close>)

definition same_dirs :: "(path \<Rightarrow> bool) \<Rightarrow> 'x fs_state_scheme \<Rightarrow> bool" where
  "same_dirs D s \<longleftrightarrow> dir_at (fs_root s) = D"

lemma dirs_put_file: "put_file p b n = Inr n' \<Longrightarrow> dir_at n' q = dir_at n q"
  by (auto simp: put_file_def dirs_put split: if_splits)

lemma preserves_dirs [preserves_intros]:
  "preserves (same_dirs D) (os_create p)" "preserves (same_dirs D) (f_write p b)"
  "preserves (same_dirs D) f_sync" "preserves (same_dirs D) f_close"
  "preserves (same_dirs D) (os_rename p q)"
  unfolding os_defs same_dirs_def
  by (rule preserves_change; auto simp: fun_eq_iff dirs_put_file dirs_rename split: sum.splits)+

lemma replace_file_dirs:
  assumes "replace_file path data s = (Inr u, t)"
  shows "dir_at (fs_root t) = dir_at (fs_root s)"
proof -
  let ?P = "same_dirs (dir_at (fs_root s))"
  from assms obtain s1 s2 s3 v where
    1: "os_create (tmp_of path) s = (Inr (), s1)" and 2: "f_write (tmp_of path) data s1 = (Inr (), s2)"
    and 3: "f_sync s2 = (Inr (), s3)" and 4: "f_close s3 = (Inr (), v)"
    and 5: "os_rename (tmp_of path) path v = (Inr u, t)"
    by (auto simp: replace_file_def write_tmp_def sbind_Inr_iff split: sum.split_asm)
  have "?P s" by (simp add: same_dirs_def)
  from preservesD [OF preserves_dirs(1) this 1] have "?P s1" .
  from preservesD [OF preserves_dirs(2) this 2] have "?P s2" .
  from preservesD [OF preserves_dirs(3) this 3] have "?P s3" .
  from preservesD [OF preserves_dirs(4) this 4] have "?P v" .
  from preservesD [OF preserves_dirs(5) this 5] show ?thesis by (simp add: same_dirs_def)
qed

lemma os_remove_dirs:
  "os_remove p s = (Inr u, t) \<Longrightarrow> files s p = Some b \<Longrightarrow>
    dir_at (fs_root t) = dir_at (fs_root s) \<and> dir_at (fs_root s) (butlast p)"
proof -
  assume "os_remove p s = (Inr u, t)" and f: "files s p = Some b"
  then have r: "remove_at p (fs_root s) = Inr (fs_root t)" unfolding os_remove_def by (simp add: change_Inr)
  from dirs_remove [OF r f] show ?thesis by (simp add: fun_eq_iff)
qed

end
