(* ===== verification/Counter.thy ===== *)
theory Counter
  imports Filesystem
begin

text \<open>
  The resourceVersion counter of \<open>internal/fsstorage/counter.go\<close>: its in-memory value, the file
  \<open>root/.rv\<close> it is persisted to, and the operations \<open>NewCounter\<close>, \<open>load\<close>, \<open>persist\<close>, \<open>Next\<close> and
  \<open>Current\<close>. The counter's mutex makes each of them one step. The lemmas show that every issued
  value is on disk before it is handed out, that a failed \<open>Next\<close> leaves the counter and the file
  as they were, and that a restart continues from the last issued value.
\<close>

section \<open>State and operations\<close>

record cstate = fs_state +
  c_rv :: u64

datatype counter_error = CounterOs os_error | CounterParse num_error

definition counter_file :: "string \<Rightarrow> path \<Rightarrow> path" where
  "counter_file root cwd = join_path cwd [root, ''.rv'']"

text \<open>The value a persisted file stands for: what \<open>load\<close> computes from the bytes it read.\<close>

definition rv_of_bytes :: "bytes \<Rightarrow> counter_error + u64" where
  "rv_of_bytes b =
     (let str = trim_space b
      in if str = [] then Inr 1
         else case parse_uint str of
           Inl e \<Rightarrow> Inl (CounterParse e)
         | Inr v \<Rightarrow> Inr (if v < 1 then 1 else v))"

definition counter_load :: "string \<Rightarrow> ('x cstate_scheme, counter_error, u64) sem" where
  "counter_load root =
     sbind (gets (\<lambda>s. counter_file root (fs_cwd s))) (\<lambda>f.
     sbind (attempt (os_read_file f)) (\<lambda>r. case r of
         Inl e \<Rightarrow> if e = ENOENT then ret 1 else throw (CounterOs e)
       | Inr b \<Rightarrow> of_sum (rv_of_bytes b)))"

definition NewCounter :: "string \<Rightarrow> ('x cstate_scheme, counter_error, unit) sem" where
  "NewCounter root =
     sbind (counter_load root) (\<lambda>rv. modify (\<lambda>s. s\<lparr>c_rv := rv\<rparr>))"

definition persist :: "string \<Rightarrow> u64 \<Rightarrow> ('x cstate_scheme, os_error, unit) sem" where
  "persist root rv =
     sbind (gets (\<lambda>s. counter_file root (fs_cwd s))) (\<lambda>f. replace_file f (format_uint rv))"

definition counter_Next :: "string \<Rightarrow> ('x cstate_scheme, os_error, u64) sem" where
  "counter_Next root =
     sbind (modify (\<lambda>s. s\<lparr>c_rv := c_rv s + 1\<rparr>)) (\<lambda>_.
     sbind (gets c_rv) (\<lambda>rv.
     sbind (attempt (persist root rv)) (\<lambda>r. case r of
         Inl e \<Rightarrow> sbind (modify (\<lambda>s. s\<lparr>c_rv := c_rv s - 1\<rparr>)) (\<lambda>_. throw e)
       | Inr _ \<Rightarrow> gets c_rv)))"

definition counter_Current :: "'x cstate_scheme \<Rightarrow> u64" where
  "counter_Current s = c_rv s"

section \<open>Lemmas\<close>

text \<open>The value a restart would load from the files of a state.\<close>

definition stored_rv :: "string \<Rightarrow> 'x cstate_scheme \<Rightarrow> counter_error + u64" where
  "stored_rv root s =
     (case files s (counter_file root (fs_cwd s)) of None \<Rightarrow> Inr 1 | Some b \<Rightarrow> rv_of_bytes b)"

lemma rv_of_format [simp]: "rv_of_bytes (format_uint v) = Inr (if v < 1 then 1 else v)"
  by (simp add: rv_of_bytes_def)

text \<open>A file-system call that leaves the rest of the state alone leaves the counter alone.\<close>

lemma c_rv_more:
  "fs_state.more (t :: 'x cstate_scheme) = fs_state.more s \<Longrightarrow> c_rv t = c_rv s"
  by (cases s; cases t) simp

lemma persist_same [frame_simps]:
  "fs_cwd (snd (persist root v s)) = fs_cwd s"
  "c_rv (snd (persist root v s)) = c_rv s"
  "cstate.more (snd (persist root v s)) = cstate.more s"
proof -
  let ?f = "counter_file root (fs_cwd s)"
  have e: "snd (persist root v s) = snd (replace_file ?f (format_uint v) s)"
    by (simp add: persist_def sbind_def)
  then show "fs_cwd (snd (persist root v s)) = fs_cwd s" by (simp add: frame_simps)
  have m: "fs_state.more (snd (persist root v s)) = fs_state.more s" by (simp add: e frame_simps)
  then show "c_rv (snd (persist root v s)) = c_rv s" by (rule c_rv_more)
  from m show "cstate.more (snd (persist root v s)) = cstate.more s"
    by (cases s; cases "snd (persist root v s)") simp
qed

lemma persist_Inr:
  "persist root v s = (Inr u, t) \<Longrightarrow>
    files t = (files s)(counter_file root (fs_cwd s) \<mapsto> format_uint v,
                        tmp_of (counter_file root (fs_cwd s)) := None)"
  by (auto simp: persist_def dest!: replace_file_Inr)

lemma persist_Inl:
  "persist root v s = (Inl e, t) \<Longrightarrow> q \<noteq> tmp_of (counter_file root (fs_cwd s)) \<Longrightarrow>
    files t q = files s q"
  by (auto simp: persist_def dest!: replace_file_Inl)

text \<open>The two outcomes of \<open>Next\<close>.\<close>

lemma counter_Next_Inr:
  assumes "counter_Next root s = (Inr v, t)"
  shows "v = c_rv s + 1" "c_rv t = v" "fs_cwd t = fs_cwd s" "cstate.more t = cstate.more s"
    "files t = (files s)(counter_file root (fs_cwd s) \<mapsto> format_uint v,
                        tmp_of (counter_file root (fs_cwd s)) := None)"
proof -
  let ?s = "s\<lparr>c_rv := c_rv s + 1\<rparr>"
  from assms have p: "persist root (c_rv s + 1) ?s = (Inr (), t)" and v: "v = c_rv t"
    by (auto simp: counter_Next_def sbind_Inr_iff split: sum.split_asm)
  from persist_same [of root "c_rv s + 1" ?s] p
  have same: "fs_cwd t = fs_cwd s" "c_rv t = c_rv s + 1" "cstate.more t = cstate.more s" by simp_all
  with v show "v = c_rv s + 1" "c_rv t = v" "fs_cwd t = fs_cwd s" "cstate.more t = cstate.more s"
    by simp_all
  with persist_Inr [OF p] show "files t = (files s)(counter_file root (fs_cwd s) \<mapsto> format_uint v,
      tmp_of (counter_file root (fs_cwd s)) := None)" by simp
qed

lemma counter_Next_Inl:
  assumes "counter_Next root s = (Inl e, t)"
  shows "c_rv t = c_rv s" "fs_cwd t = fs_cwd s" "cstate.more t = cstate.more s"
    "q \<noteq> tmp_of (counter_file root (fs_cwd s)) \<Longrightarrow> files t q = files s q"
proof -
  let ?s = "s\<lparr>c_rv := c_rv s + 1\<rparr>"
  from assms obtain u where p: "persist root (c_rv s + 1) ?s = (Inl e, u)"
    and t: "t = u\<lparr>c_rv := c_rv u - 1\<rparr>"
    by (auto simp: counter_Next_def sbind_Inl_iff split: sum.split_asm)
  from persist_same [of root "c_rv s + 1" ?s] p
  have "fs_cwd u = fs_cwd s" "c_rv u = c_rv s + 1" "cstate.more u = cstate.more s" by simp_all
  with t show "c_rv t = c_rv s" "fs_cwd t = fs_cwd s" "cstate.more t = cstate.more s" by simp_all
  show "files t q = files s q" if "q \<noteq> tmp_of (counter_file root (fs_cwd s))"
    using persist_Inl [OF p] that t by simp
qed

lemma preserves_wf_Next [preserves_intros]:
  "preserves (\<lambda>s. wf_node (fs_root s)) (counter_Next root)"
  unfolding counter_Next_def persist_def
  by (intro preserves_intros) (simp_all add: preserves_def)

lemma preserves_steady_Next [preserves_intros]: "preserves steady (counter_Next root)"
  unfolding counter_Next_def persist_def
  by (intro preserves_intros) (simp_all add: preserves_def steady_def)

text \<open>
  The file always holds what a restart must see: if it agrees with the counter before a call of
  \<open>Next\<close>, it agrees afterwards, on success and on failure, as long as the counter does not wrap.
\<close>

definition counter_synced :: "string \<Rightarrow> 'x cstate_scheme \<Rightarrow> bool" where
  "counter_synced root s \<longleftrightarrow> stored_rv root s = Inr (c_rv s)"

lemma counter_Next_synced:
  assumes "counter_synced root s" and "c_rv s + 1 \<noteq> 0" and "counter_Next root s = (r, t)"
  shows "counter_synced root t"
proof (cases r)
  case (Inl e)
  with assms(3) have n: "counter_Next root s = (Inl e, t)" by simp
  from counter_Next_Inl [OF n] assms(1) show ?thesis
    by (simp add: counter_synced_def stored_rv_def)
next
  case (Inr v)
  with assms(3) have n: "counter_Next root s = (Inr v, t)" by simp
  from counter_Next_Inr(1) [OF n] assms(2) have "\<not> v < 1" by (simp add: word_less_1)
  with counter_Next_Inr [OF n] show ?thesis
    by (simp add: counter_synced_def stored_rv_def)
qed

text \<open>A start of the process: \<open>NewCounter\<close> on the files as they are, whatever the memory held.\<close>

lemma os_read_file_no_fault:
  "fs_faults s = [] \<Longrightarrow> files s p = Some b \<Longrightarrow> os_read_file p s = (Inr b, s)"
  by (auto simp: os_read_file_def query_no_fault file_at_def split: sum.splits node.splits)

lemma NewCounter_file:
  "fs_faults s = [] \<Longrightarrow> files s (counter_file root (fs_cwd s)) = Some b \<Longrightarrow>
    NewCounter root s =
      (case rv_of_bytes b of Inl e \<Rightarrow> (Inl e, s) | Inr v \<Rightarrow> (Inr (), s\<lparr>c_rv := v\<rparr>))"
  by (simp add: NewCounter_def counter_load_def sbind_def attempt_def os_read_file_no_fault
      split: sum.splits)

section \<open>The interface the stores rely on\<close>

text \<open>
  What a user of the counter may assume: a successful call returns the next value, and a failed
  one changes nothing it can see. In a sequence of calls that does not wrap around, the values
  handed out increase strictly, whatever calls fail in between.
\<close>

locale rv_source =
  fixes issue :: "('s, 'e, u64) sem" and current :: "'s \<Rightarrow> u64"
  assumes issue_ok: "issue s = (Inr v, t) \<Longrightarrow> v = current s + 1 \<and> current t = v"
    and issue_fail: "issue s = (Inl e, t) \<Longrightarrow> current t = current s"
begin

lemma issue_unat:
  "issue s = (Inr v, t) \<Longrightarrow> unat (current s) + 1 < 2 ^ 64 \<Longrightarrow>
    unat v = unat (current s) + 1 \<and> unat (current t) = unat v"
  using issue_ok [of s v t] by (simp add: unat_word_ariths)

lemma issued_sorted:
  "unat (current s) + n < 2 ^ 64 \<Longrightarrow> run_seq (replicate n issue) s = (vs, t) \<Longrightarrow>
    sorted_wrt (<) (current s # vs) \<and> unat (current t) = unat (current s) + length vs"
proof (induction n arbitrary: s vs)
  case (Suc n)
  show ?case
  proof (cases "issue s")
    case (Pair r u)
    show ?thesis
    proof (cases r)
      case (Inl e)
      with Pair Suc.prems Suc.IH [of u vs] issue_fail [of s e u] show ?thesis by simp
    next
      case (Inr v)
      with Pair Suc.prems issue_unat [of s v u] have u: "unat v = unat (current s) + 1" "current u = v"
        using issue_ok [of s v u] by auto
      obtain ws where ws: "run_seq (replicate n issue) u = (ws, t)" "vs = v # ws"
        using Suc.prems(2) Pair Inr by (auto split: prod.splits)
      from Suc.IH [of u ws] Suc.prems(1) u ws
      have "sorted_wrt (<) (v # ws)" "unat (current t) = unat (current s) + length vs" by auto
      moreover have "current s < v" using u(1) by (simp add: word_less_nat_alt)
      ultimately show ?thesis using ws(2) by auto
    qed
  qed
qed simp

end

interpretation rvc: rv_source "counter_Next root" c_rv
proof
  fix s v t assume "counter_Next root s = (Inr v, t)"
  then show "v = c_rv s + 1 \<and> c_rv t = v" by (simp add: counter_Next_Inr)
next
  fix s e t assume "counter_Next root s = (Inl e, t)"
  then show "c_rv t = c_rv s" by (rule counter_Next_Inl)
qed

end
