(* ===== verification/Broadcast.thy ===== *)
theory Broadcast
  imports Prelude
begin

text \<open>
  \<open>internal/fsstorage/watch.go\<close>: the broadcaster with its ring of recent events and its
  subscribed watchers, and the watchers with their bounded channels. The object type is a
  parameter. Watchers are heap objects: they are kept in a map from addresses, and the
  broadcaster's set of subscribers is the list of their addresses in some order of iteration
  (Go's is unspecified; nothing is assumed about it).

  A blocked goroutine and a panic are results here: \<open>Deadlock\<close> is a \<open>Lock\<close> of a mutex the
  goroutine already holds, \<open>SendOnClosed\<close> the panic of a send on a closed channel. Where several
  cases of a \<open>select\<close> are ready, Go picks one at random; the picks are the list \<open>b_choice\<close>.
\<close>

section \<open>Data\<close>

datatype etype = Added | Modified | Deleted | Bookmark | ErrorEvent

record 'o event =
  ev_rv :: u64
  ev_type :: etype
  ev_obj :: 'o

record status =
  st_status :: string
  st_message :: string
  st_reason :: string

datatype api_error = StatusError status | PlainError string

datatype 'o wevent = WEvent etype 'o | WError status

record 'o watcher =
  w_predicate :: "'o \<Rightarrow> string + bool"
  w_matchesKey :: "'o \<Rightarrow> bool"
  w_ch :: "'o wevent list"
  w_buf :: nat
  w_stopped :: bool
  w_closed :: bool
  w_onStop :: bool

record 'o broadcaster =
  b_capacity :: nat
  b_ring :: "'o event list"
  b_subs :: "nat list"
  b_watchers :: "nat \<Rightarrow> 'o watcher option"
  b_next :: nat
  b_choice :: "bool list"

datatype abnormal = Deadlock | SendOnClosed

section \<open>Operations\<close>

definition newBroadcaster :: "nat \<Rightarrow> 'o broadcaster" where
  "newBroadcaster capacity =
     \<lparr>b_capacity = capacity, b_ring = [], b_subs = [], b_watchers = Map.empty, b_next = 0, b_choice = []\<rparr>"

definition upd_watcher :: "nat \<Rightarrow> ('o watcher \<Rightarrow> 'o watcher) \<Rightarrow> 'o broadcaster \<Rightarrow> 'o broadcaster" where
  "upd_watcher i f b = b\<lparr>b_watchers := (b_watchers b)(i := map_option f (b_watchers b i))\<rparr>"

text \<open>
  \<open>Stop\<close>. \<open>held\<close> says whether the calling goroutine holds the broadcaster's mutex: the \<open>onStop\<close>
  callback that \<open>subscribeLocked\<close> installs locks that mutex.
\<close>

definition Stop :: "bool \<Rightarrow> nat \<Rightarrow> ('o broadcaster, abnormal, unit) sem" where
  "Stop held i b =
     (case b_watchers b i of
        None \<Rightarrow> (Inr (), b)
      | Some w \<Rightarrow>
          if w_stopped w then (Inr (), b)
          else
            let b1 = upd_watcher i (\<lambda>w. w\<lparr>w_stopped := True\<rparr>) b;
                close_ch = upd_watcher i (\<lambda>w. w\<lparr>w_closed := True\<rparr>)
            in if \<not> w_onStop w then (Inr (), close_ch b1)
               else if held then (Inl Deadlock, b1)
               else (Inr (), close_ch (b1\<lparr>b_subs := removeAll i (b_subs b1)\<rparr>)))"

definition send :: "nat \<Rightarrow> 'o wevent \<Rightarrow> ('o broadcaster, abnormal, unit) sem" where
  "send i ev b =
     (case b_watchers b i of
        None \<Rightarrow> (Inr (), b)
      | Some w \<Rightarrow>
          if w_closed w then (Inl SendOnClosed, b)
          else (Inr (), upd_watcher i (\<lambda>w. w\<lparr>w_ch := w_ch w @ [ev]\<rparr>) b))"

text \<open>
  \<open>deliver\<close>: the receive from \<open>stopCh\<close> is ready once it is closed, the send is ready when the
  channel has room and also when it is closed.
\<close>

definition deliver :: "bool \<Rightarrow> nat \<Rightarrow> 'o wevent \<Rightarrow> ('o broadcaster, abnormal, unit) sem" where
  "deliver held i ev b =
     (case b_watchers b i of
        None \<Rightarrow> (Inr (), b)
      | Some w \<Rightarrow>
          let can_send = (w_closed w \<or> length (w_ch w) < w_buf w)
          in if w_stopped w \<and> can_send then
               (case b_choice b of
                  True # cs \<Rightarrow> send i ev (b\<lparr>b_choice := cs\<rparr>)
                | cs \<Rightarrow> (Inr (), b\<lparr>b_choice := tl cs\<rparr>))
             else if w_stopped w then (Inr (), b)
             else if can_send then send i ev b
             else Stop held i b)"

fun publish_loop :: "nat list \<Rightarrow> 'o event \<Rightarrow> ('o broadcaster, abnormal, unit) sem" where
  "publish_loop [] ev b = (Inr (), b)"
| "publish_loop (i # is) ev b =
     (case b_watchers b i of
        None \<Rightarrow> publish_loop is ev b
      | Some w \<Rightarrow>
          if \<not> w_matchesKey w (ev_obj ev) then publish_loop is ev b
          else (case w_predicate w (ev_obj ev) of
                  Inl e \<Rightarrow> publish_loop is ev b
                | Inr ok \<Rightarrow>
                    if \<not> ok then publish_loop is ev b
                    else (case deliver True i (WEvent (ev_type ev) (ev_obj ev)) b of
                            (Inl a, b') \<Rightarrow> (Inl a, b')
                          | (Inr _, b') \<Rightarrow> publish_loop is ev b')))"

definition push_ring :: "nat \<Rightarrow> 'o event \<Rightarrow> 'o event list \<Rightarrow> 'o event list" where
  "push_ring capacity ev ring =
     (let r = ring @ [ev]
      in if capacity < length r then drop (length r - capacity) r else r)"

definition publish :: "'o event \<Rightarrow> ('o broadcaster, abnormal, unit) sem" where
  "publish ev b =
     (let b1 = b\<lparr>b_ring := push_ring (b_capacity b) ev (b_ring b)\<rparr>
      in publish_loop (b_subs b1) ev b1)"

text \<open>\<open>None\<close> is the result \<open>nil, false\<close>: the start lies before the window.\<close>

definition replayLocked :: "u64 \<Rightarrow> 'o broadcaster \<Rightarrow> 'o event list option" where
  "replayLocked startRV b =
     (case b_ring b of
        [] \<Rightarrow> Some []
      | old # _ \<Rightarrow>
          if startRV + 1 < ev_rv old then None
          else Some (filter (\<lambda>ev. startRV < ev_rv ev) (b_ring b)))"

definition subscribeLocked :: "nat \<Rightarrow> 'o broadcaster \<Rightarrow> 'o broadcaster" where
  "subscribeLocked i b =
     upd_watcher i (\<lambda>w. w\<lparr>w_onStop := True\<rparr>)
       (b\<lparr>b_subs := (if i \<in> set (b_subs b) then b_subs b else b_subs b @ [i])\<rparr>)"

text \<open>The goroutine \<open>newWatcher\<close> starts only calls \<open>Stop\<close> when the request's context ends.\<close>

definition newWatcher ::
  "('o \<Rightarrow> string + bool) \<Rightarrow> ('o \<Rightarrow> bool) \<Rightarrow> nat \<Rightarrow> 'o broadcaster \<Rightarrow> nat \<times> 'o broadcaster" where
  "newWatcher p mk buf b =
     (b_next b,
      b\<lparr>b_watchers := (b_watchers b)(b_next b \<mapsto>
            \<lparr>w_predicate = p, w_matchesKey = mk, w_ch = [], w_buf = buf,
             w_stopped = False, w_closed = False, w_onStop = False\<rparr>),
         b_next := Suc (b_next b)\<rparr>)"

definition errorStatus :: "api_error \<Rightarrow> status" where
  "errorStatus err =
     (case err of
        StatusError s \<Rightarrow> s
      | PlainError msg \<Rightarrow>
          \<lparr>st_status = ''Failure'', st_message = msg, st_reason = ''InternalError''\<rparr>)"

text \<open>\<open>stopWithError\<close> drops the error event when the channel has no room.\<close>

definition stopWithError :: "bool \<Rightarrow> nat \<Rightarrow> api_error \<Rightarrow> ('o broadcaster, abnormal, unit) sem" where
  "stopWithError held i err b =
     (case b_watchers b i of
        None \<Rightarrow> (Inr (), b)
      | Some w \<Rightarrow>
          (if w_closed w \<or> length (w_ch w) < w_buf w
           then sbind (send i (WError (errorStatus err))) (\<lambda>_. Stop held i) b
           else Stop held i b))"

section \<open>The ring\<close>

lemma push_ring_eq: "push_ring c ev ring = drop (length ring + 1 - c) (ring @ [ev])"
  by (auto simp: push_ring_def Let_def)

lemma length_push_ring: "length (push_ring c ev ring) \<le> c"
  by (simp add: push_ring_eq)

text \<open>The ring is the last \<open>capacity\<close> events of everything published so far.\<close>

definition last_events :: "nat \<Rightarrow> 'a list \<Rightarrow> 'a list" where
  "last_events c h = drop (length h - c) h"

lemma push_ring_last_events: "push_ring c ev (last_events c h) = last_events c (h @ [ev])"
proof (cases "c \<le> length h")
  case True
  then have "length (last_events c h) = c" by (simp add: last_events_def)
  with True show ?thesis
    by (cases c) (auto simp: push_ring_eq last_events_def Suc_diff_Suc)
next
  case False
  then show ?thesis by (simp add: push_ring_eq last_events_def)
qed

lemma upd_watcher_frame [simp]:
  "b_ring (upd_watcher i f b) = b_ring b" "b_capacity (upd_watcher i f b) = b_capacity b"
  "b_subs (upd_watcher i f b) = b_subs b" "b_next (upd_watcher i f b) = b_next b"
  "b_choice (upd_watcher i f b) = b_choice b"
  "b_watchers (upd_watcher i f b) = (b_watchers b)(i := map_option f (b_watchers b i))"
  by (simp_all add: upd_watcher_def)

lemma send_frame [frame_simps]:
  "b_ring (snd (send i ev b)) = b_ring b" "b_capacity (snd (send i ev b)) = b_capacity b"
  "b_subs (snd (send i ev b)) = b_subs b" "b_next (snd (send i ev b)) = b_next b"
  by (auto simp: send_def split: option.splits)

lemma Stop_frame [frame_simps]:
  "b_ring (snd (Stop held i b)) = b_ring b" "b_capacity (snd (Stop held i b)) = b_capacity b"
  "b_next (snd (Stop held i b)) = b_next b"
  by (auto simp: Stop_def Let_def split: option.splits)

lemma deliver_frame [frame_simps]:
  "b_ring (snd (deliver held i ev b)) = b_ring b"
  "b_capacity (snd (deliver held i ev b)) = b_capacity b"
  "b_next (snd (deliver held i ev b)) = b_next b"
  by (auto simp: deliver_def Let_def frame_simps split: option.splits list.splits bool.splits)

lemma publish_loop_frame [frame_simps]:
  "b_ring (snd (publish_loop is ev b)) = b_ring b"
  "b_capacity (snd (publish_loop is ev b)) = b_capacity b"
  "b_next (snd (publish_loop is ev b)) = b_next b"
proof (induction "is" ev b rule: publish_loop.induct)
  case (2 i "is" ev b)
  let ?d = "deliver True i (WEvent (ev_type ev) (ev_obj ev)) b"
  obtain r b' where d: "?d = (r, b')" by (cases ?d)
  have f: "b_ring b' = b_ring b" "b_capacity b' = b_capacity b" "b_next b' = b_next b"
    using deliver_frame [of True i "WEvent (ev_type ev) (ev_obj ev)" b] d by simp_all
  { case 1 from 2 d f show ?case by (auto split: option.splits sum.splits) }
  { case 2 from "2.IH" d f show ?case by (auto split: option.splits sum.splits) }
  { case 3 from "2.IH" d f show ?case by (auto split: option.splits sum.splits) }
qed simp_all

lemma publish_ring:
  "b_ring (snd (publish ev b)) = push_ring (b_capacity b) ev (b_ring b)"
  "b_capacity (snd (publish ev b)) = b_capacity b"
  by (simp_all add: publish_def Let_def frame_simps)

text \<open>
  A replay that is not refused returns exactly the events after the start, out of everything that
  was ever published, in order: no event has fallen out of the window.
\<close>

abbreviation rv_sorted :: "'o event list \<Rightarrow> bool" where
  "rv_sorted \<equiv> sorted_wrt (\<lambda>x y. ev_rv x < ev_rv y)"

lemma replay_complete:
  assumes "rv_sorted h" and "b_ring b = last_events c h" and "0 < c"
    and "replayLocked v b = Some es"
  shows "es = filter (\<lambda>e. v < ev_rv e) h"
proof (cases "b_ring b")
  case Nil
  with assms(2,3) have "h = []" by (cases h) (auto simp: last_events_def)
  with Nil assms(4) show ?thesis by (simp add: replayLocked_def)
next
  case (Cons old rest)
  let ?k = "length h - c"
  have h: "h = take ?k h @ b_ring b" using assms(2) by (simp add: last_events_def)
  from Cons assms(4) have es: "es = filter (\<lambda>e. v < ev_rv e) (b_ring b)" and le: "\<not> v + 1 < ev_rv old"
    by (auto simp: replayLocked_def split: if_splits)
  have "\<not> v < ev_rv x" if "x \<in> set (take ?k h)" for x
  proof -
    have "ev_rv x < ev_rv old"
      using assms(1) that Cons by (subst (asm) h) (auto simp: sorted_wrt_append)
    show ?thesis
    proof
      assume "v < ev_rv x"
      then have "v + 1 \<le> ev_rv x" by (rule inc_le)
      with \<open>ev_rv x < ev_rv old\<close> have "v + 1 < ev_rv old" by simp
      with le show False ..
    qed
  qed
  then have "filter (\<lambda>e. v < ev_rv e) (take ?k h) = []" by (simp add: filter_empty_conv)
  then show ?thesis by (subst h) (simp add: es)
qed

section \<open>Delivery\<close>

definition accepts :: "'o watcher \<Rightarrow> 'o \<Rightarrow> bool" where
  "accepts w obj \<longleftrightarrow> w_matchesKey w obj \<and> w_predicate w obj = Inr True"

definition live :: "'o watcher \<Rightarrow> bool" where
  "live w \<longleftrightarrow> \<not> w_stopped w \<and> \<not> w_closed w"

definition has_room :: "'o watcher \<Rightarrow> bool" where
  "has_room w \<longleftrightarrow> length (w_ch w) < w_buf w"

lemma deliver_live:
  "b_watchers b i = Some w \<Longrightarrow> live w \<Longrightarrow> has_room w \<Longrightarrow>
    deliver held i ev b = (Inr (), upd_watcher i (\<lambda>w. w\<lparr>w_ch := w_ch w @ [ev]\<rparr>) b)"
  by (simp add: deliver_def send_def live_def has_room_def Let_def)

lemma publish_loop_step:
  assumes "b_watchers b i = Some w"
  shows "publish_loop (i # is) ev b =
    (if accepts w (ev_obj ev)
     then (case deliver True i (WEvent (ev_type ev) (ev_obj ev)) b of
             (Inl a, b') \<Rightarrow> (Inl a, b') | (Inr _, b') \<Rightarrow> publish_loop is ev b')
     else publish_loop is ev b)"
  using assms by (auto simp: accepts_def split: sum.splits)

text \<open>
  Publishing to watchers that are running and have room delivers the event to exactly those that
  accept it, once each, and changes nothing else.
\<close>

definition offer :: "'o event \<Rightarrow> 'o watcher \<Rightarrow> 'o watcher" where
  "offer ev w =
     (if accepts w (ev_obj ev)
      then w\<lparr>w_ch := w_ch w @ [WEvent (ev_type ev) (ev_obj ev)]\<rparr> else w)"

definition ready_for :: "'o event \<Rightarrow> 'o broadcaster \<Rightarrow> nat \<Rightarrow> bool" where
  "ready_for ev b i \<longleftrightarrow>
     (\<exists>w. b_watchers b i = Some w \<and> (accepts w (ev_obj ev) \<longrightarrow> live w \<and> has_room w))"

lemma publish_loop_ready:
  "distinct is \<Longrightarrow> \<forall>i \<in> set is. ready_for ev b i \<Longrightarrow>
    publish_loop is ev b =
      (Inr (), b\<lparr>b_watchers := (\<lambda>i. if i \<in> set is then map_option (offer ev) (b_watchers b i)
                                   else b_watchers b i)\<rparr>)"
proof (induction "is" arbitrary: b)
  case (Cons i "is")
  from Cons.prems obtain w where w: "b_watchers b i = Some w"
    and ok: "accepts w (ev_obj ev) \<longrightarrow> live w \<and> has_room w" by (auto simp: ready_for_def)
  let ?b = "upd_watcher i (offer ev) b"
  have "publish_loop (i # is) ev b = publish_loop is ev ?b"
  proof (cases "accepts w (ev_obj ev)")
    case True
    with ok w have "deliver True i (WEvent (ev_type ev) (ev_obj ev)) b = (Inr (), ?b)"
      by (simp add: deliver_live upd_watcher_def offer_def)
    with True w show ?thesis by (simp add: publish_loop_step del: publish_loop.simps)
  next
    case False
    with w have "?b = b" by (simp add: upd_watcher_def offer_def fun_upd_idem)
    with False w show ?thesis by (simp add: publish_loop_step del: publish_loop.simps)
  qed
  moreover have "\<forall>j \<in> set is. ready_for ev ?b j"
    using Cons.prems by (auto simp: ready_for_def)
  moreover have "b_watchers ?b j = b_watchers b j" if "j \<in> set is" for j
    using that Cons.prems(1) by auto
  ultimately show ?case using Cons.IH [of ?b] Cons.prems(1) w
    by (auto simp: upd_watcher_def fun_eq_iff)
qed simp

lemma publish_ready:
  assumes "distinct (b_subs b)" and "\<forall>i \<in> set (b_subs b). ready_for ev b i"
  shows "publish ev b =
    (Inr (), b\<lparr>b_ring := push_ring (b_capacity b) ev (b_ring b),
               b_watchers := (\<lambda>i. if i \<in> set (b_subs b) then map_option (offer ev) (b_watchers b i)
                                  else b_watchers b i)\<rparr>)"
  using assms by (simp add: publish_def Let_def publish_loop_ready ready_for_def cong: if_cong)

text \<open>
  A subscribed watcher that accepts the event and whose channel is full: \<open>deliver\<close> calls \<open>Stop\<close>,
  whose callback waits for the mutex that \<open>publish\<close> holds.
\<close>

lemma deliver_full:
  "b_watchers b i = Some w \<Longrightarrow> live w \<Longrightarrow> \<not> has_room w \<Longrightarrow> w_onStop w \<Longrightarrow>
    fst (deliver True i ev b) = Inl Deadlock"
  by (simp add: deliver_def Stop_def live_def has_room_def Let_def)

lemma publish_loop_full:
  "i \<in> set is \<Longrightarrow> b_watchers b i = Some w \<Longrightarrow> accepts w (ev_obj ev) \<Longrightarrow> live w \<Longrightarrow>
    \<not> has_room w \<Longrightarrow> w_onStop w \<Longrightarrow> \<exists>a b'. publish_loop is ev b = (Inl a, b')"
proof (induction "is" arbitrary: b)
  case (Cons j "is")
  show ?case
  proof (cases "j = i")
    case True
    with Cons.prems deliver_full [of b i w "WEvent (ev_type ev) (ev_obj ev)"] show ?thesis
      by (cases "deliver True i (WEvent (ev_type ev) (ev_obj ev)) b")
        (auto simp: publish_loop_step simp del: publish_loop.simps)
  next
    case False
    obtain r b' where d: "deliver True j (WEvent (ev_type ev) (ev_obj ev)) b = (r, b')"
      by fastforce
    have "b_watchers b' i = Some w"
      using d False Cons.prems(2)
      by (auto simp: deliver_def Stop_def send_def Let_def
          split: option.splits if_splits list.splits bool.splits)
    with False Cons.prems Cons.IH [of b] Cons.IH [of b'] d show ?thesis
      by (cases r) (auto split: option.splits sum.splits)
  qed
qed simp

section \<open>No send on a closed channel\<close>

text \<open>
  \<open>Stop\<close> removes the watcher from the subscribers before it closes the channel. So as long as
  every subscriber's channel is open, publishing cannot panic, and it keeps that true.
\<close>

fun open_sub :: "'o watcher option \<Rightarrow> bool" where
  "open_sub None = True"
| "open_sub (Some w) = (\<not> w_closed w \<and> w_onStop w)"

definition subs_open :: "'o broadcaster \<Rightarrow> bool" where
  "subs_open b \<longleftrightarrow> (\<forall>i \<in> set (b_subs b). open_sub (b_watchers b i))"

lemma deliver_open:
  assumes "open_sub (b_watchers b i)" and "deliver True i ev b = (r, b')"
  shows "r \<noteq> Inl SendOnClosed" "b_subs b' = b_subs b"
    "open_sub (b_watchers b j) \<Longrightarrow> open_sub (b_watchers b' j)"
  using assms
  by (auto simp: deliver_def Stop_def send_def Let_def
      split: option.split_asm if_split_asm list.split_asm bool.split_asm)

lemma deliver_subs_open:
  assumes "subs_open b" and "i \<in> set (b_subs b)" and "deliver True i ev b = (r, b')"
  shows "subs_open b' \<and> b_subs b' = b_subs b \<and> r \<noteq> Inl SendOnClosed"
proof -
  from assms(1,2) have "open_sub (b_watchers b i)" by (simp add: subs_open_def)
  from deliver_open [OF this assms(3)] assms(1) show ?thesis by (simp add: subs_open_def)
qed

lemma publish_loop_subs_open:
  "subs_open b \<Longrightarrow> set is \<subseteq> set (b_subs b) \<Longrightarrow> publish_loop is ev b = (r, b') \<Longrightarrow>
    subs_open b' \<and> b_subs b' = b_subs b \<and> r \<noteq> Inl SendOnClosed"
proof (induction "is" arbitrary: b)
  case (Cons i "is")
  show ?case
  proof (cases "b_watchers b i")
    case None
    with Cons show ?thesis by simp
  next
    case (Some w)
    obtain d c where d: "deliver True i (WEvent (ev_type ev) (ev_obj ev)) b = (d, c)" by fastforce
    from deliver_subs_open [OF Cons.prems(1) _ d] Cons.prems(2)
    have c: "subs_open c" "b_subs c = b_subs b" "d \<noteq> Inl SendOnClosed" by auto
    show ?thesis
    proof (cases "accepts w (ev_obj ev)")
      case True
      with Some d Cons.prems(2,3) Cons.IH [of c] c show ?thesis
        by (cases d) (auto simp: publish_loop_step simp del: publish_loop.simps)
    next
      case False
      with Some Cons show ?thesis by (simp add: publish_loop_step del: publish_loop.simps)
    qed
  qed
qed auto

lemma publish_subs_open:
  "subs_open b \<Longrightarrow> publish ev b = (r, b') \<Longrightarrow>
    subs_open b' \<and> b_subs b' = b_subs b \<and> r \<noteq> Inl SendOnClosed"
proof -
  let ?b = "b\<lparr>b_ring := push_ring (b_capacity b) ev (b_ring b)\<rparr>"
  assume "subs_open b" and "publish ev b = (r, b')"
  then have "subs_open ?b" and "publish_loop (b_subs b) ev ?b = (r, b')"
    by (simp_all add: subs_open_def publish_def)
  with publish_loop_subs_open [of ?b "b_subs b" ev r b'] show ?thesis by simp
qed

lemma Stop_subs_open:
  "subs_open b \<Longrightarrow> Stop False i b = (r, b') \<Longrightarrow> subs_open b' \<and> r = Inr ()"
  by (auto simp: subs_open_def Stop_def Let_def split: option.splits if_splits)
    (metis open_sub.simps(2))

lemma subscribe_subs_open:
  "subs_open b \<Longrightarrow> b_watchers b i = Some w \<Longrightarrow> \<not> w_closed w \<Longrightarrow> subs_open (subscribeLocked i b)"
  by (auto simp: subs_open_def subscribeLocked_def split: if_splits)

section \<open>The log interface\<close>

text \<open>
  What a watch relies on: appending records an event, and a replay that is granted is complete
  against the whole history. A client that has processed everything up to its start version then
  has, with the replayed events, the whole history.
\<close>

locale event_log =
  fixes append :: "'e \<Rightarrow> 'b \<Rightarrow> 'b" and replay :: "u64 \<Rightarrow> 'b \<Rightarrow> 'e list option"
    and rv :: "'e \<Rightarrow> u64" and holds :: "'e list \<Rightarrow> 'b \<Rightarrow> bool"
  assumes append_log: "holds h b \<Longrightarrow> holds (h @ [e]) (append e b)"
    and replay_log: "holds h b \<Longrightarrow> sorted_wrt (\<lambda>x y. rv x < rv y) h \<Longrightarrow> replay v b = Some es \<Longrightarrow>
      es = filter (\<lambda>e. v < rv e) h"
begin

lemma append_all: "holds h b \<Longrightarrow> holds (h @ es) (fold append es b)"
proof (induction es arbitrary: h b)
  case (Cons e es)
  from Cons.IH [OF append_log [OF Cons.prems]] show ?case by simp
qed simp

lemma sorted_split:
  "sorted_wrt (\<lambda>x y. rv x < rv y) h \<Longrightarrow> filter (\<lambda>e. rv e \<le> v) h @ filter (\<lambda>e. v < rv e) h = h"
proof (induction h)
  case (Cons x h)
  show ?case
  proof (cases "rv x \<le> v")
    case True
    with Cons show ?thesis by auto
  next
    case False
    with Cons.prems have "\<forall>e \<in> set h. \<not> rv e \<le> v" by auto
    then have "filter (\<lambda>e. rv e \<le> v) h = []" by (simp add: filter_empty_conv)
    with False Cons show ?thesis by auto
  qed
qed simp

lemma resume:
  assumes "holds h b" and "sorted_wrt (\<lambda>x y. rv x < rv y) h" and "replay v b = Some es"
  shows "filter (\<lambda>e. rv e \<le> v) h @ es = h"
  using replay_log [OF assms] sorted_split [OF assms(2)] by simp

end

definition ring_holds :: "'o event list \<Rightarrow> 'o broadcaster \<Rightarrow> bool" where
  "ring_holds h b \<longleftrightarrow> 0 < b_capacity b \<and> b_ring b = last_events (b_capacity b) h"

interpretation blog: event_log "\<lambda>e b. snd (publish e b)" replayLocked ev_rv ring_holds
proof
  fix h :: "'o event list" and b e assume "ring_holds h b"
  then show "ring_holds (h @ [e]) (snd (publish e b))"
    by (simp add: ring_holds_def publish_ring push_ring_last_events)
next
  fix h :: "'o event list" and b v es
  assume "ring_holds h b" "rv_sorted h" "replayLocked v b = Some es"
  then show "es = filter (\<lambda>e. v < ev_rv e) h"
    using replay_complete [of h b "b_capacity b" v es] by (simp add: ring_holds_def)
qed

end
