(* ===== verification/Store.thy ===== *)
theory Store
  imports Counter Keys Broadcast
begin

text \<open>
  The object operations of \<open>internal/fsstorage/store.go\<close>: \<open>Create\<close>, \<open>Get\<close>, \<open>Delete\<close> and
  \<open>GuaranteedUpdate\<close> of the store, with \<open>New\<close>, \<open>generateUID\<close>, \<open>bytesEqual\<close> and the encode and
  decode helpers. Here each operation is one computation on the state of the process and the disk: the file system,
  the shared counter, the UID counter and the store's broadcaster. The mutex of the object's path, which the
  code holds from the first file access to the return, does not appear in the computation: a request that runs
  alone always gets it. What it is for, the writers that run at the same time, is the subject of \<open>Interleaving\<close>.

  Code of other modules is a parameter, a field of the configuration: the codec, the metadata
  accessor, the versioner, the bookmark annotation. Preconditions, deletion validation and the
  update function are arguments, as in the code.
\<close>

section \<open>State, configuration, errors\<close>

record 'o sstate = cstate +
  s_uid :: u64
  s_bc :: "'o broadcaster"

record 'o config =
  Root :: string
  codec_encode :: "'o \<Rightarrow> string + bytes"
  codec_decode :: "bytes \<Rightarrow> 'o \<Rightarrow> string + 'o"
  Newer :: 'o
  accessor_ok :: "'o \<Rightarrow> bool"
  get_uid :: "'o \<Rightarrow> string"
  set_uid :: "'o \<Rightarrow> string \<Rightarrow> 'o"
  get_namespace :: "'o \<Rightarrow> string"
  get_name :: "'o \<Rightarrow> string"
  update_object :: "'o \<Rightarrow> u64 \<Rightarrow> string + 'o"
  object_rv :: "'o \<Rightarrow> string + u64"
  annotate_end :: "'o \<Rightarrow> string + 'o"
  parse_rv :: "string \<Rightarrow> string + u64"

datatype store_error =
    KeyErr key_error
  | NameRequired string
  | KeyExists string
  | KeyNotFound string
  | OsErr os_error
  | CodecErr string
  | AccessorErr
  | VersionerErr string
  | Rejected string
  | PredicateErr string
  | BadRequest string
  | Abnormal abnormal

type_synonym ('o, 'a) store_op = "('o sstate, store_error, 'a) sem"

section \<open>Helpers\<close>

text \<open>\<open>New\<close>: the checks on the configuration that concern the model, and a ring of 1000 events.\<close>

datatype new_error = RootRequired | CreateRoot os_error | NewCounterErr counter_error

definition New :: "'o config \<Rightarrow> bool \<Rightarrow> ('o sstate, new_error, unit) sem" where
  "New cfg hasCounter =
     (if Root cfg = [] then throw RootRequired
      else
        sbind (gets (\<lambda>s. join_path (fs_cwd s) [Root cfg])) (\<lambda>root.
        sbind (map_err CreateRoot (os_mkdir_all root)) (\<lambda>_.
        sbind (if hasCounter then ret () else map_err NewCounterErr (NewCounter (Root cfg))) (\<lambda>_.
        modify (\<lambda>s. s\<lparr>s_bc := newBroadcaster 1000\<rparr>)))))"

definition generateUID :: "('o, string) store_op" where
  "generateUID =
     sbind (modify (\<lambda>s. s\<lparr>s_uid := s_uid s + 1\<rparr>)) (\<lambda>_.
     gets (\<lambda>s. ''fsstorage-uid-'' @ format_uint (s_uid s)))"

fun bytesEqual :: "bytes \<Rightarrow> bytes \<Rightarrow> bool" where
  "bytesEqual a b =
     (if length a \<noteq> length b then False
      else list_all (\<lambda>i. a ! i = b ! i) [0..<length a])"

definition encode :: "'o config \<Rightarrow> 'o \<Rightarrow> ('o, bytes) store_op" where
  "encode cfg obj = map_err CodecErr (of_sum (codec_encode cfg obj))"

definition decodeInto :: "'o config \<Rightarrow> bytes \<Rightarrow> 'o \<Rightarrow> ('o, 'o) store_op" where
  "decodeInto cfg data into = map_err CodecErr (of_sum (codec_decode cfg data into))"

definition decodeFresh :: "'o config \<Rightarrow> bytes \<Rightarrow> ('o, 'o) store_op" where
  "decodeFresh cfg data = decodeInto cfg data (Newer cfg)"

text \<open>Decoding into an optional destination (\<open>out\<close>, \<open>destination\<close>; \<open>None\<close> is \<open>nil\<close>).\<close>

definition decodeOut :: "'o config \<Rightarrow> bytes \<Rightarrow> 'o option \<Rightarrow> ('o, 'o option) store_op" where
  "decodeOut cfg data out =
     (case out of None \<Rightarrow> ret None | Some into \<Rightarrow> sbind (decodeInto cfg data into) (\<lambda>x. ret (Some x)))"

definition nextRV :: "'o config \<Rightarrow> ('o, u64) store_op" where
  "nextRV cfg = map_err OsErr (counter_Next (Root cfg))"

definition stampRV :: "'o config \<Rightarrow> 'o \<Rightarrow> u64 \<Rightarrow> ('o, 'o) store_op" where
  "stampRV cfg obj rv = map_err VersionerErr (of_sum (update_object cfg obj rv))"

definition publishEvent :: "'o event \<Rightarrow> ('o, unit) store_op" where
  "publishEvent ev s =
     (case publish ev (s_bc s) of (r, b) \<Rightarrow> (map_sum Abnormal id r, s\<lparr>s_bc := b\<rparr>))"

text \<open>The opening lines shared by the four operations: parse the key, demand a name, form the path.\<close>

definition keyPath :: "'o config \<Rightarrow> string \<Rightarrow> ('o, path) store_op" where
  "keyPath cfg key =
     sbind (map_err KeyErr (of_sum (parseKey key))) (\<lambda>(resource, namespace, name).
     if name = [] then throw (NameRequired key)
     else gets (\<lambda>s. objectPath (fs_cwd s) (Root cfg) resource namespace name))"

section \<open>Operations\<close>

definition Create :: "'o config \<Rightarrow> string \<Rightarrow> 'o \<Rightarrow> 'o option \<Rightarrow> ('o, 'o option) store_op" where
  "Create cfg key obj out =
     sbind (keyPath cfg key) (\<lambda>path.
     sbind (attempt (os_stat path)) (\<lambda>st. case st of
       Inr _ \<Rightarrow> throw (KeyExists key)
     | Inl e \<Rightarrow>
         if e \<noteq> ENOENT then throw (OsErr e)
         else if \<not> accessor_ok cfg obj then throw AccessorErr
         else
           sbind (if get_uid cfg obj = [] then sbind generateUID (\<lambda>u. ret (set_uid cfg obj u))
                  else ret obj) (\<lambda>objCopy.
           sbind (nextRV cfg) (\<lambda>rv.
           sbind (stampRV cfg objCopy rv) (\<lambda>objCopy.
           sbind (encode cfg objCopy) (\<lambda>data.
           sbind (map_err OsErr (atomicWrite path data)) (\<lambda>_.
           sbind (decodeOut cfg data out) (\<lambda>out.
           sbind (publishEvent \<lparr>ev_rv = rv, ev_type = Added, ev_obj = objCopy\<rparr>) (\<lambda>_.
           ret out)))))))))"

definition Get :: "'o config \<Rightarrow> string \<Rightarrow> bool \<Rightarrow> 'o \<Rightarrow> ('o, 'o) store_op" where
  "Get cfg key ignoreNotFound objPtr =
     sbind (keyPath cfg key) (\<lambda>path.
     sbind (attempt (os_read_file path)) (\<lambda>r. case r of
       Inl e \<Rightarrow>
         if e = ENOENT then (if ignoreNotFound then ret objPtr else throw (KeyNotFound key))
         else throw (OsErr e)
     | Inr data \<Rightarrow> decodeInto cfg data objPtr))"

text \<open>
  \<open>Delete\<close>. Where the stored bytes do not decode and the caller asked to ignore that, there is no
  current object: the checks, the stamp and the event are skipped. The errors of stamping,
  encoding and decoding the deleted object are dropped, as in the code.
\<close>

definition Delete ::
  "'o config \<Rightarrow> string \<Rightarrow> 'o option \<Rightarrow> (string \<Rightarrow> 'o \<Rightarrow> string + unit) \<Rightarrow>
     ('o \<Rightarrow> string + unit) option \<Rightarrow> bool \<Rightarrow> ('o, 'o option) store_op" where
  "Delete cfg key out preconditions validateDeletion ignoreReadError =
     sbind (keyPath cfg key) (\<lambda>path.
     sbind (attempt (os_read_file path)) (\<lambda>r. case r of
       Inl e \<Rightarrow> if e = ENOENT then throw (KeyNotFound key) else throw (OsErr e)
     | Inr data \<Rightarrow>
         sbind (attempt (decodeFresh cfg data)) (\<lambda>d. case d of
           Inl e \<Rightarrow>
             if \<not> ignoreReadError then throw e
             else sbind (map_err OsErr (os_remove path)) (\<lambda>_.
                  sbind (nextRV cfg) (\<lambda>rv. ret out))
         | Inr cur \<Rightarrow>
             sbind (map_err Rejected (of_sum (preconditions key cur))) (\<lambda>_.
             sbind (case validateDeletion of None \<Rightarrow> ret ()
                    | Some v \<Rightarrow> map_err Rejected (of_sum (v cur))) (\<lambda>_.
             sbind (map_err OsErr (os_remove path)) (\<lambda>_.
             sbind (nextRV cfg) (\<lambda>rv.
             let cur = (case update_object cfg cur rv of Inl _ \<Rightarrow> cur | Inr c \<Rightarrow> c);
                 out = (case out of
                          None \<Rightarrow> None
                        | Some into \<Rightarrow>
                            (case codec_encode cfg cur of
                               Inl _ \<Rightarrow> Some into
                             | Inr data2 \<Rightarrow>
                                 (case codec_decode cfg data2 into of
                                    Inl _ \<Rightarrow> Some into | Inr x \<Rightarrow> Some x)))
             in sbind (publishEvent \<lparr>ev_rv = rv, ev_type = Deleted, ev_obj = cur\<rparr>) (\<lambda>_.
                ret out))))))))"

text \<open>
  \<open>GuaranteedUpdate\<close>. The update function gets the current object and its version and may change
  the object it is given; it returns the new object and what became of the current one.
\<close>

type_synonym 'o update_func = "'o \<Rightarrow> u64 \<Rightarrow> string + 'o \<times> 'o"

definition fillUID :: "'o config \<Rightarrow> bool \<Rightarrow> 'o \<Rightarrow> 'o \<Rightarrow> ('o, 'o) store_op" where
  "fillUID cfg existed cur obj =
     (if existed then
        ret (if accessor_ok cfg cur \<and> accessor_ok cfg obj \<and> get_uid cfg obj = []
             then set_uid cfg obj (get_uid cfg cur) else obj)
      else if accessor_ok cfg obj \<and> get_uid cfg obj = []
           then sbind generateUID (\<lambda>u. ret (set_uid cfg obj u))
           else ret obj)"

definition GuaranteedUpdate ::
  "'o config \<Rightarrow> string \<Rightarrow> 'o option \<Rightarrow> bool \<Rightarrow> (string \<Rightarrow> 'o \<Rightarrow> string + unit) \<Rightarrow> 'o update_func \<Rightarrow>
     ('o, 'o option) store_op" where
  "GuaranteedUpdate cfg key destination ignoreNotFound preconditions tryUpdate =
     sbind (keyPath cfg key) (\<lambda>path.
     sbind (attempt (os_read_file path)) (\<lambda>r.
     sbind (case r of
              Inr data \<Rightarrow> sbind (decodeFresh cfg data) (\<lambda>cur. ret (Some data, cur))
            | Inl e \<Rightarrow>
                if e = ENOENT then (if \<not> ignoreNotFound then throw (KeyNotFound key)
                                    else ret (None, Newer cfg))
                else throw (OsErr e)) (\<lambda>(curData, cur).
     let existed = (curData \<noteq> None);
         curRV = (if existed then (case object_rv cfg cur of Inl _ \<Rightarrow> 0 | Inr v \<Rightarrow> v) else 0)
     in
     sbind (if existed then map_err Rejected (of_sum (preconditions key cur)) else ret ()) (\<lambda>_.
     sbind (map_err Rejected (of_sum (tryUpdate cur curRV))) (\<lambda>(updated, cur).
     sbind (encode cfg updated) (\<lambda>newData.
     if existed \<and> bytesEqual newData (the curData) then decodeOut cfg (the curData) destination
     else
       sbind (nextRV cfg) (\<lambda>rv.
       sbind (stampRV cfg updated rv) (\<lambda>updatedCopy.
       sbind (fillUID cfg existed cur updatedCopy) (\<lambda>updatedCopy.
       sbind (encode cfg updatedCopy) (\<lambda>encoded.
       sbind (map_err OsErr (atomicWrite path encoded)) (\<lambda>_.
       sbind (decodeOut cfg encoded destination) (\<lambda>destination.
       sbind (publishEvent \<lparr>ev_rv = rv, ev_type = (if existed then Modified else Added),
                            ev_obj = updatedCopy\<rparr>) (\<lambda>_.
       ret destination)))))))))))))"

end
