(* ===== verification/Store_Spec.thy ===== *)
theory Store_Spec
  imports Store
begin

text \<open>
  An abstract specification of the store and the proof that the operations of \<open>Store\<close> implement
  it. The specification keeps the objects in a map in memory: it has no directories, no
  temporary files, no counter file and no disk errors. The view of a concrete state forgets those,
  and each operation either fails with an error of the operating system or does on the view
  exactly what the specification does.
\<close>

section \<open>Object files\<close>

text \<open>
  Object files are told apart from the store's internal files (temporary files, the counter) by
  their last component.
\<close>

definition object_path :: "path \<Rightarrow> bool" where
  "object_path p \<longleftrightarrow> p \<noteq> [] \<and> has_suffix (last p) ''.json''"

lemma not_object_tmp [simp]: "\<not> object_path (tmp_of p)"
  by (auto simp: object_path_def tmp_of_def has_suffix_iff append_eq_append_conv2 Cons_eq_append_conv)

lemma not_object_counter [simp]: "root \<noteq> [] \<Longrightarrow> \<not> object_path (counter_file root cwd)"
  using join_path_snoc [of root "''.rv''" cwd "[]"]
  by (auto simp: object_path_def counter_file_def plain_seg_def has_suffix_iff Cons_eq_append_conv)

lemma object_path_neq [simp]:
  "object_path p \<Longrightarrow> p \<noteq> tmp_of q"
  "root \<noteq> [] \<Longrightarrow> object_path p \<Longrightarrow> p \<noteq> counter_file root cwd"
  using not_object_tmp not_object_counter by blast+

lemma object_path_objectPath:
  "root \<noteq> [] \<Longrightarrow> slash \<notin> set n \<Longrightarrow> object_path (objectPath cwd root r ns n)"
  using objectPath_last [of root n cwd r ns] by (auto simp: object_path_def)

section \<open>The specification\<close>

record 'o view =
  v_objs :: "path \<Rightarrow> bytes option"
  v_rv :: u64
  v_uid :: u64
  v_bc :: "'o broadcaster"
  v_cwd :: path

type_synonym ('o, 'a) spec_op = "('o view, store_error, 'a) sem"

definition key_path :: "'o config \<Rightarrow> path \<Rightarrow> string \<Rightarrow> store_error + path" where
  "key_path cfg cwd key =
     (case parseKey key of
        Inl e \<Rightarrow> Inl (KeyErr e)
      | Inr (r, ns, n) \<Rightarrow>
          if n = [] then Inl (NameRequired key) else Inr (objectPath cwd (Root cfg) r ns n))"

definition spec_uid :: "('o, string) spec_op" where
  "spec_uid =
     sbind (modify (\<lambda>v. v\<lparr>v_uid := v_uid v + 1\<rparr>)) (\<lambda>_.
     gets (\<lambda>v. ''fsstorage-uid-'' @ format_uint (v_uid v)))"

definition spec_rv :: "('o, u64) spec_op" where
  "spec_rv = sbind (modify (\<lambda>v. v\<lparr>v_rv := v_rv v + 1\<rparr>)) (\<lambda>_. gets v_rv)"

definition spec_put :: "path \<Rightarrow> bytes option \<Rightarrow> ('o, unit) spec_op" where
  "spec_put p b = modify (\<lambda>v. v\<lparr>v_objs := (v_objs v)(p := b)\<rparr>)"

definition spec_publish :: "'o event \<Rightarrow> ('o, unit) spec_op" where
  "spec_publish ev v =
     (case publish ev (v_bc v) of (r, b) \<Rightarrow> (map_sum Abnormal id r, v\<lparr>v_bc := b\<rparr>))"

definition spec_out :: "'o config \<Rightarrow> bytes \<Rightarrow> 'o option \<Rightarrow> ('o, 'o option) spec_op" where
  "spec_out cfg data out =
     of_sum (case out of None \<Rightarrow> Inr None
             | Some into \<Rightarrow> map_sum CodecErr Some (codec_decode cfg data into))"

text \<open>Stamp, encode, store, answer, announce: the second half of a create or update.\<close>

definition spec_commit ::
  "'o config \<Rightarrow> path \<Rightarrow> etype \<Rightarrow> 'o option \<Rightarrow> u64 \<Rightarrow> 'o \<Rightarrow> ('o, 'o option) spec_op" where
  "spec_commit cfg p et out rv obj =
     sbind (of_sum (map_sum CodecErr id (codec_encode cfg obj))) (\<lambda>data.
     sbind (spec_put p (Some data)) (\<lambda>_.
     sbind (spec_out cfg data out) (\<lambda>out.
     sbind (spec_publish \<lparr>ev_rv = rv, ev_type = et, ev_obj = obj\<rparr>) (\<lambda>_. ret out))))"

definition spec_create :: "'o config \<Rightarrow> string \<Rightarrow> 'o \<Rightarrow> 'o option \<Rightarrow> ('o, 'o option) spec_op" where
  "spec_create cfg key obj out =
     sbind (\<lambda>v. (key_path cfg (v_cwd v) key, v)) (\<lambda>p.
     sbind (gets (\<lambda>v. v_objs v p)) (\<lambda>x. case x of
       Some _ \<Rightarrow> throw (KeyExists key)
     | None \<Rightarrow>
         if \<not> accessor_ok cfg obj then throw AccessorErr
         else
           sbind (if get_uid cfg obj = [] then sbind spec_uid (\<lambda>u. ret (set_uid cfg obj u)) else ret obj)
             (\<lambda>obj.
           sbind spec_rv (\<lambda>rv.
           sbind (of_sum (map_sum VersionerErr id (update_object cfg obj rv))) (\<lambda>obj.
           spec_commit cfg p Added out rv obj)))))"

definition spec_get :: "'o config \<Rightarrow> string \<Rightarrow> bool \<Rightarrow> 'o \<Rightarrow> ('o, 'o) spec_op" where
  "spec_get cfg key ignoreNotFound objPtr =
     sbind (\<lambda>v. (key_path cfg (v_cwd v) key, v)) (\<lambda>p.
     sbind (gets (\<lambda>v. v_objs v p)) (\<lambda>x. case x of
       None \<Rightarrow> if ignoreNotFound then ret objPtr else throw (KeyNotFound key)
     | Some data \<Rightarrow> of_sum (map_sum CodecErr id (codec_decode cfg data objPtr))))"

definition deleted_out :: "'o config \<Rightarrow> 'o \<Rightarrow> 'o option \<Rightarrow> 'o option" where
  "deleted_out cfg cur out =
     (case out of
        None \<Rightarrow> None
      | Some into \<Rightarrow>
          (case codec_encode cfg cur of
             Inl _ \<Rightarrow> Some into
           | Inr data \<Rightarrow> (case codec_decode cfg data into of Inl _ \<Rightarrow> Some into | Inr x \<Rightarrow> Some x)))"

definition spec_delete ::
  "'o config \<Rightarrow> string \<Rightarrow> 'o option \<Rightarrow> (string \<Rightarrow> 'o \<Rightarrow> string + unit) \<Rightarrow>
     ('o \<Rightarrow> string + unit) option \<Rightarrow> bool \<Rightarrow> ('o, 'o option) spec_op" where
  "spec_delete cfg key out preconditions validateDeletion ignoreReadError =
     sbind (\<lambda>v. (key_path cfg (v_cwd v) key, v)) (\<lambda>p.
     sbind (gets (\<lambda>v. v_objs v p)) (\<lambda>x. case x of
       None \<Rightarrow> throw (KeyNotFound key)
     | Some data \<Rightarrow>
         (case codec_decode cfg data (Newer cfg) of
            Inl e \<Rightarrow>
              if \<not> ignoreReadError then throw (CodecErr e)
              else sbind (spec_put p None) (\<lambda>_. sbind spec_rv (\<lambda>_. ret out))
          | Inr cur \<Rightarrow>
              sbind (of_sum (map_sum Rejected id (preconditions key cur))) (\<lambda>_.
              sbind (case validateDeletion of None \<Rightarrow> ret ()
                     | Some v \<Rightarrow> of_sum (map_sum Rejected id (v cur))) (\<lambda>_.
              sbind (spec_put p None) (\<lambda>_.
              sbind spec_rv (\<lambda>rv.
              let cur = (case update_object cfg cur rv of Inl _ \<Rightarrow> cur | Inr c \<Rightarrow> c)
              in sbind (spec_publish \<lparr>ev_rv = rv, ev_type = Deleted, ev_obj = cur\<rparr>) (\<lambda>_.
                 ret (deleted_out cfg cur out)))))))))"

definition spec_fill :: "'o config \<Rightarrow> bool \<Rightarrow> 'o \<Rightarrow> 'o \<Rightarrow> ('o, 'o) spec_op" where
  "spec_fill cfg existed cur obj =
     (if existed then
        ret (if accessor_ok cfg cur \<and> accessor_ok cfg obj \<and> get_uid cfg obj = []
             then set_uid cfg obj (get_uid cfg cur) else obj)
      else if accessor_ok cfg obj \<and> get_uid cfg obj = []
           then sbind spec_uid (\<lambda>u. ret (set_uid cfg obj u))
           else ret obj)"

definition spec_update ::
  "'o config \<Rightarrow> string \<Rightarrow> 'o option \<Rightarrow> bool \<Rightarrow> (string \<Rightarrow> 'o \<Rightarrow> string + unit) \<Rightarrow> 'o update_func \<Rightarrow>
     ('o, 'o option) spec_op" where
  "spec_update cfg key destination ignoreNotFound preconditions tryUpdate =
     sbind (\<lambda>v. (key_path cfg (v_cwd v) key, v)) (\<lambda>p.
     sbind (gets (\<lambda>v. v_objs v p)) (\<lambda>x.
     sbind (case x of
              Some data \<Rightarrow> of_sum (map_sum CodecErr id (codec_decode cfg data (Newer cfg)))
            | None \<Rightarrow> if \<not> ignoreNotFound then throw (KeyNotFound key) else ret (Newer cfg)) (\<lambda>cur.
     let rv = (if x = None then 0 else case object_rv cfg cur of Inl _ \<Rightarrow> 0 | Inr v \<Rightarrow> v)
     in
     sbind (if x \<noteq> None then of_sum (map_sum Rejected id (preconditions key cur)) else ret ()) (\<lambda>_.
     sbind (of_sum (map_sum Rejected id (tryUpdate cur rv))) (\<lambda>(updated, cur).
     sbind (of_sum (map_sum CodecErr id (codec_encode cfg updated))) (\<lambda>newData.
     if x = Some newData then spec_out cfg newData destination
     else
       sbind spec_rv (\<lambda>rv.
       sbind (of_sum (map_sum VersionerErr id (update_object cfg updated rv))) (\<lambda>obj.
       sbind (spec_fill cfg (x \<noteq> None) cur obj) (\<lambda>obj.
       spec_commit cfg p (if x \<noteq> None then Modified else Added) destination rv obj)))))))))"

section \<open>Simulation\<close>

definition objects :: "'x fs_state_scheme \<Rightarrow> path \<Rightarrow> bytes option" where
  "objects s p = (if object_path p then files s p else None)"

definition view_of :: "'o sstate \<Rightarrow> 'o view" where
  "view_of s =
     \<lparr>v_objs = objects s, v_rv = c_rv s, v_uid = s_uid s, v_bc = s_bc s, v_cwd = fs_cwd s\<rparr>"

lemma view_of_simps [simp]:
  "v_objs (view_of s) = objects s" "v_rv (view_of s) = c_rv s" "v_uid (view_of s) = s_uid s"
  "v_bc (view_of s) = s_bc s" "v_cwd (view_of s) = fs_cwd s"
  by (simp_all add: view_of_def)

definition simulates :: "('o, 'a) store_op \<Rightarrow> ('o, 'a) spec_op \<Rightarrow> bool" where
  "simulates m n \<longleftrightarrow>
     (\<forall>s r t. steady s \<longrightarrow> m s = (r, t) \<longrightarrow>
        steady t \<and> ((\<exists>e. r = Inl (OsErr e)) \<or> n (view_of s) = (r, view_of t)))"

named_theorems sim_intros \<open>rules that a store computation implements a specification\<close>

lemma simulatesI:
  "(\<And>s r t. steady s \<Longrightarrow> m s = (r, t) \<Longrightarrow>
      steady t \<and> ((\<exists>e. r = Inl (OsErr e)) \<or> n (view_of s) = (r, view_of t))) \<Longrightarrow> simulates m n"
  by (simp add: simulates_def)

lemma simulatesD:
  "simulates m n \<Longrightarrow> steady s \<Longrightarrow> m s = (r, t) \<Longrightarrow>
     steady t \<and> ((\<exists>e. r = Inl (OsErr e)) \<or> n (view_of s) = (r, view_of t))"
  by (simp add: simulates_def)

lemma sim_sbind [sim_intros]:
  assumes "simulates m n" and "\<And>a. simulates (f a) (g a)"
  shows "simulates (sbind m f) (sbind n g)"
proof (rule simulatesI)
  fix s r t assume s: "steady s" and r: "sbind m f s = (r, t)"
  obtain q u where q: "m s = (q, u)" by fastforce
  note sim = simulatesD [OF assms(1) s q]
  show "steady t \<and> ((\<exists>e. r = Inl (OsErr e)) \<or> sbind n g (view_of s) = (r, view_of t))"
  proof (cases q)
    case (Inl e)
    with r q have "r = Inl e" "t = u" by auto
    with sim Inl show ?thesis by auto
  next
    case (Inr a)
    with r q have "f a u = (r, t)" by simp
    with simulatesD [OF assms(2), of u a r t] sim Inr show ?thesis by auto
  qed
qed

lemma sim_basic [sim_intros]:
  "simulates (ret a) (ret a)" "simulates (throw e) (throw e)"
  "simulates (map_err h (of_sum x)) (of_sum (map_sum h id x))"
  by (auto simp: simulates_def map_err_def split: sum.splits)

lemma sim_if [sim_intros]:
  "simulates m n \<Longrightarrow> simulates m' n' \<Longrightarrow> simulates (if b then m else m') (if b then n else n')"
  by simp

lemma sim_case_option [sim_intros]:
  "simulates m n \<Longrightarrow> (\<And>a. simulates (f a) (g a)) \<Longrightarrow>
    simulates (case x of None \<Rightarrow> m | Some a \<Rightarrow> f a) (case x of None \<Rightarrow> n | Some a \<Rightarrow> g a)"
  by (cases x) simp_all

lemma sim_case_prod [sim_intros]:
  "(\<And>a b. simulates (f a b) (g a b)) \<Longrightarrow>
    simulates (case x of (a, b) \<Rightarrow> f a b) (case x of (a, b) \<Rightarrow> g a b)"
  by (cases x) simp

text \<open>What a call that touches only the tree leaves of the view.\<close>

lemma sstate_more:
  assumes "fs_state.more (t :: 'o sstate) = fs_state.more s" and "fs_cwd t = fs_cwd s"
  shows "view_of t = (view_of s)\<lparr>v_objs := objects t\<rparr>"
  using assms by (cases s; cases t) (simp add: view_of_def)

lemma sstate_cmore:
  assumes "cstate.more (t :: 'o sstate) = cstate.more s" and "fs_cwd t = fs_cwd s"
  shows "view_of t = (view_of s)\<lparr>v_objs := objects t, v_rv := c_rv t\<rparr>"
  using assms by (cases s; cases t) (simp add: view_of_def)

lemma view_objs_same [simp]: "(view_of s)\<lparr>v_objs := objects s\<rparr> = view_of s"
  by (simp add: view_of_def)

lemma sim_nextRV [sim_intros]:
  assumes "Root cfg \<noteq> []"
  shows "simulates (nextRV cfg) spec_rv"
proof (rule simulatesI)
  fix s r t assume s: "steady s" and r: "nextRV cfg s = (r, t)"
  have st: "steady t"
    using preservesD [OF preserves_map_err [OF preserves_steady_Next] s] r by (simp add: nextRV_def)
  show "steady t \<and> ((\<exists>e. r = Inl (OsErr e)) \<or> spec_rv (view_of s) = (r, view_of t))"
  proof (cases r)
    case (Inl e)
    with r st show ?thesis by (auto simp: nextRV_def)
  next
    case (Inr v)
    with r have n: "counter_Next (Root cfg) s = (Inr v, t)" by (simp add: nextRV_def)
    note c = counter_Next_Inr [OF n]
    have "objects t = objects s" using c(5) assms by (auto simp: objects_def fun_eq_iff)
    with sstate_cmore [OF c(4,3)] c(1,2) Inr st show ?thesis by (simp add: spec_rv_def sbind_def)
  qed
qed

lemma sim_atomicWrite [sim_intros]:
  assumes "object_path p"
  shows "simulates (map_err OsErr (atomicWrite p d)) (spec_put p (Some d))"
proof (rule simulatesI)
  fix s :: "'o sstate" and r t assume s: "steady s" and r: "map_err OsErr (atomicWrite p d) s = (r, t)"
  have st: "steady t" using preservesD [OF preserves_map_err [OF preserves_steady_write(2)] s r] .
  show "steady t \<and> ((\<exists>e. r = Inl (OsErr e)) \<or> spec_put p (Some d) (view_of s) = (r, view_of t))"
  proof (cases r)
    case (Inr u)
    with r have w: "atomicWrite p d s = (Inr (), t)" by simp
    have "objects t = (objects s)(p \<mapsto> d)"
      using atomicWrite_Inr [OF w] assms by (auto simp: objects_def fun_eq_iff)
    moreover have "fs_state.more t = fs_state.more s" "fs_cwd t = fs_cwd s"
      using os_call_same w by blast+
    ultimately show ?thesis using Inr st sstate_more [of t s] by (simp add: spec_put_def)
  qed (use r st in auto)
qed

lemma sim_remove [sim_intros]:
  assumes "object_path p"
  shows "simulates (map_err OsErr (os_remove p)) (spec_put p None)"
proof (rule simulatesI)
  fix s :: "'o sstate" and r t assume s: "steady s" and r: "map_err OsErr (os_remove p) s = (r, t)"
  have st: "steady t" using preservesD [OF preserves_map_err [OF preserves_steady(8)] s r] .
  show "steady t \<and> ((\<exists>e. r = Inl (OsErr e)) \<or> spec_put p None (view_of s) = (r, view_of t))"
  proof (cases r)
    case (Inr u)
    with r have w: "os_remove p s = (Inr (), t)" by simp
    have "objects t = (objects s)(p := None)"
      using os_remove_Inr [OF w] assms by (auto simp: objects_def fun_eq_iff)
    moreover have "fs_state.more t = fs_state.more s" "fs_cwd t = fs_cwd s"
      using os_call_same w by blast+
    ultimately show ?thesis using Inr st sstate_more [of t s] by (simp add: spec_put_def)
  qed (use r st in auto)
qed

lemma sim_generateUID [sim_intros]: "simulates generateUID spec_uid"
  by (rule simulatesI) (auto simp: generateUID_def spec_uid_def sbind_def steady_def view_of_def
      objects_def fun_eq_iff)

lemma sim_publish [sim_intros]: "simulates (publishEvent ev) (spec_publish ev)"
  by (rule simulatesI) (auto simp: publishEvent_def spec_publish_def steady_def view_of_def
      objects_def fun_eq_iff split: prod.splits)

text \<open>Reading a file and looking at the outcome is looking the object up in the map.\<close>

lemma read_same_view:
  assumes "os_read_file p s = (r, t)"
  shows "view_of t = view_of s"
proof -
  have "fs_state.more t = fs_state.more s" "fs_cwd t = fs_cwd s"
    using os_call_same assms by blast+
  moreover have "objects t = objects s"
    using os_query_root(2) [OF assms] by (simp add: objects_def fun_eq_iff)
  ultimately show ?thesis by (simp only: sstate_more [of t s] view_objs_same)
qed

lemma stat_same_view:
  assumes "os_stat p s = (r, t)"
  shows "view_of t = view_of s"
proof -
  have "fs_state.more t = fs_state.more s" "fs_cwd t = fs_cwd s"
    using os_call_same assms by blast+
  moreover have "objects t = objects s"
    using os_query_root(1) [OF assms] by (simp add: objects_def fun_eq_iff)
  ultimately show ?thesis by (simp only: sstate_more [of t s] view_objs_same)
qed

lemma sim_read:
  assumes p: "object_path p"
    and some: "\<And>d. simulates (F (Inr d)) (G (Some d))"
    and none: "simulates (F (Inl ENOENT)) (G None)"
    and err: "\<And>e. e \<noteq> ENOENT \<Longrightarrow> F (Inl e) = throw (OsErr e)"
  shows "simulates (sbind (attempt (os_read_file p)) F) (sbind (gets (\<lambda>v. v_objs v p)) G)"
proof (rule simulatesI)
  fix s r t assume s: "steady s" and r: "sbind (attempt (os_read_file p)) F s = (r, t)"
  obtain q u where q: "os_read_file p s = (q, u)" by fastforce
  have u: "steady u" using preservesD [OF preserves_steady(2) s q] .
  from r q have f: "F q u = (r, t)" by (simp add: sbind_def attempt_def)
  note v = read_same_view [OF q]
  have g: "sbind (gets (\<lambda>v. v_objs v p)) G (view_of s) = G (files s p) (view_of u)"
    using p v by (simp add: objects_def)
  show "steady t \<and> ((\<exists>e. r = Inl (OsErr e)) \<or>
      sbind (gets (\<lambda>v. v_objs v p)) G (view_of s) = (r, view_of t))"
  proof (cases q)
    case (Inr d)
    with q have "files s p = Some d" by (blast intro: os_read_file_Inr)
    with simulatesD [OF some u, of d r t] f g Inr show ?thesis by simp
  next
    case (Inl e)
    show ?thesis
    proof (cases "e = ENOENT")
      case True
      with q Inl s have "files s p = None" by (blast intro: os_read_file_ENOENT)
      with simulatesD [OF none u, of r t] f g Inl True show ?thesis by simp
    next
      case False
      with f Inl err u show ?thesis by auto
    qed
  qed
qed

section \<open>The operations implement the specification\<close>

lemma bytesEqual_eq [simp]: "bytesEqual a b \<longleftrightarrow> a = b"
  by (auto simp: list_all_iff intro: nth_equalityI)

declare bytesEqual.simps [simp del]

text \<open>A failure-free read of the key.\<close>

lemma keyPath_Inr:
  assumes "keyPath cfg key s = (Inr p, t)" and "Root cfg \<noteq> []"
  shows "object_path p \<and> t = s"
proof -
  from assms(1) obtain r ns n where k: "parseKey key = Inr (r, ns, n)"
    and p: "p = objectPath (fs_cwd s) (Root cfg) r ns n" and t: "t = s"
    by (auto simp: keyPath_def sbind_Inr_iff simp del: parseKey.simps split: if_splits)
  with parseKey_name_sep_free [OF k] assms(2) show ?thesis
    by (simp add: object_path_objectPath)
qed

lemma keyPath_key_path: "keyPath cfg key s = (key_path cfg (fs_cwd s) key, s)"
  by (auto simp: keyPath_def key_path_def sbind_def map_err_def split: sum.splits simp del: parseKey.simps)

lemma sim_keyPath:
  assumes "Root cfg \<noteq> []" and "\<And>p. object_path p \<Longrightarrow> simulates (f p) (g p)"
  shows "simulates (sbind (keyPath cfg key) f) (sbind (\<lambda>v. (key_path cfg (v_cwd v) key, v)) g)"
proof (rule simulatesI)
  fix s r t assume s: "steady s" and r: "sbind (keyPath cfg key) f s = (r, t)"
  show "steady t \<and> ((\<exists>e. r = Inl (OsErr e)) \<or>
      sbind (\<lambda>v. (key_path cfg (v_cwd v) key, v)) g (view_of s) = (r, view_of t))"
  proof (cases "key_path cfg (fs_cwd s) key")
    case (Inl e)
    with r s show ?thesis by (auto simp: sbind_def keyPath_key_path)
  next
    case (Inr p)
    then have "keyPath cfg key s = (Inr p, s)" by (simp add: keyPath_key_path)
    with keyPath_Inr assms(1) have "object_path p" by blast
    with simulatesD [OF assms(2) s, of p r t] r Inr show ?thesis
      by (auto simp: sbind_def keyPath_key_path)
  qed
qed

lemmas sim_codec = sim_basic(3)

lemma sim_encode [sim_intros]:
  "simulates (encode cfg obj) (of_sum (map_sum CodecErr id (codec_encode cfg obj)))"
  "simulates (decodeInto cfg data into) (of_sum (map_sum CodecErr id (codec_decode cfg data into)))"
  "simulates (decodeFresh cfg data) (of_sum (map_sum CodecErr id (codec_decode cfg data (Newer cfg))))"
  "simulates (stampRV cfg obj rv) (of_sum (map_sum VersionerErr id (update_object cfg obj rv)))"
  unfolding encode_def decodeFresh_def decodeInto_def stampRV_def by (rule sim_codec)+

lemma sim_decodeOut [sim_intros]: "simulates (decodeOut cfg data out) (spec_out cfg data out)"
  by (rule simulatesI)
    (auto simp: decodeOut_def spec_out_def decodeInto_def sbind_def map_err_def
      split: option.splits sum.splits)

lemma sim_fillUID [sim_intros]: "simulates (fillUID cfg existed cur obj) (spec_fill cfg existed cur obj)"
  unfolding fillUID_def spec_fill_def by (intro sim_intros)

theorem Get_refines:
  assumes "Root cfg \<noteq> []"
  shows "simulates (Get cfg key ignoreNotFound objPtr) (spec_get cfg key ignoreNotFound objPtr)"
  unfolding Get_def spec_get_def
  by (intro sim_keyPath sim_read assms) (simp_all add: sim_intros)

lemma sim_case_sum [sim_intros]:
  "(\<And>e. simulates (f e) (f' e)) \<Longrightarrow> (\<And>a. simulates (g a) (g' a)) \<Longrightarrow>
    simulates (case x of Inl e \<Rightarrow> f e | Inr a \<Rightarrow> g a) (case x of Inl e \<Rightarrow> f' e | Inr a \<Rightarrow> g' a)"
  by (cases x) simp_all

lemma attempt_decode:
  "sbind (attempt (decodeFresh cfg data)) f =
     (case codec_decode cfg data (Newer cfg) of Inl e \<Rightarrow> f (Inl (CodecErr e)) | Inr x \<Rightarrow> f (Inr x))"
  by (auto simp: fun_eq_iff decodeFresh_def decodeInto_def sbind_def attempt_def map_err_def
      split: sum.splits)

theorem Delete_refines:
  assumes "Root cfg \<noteq> []"
  shows "simulates (Delete cfg key out pre validate ignoreReadError)
           (spec_delete cfg key out pre validate ignoreReadError)"
  unfolding Delete_def spec_delete_def
  by (intro sim_keyPath sim_read assms)
    (auto simp: attempt_decode Let_def deleted_out_def intro!: sim_intros assms split: sum.splits)

text \<open>The second half of a create or an update.\<close>

lemma sim_commit:
  assumes "object_path p"
  shows "simulates
    (sbind (encode cfg obj) (\<lambda>data.
     sbind (map_err OsErr (atomicWrite p data)) (\<lambda>_.
     sbind (decodeOut cfg data out) (\<lambda>out.
     sbind (publishEvent \<lparr>ev_rv = rv, ev_type = et, ev_obj = obj\<rparr>) (\<lambda>_. ret out)))))
    (spec_commit cfg p et out rv obj)"
  unfolding spec_commit_def by (intro sim_intros assms)

theorem GuaranteedUpdate_refines:
  assumes "Root cfg \<noteq> []"
  shows "simulates (GuaranteedUpdate cfg key destination ignoreNotFound pre tryUpdate)
           (spec_update cfg key destination ignoreNotFound pre tryUpdate)"
  unfolding GuaranteedUpdate_def spec_update_def
proof (intro sim_keyPath sim_read assms, goal_cases)
  case (2 p d)
  then show ?case
    by (auto simp: sbind_monad Let_def intro!: sim_intros sim_commit assms)
next
  case (3 p)
  then show ?case
    by (auto simp: sbind_monad Let_def intro!: sim_intros sim_commit assms)
qed (simp_all add: sbind_monad)

text \<open>
  \<open>Create\<close> takes any entry at the object's path for the object, so it implements the
  specification where no directory has the name of the object's file.
\<close>

definition create_body :: "'o config \<Rightarrow> path \<Rightarrow> 'o \<Rightarrow> 'o option \<Rightarrow> ('o, 'o option) store_op" where
  "create_body cfg p obj out =
     (if \<not> accessor_ok cfg obj then throw AccessorErr
      else sbind (if get_uid cfg obj = [] then sbind generateUID (\<lambda>u. ret (set_uid cfg obj u)) else ret obj)
        (\<lambda>obj. sbind (nextRV cfg) (\<lambda>rv. sbind (stampRV cfg obj rv) (\<lambda>obj.
         sbind (encode cfg obj) (\<lambda>data.
         sbind (map_err OsErr (atomicWrite p data)) (\<lambda>_.
         sbind (decodeOut cfg data out) (\<lambda>out.
         sbind (publishEvent \<lparr>ev_rv = rv, ev_type = Added, ev_obj = obj\<rparr>) (\<lambda>_. ret out))))))))"

definition spec_create_body :: "'o config \<Rightarrow> path \<Rightarrow> 'o \<Rightarrow> 'o option \<Rightarrow> ('o, 'o option) spec_op" where
  "spec_create_body cfg p obj out =
     (if \<not> accessor_ok cfg obj then throw AccessorErr
      else sbind (if get_uid cfg obj = [] then sbind spec_uid (\<lambda>u. ret (set_uid cfg obj u)) else ret obj)
        (\<lambda>obj. sbind spec_rv (\<lambda>rv.
         sbind (of_sum (map_sum VersionerErr id (update_object cfg obj rv))) (\<lambda>obj.
         spec_commit cfg p Added out rv obj))))"

lemma sim_create_body:
  "Root cfg \<noteq> [] \<Longrightarrow> object_path p \<Longrightarrow>
    simulates (create_body cfg p obj out) (spec_create_body cfg p obj out)"
  unfolding create_body_def spec_create_body_def by (intro sim_intros sim_commit)

lemma Create_body:
  "Create cfg key obj out = sbind (keyPath cfg key) (\<lambda>p. sbind (attempt (os_stat p)) (\<lambda>st. case st of
     Inr _ \<Rightarrow> throw (KeyExists key)
   | Inl e \<Rightarrow> if e \<noteq> ENOENT then throw (OsErr e) else create_body cfg p obj out))"
  by (simp only: Create_def create_body_def)

lemma spec_create_body:
  "spec_create cfg key obj out = sbind (\<lambda>v. (key_path cfg (v_cwd v) key, v)) (\<lambda>p.
     sbind (gets (\<lambda>v. v_objs v p)) (\<lambda>x. case x of
       Some _ \<Rightarrow> throw (KeyExists key) | None \<Rightarrow> spec_create_body cfg p obj out))"
  by (simp only: spec_create_def spec_create_body_def)

theorem Create_refines:
  assumes root: "Root cfg \<noteq> []" and s: "steady s"
    and nodir: "\<And>p. key_path cfg (fs_cwd s) key = Inr p \<Longrightarrow> \<not> dir_at (fs_root s) p"
    and run: "Create cfg key obj out s = (r, t)"
  shows "steady t \<and> ((\<exists>e. r = Inl (OsErr e)) \<or> spec_create cfg key obj out (view_of s) = (r, view_of t))"
proof (cases "key_path cfg (fs_cwd s) key")
  case (Inl e)
  with run s show ?thesis by (auto simp: Create_body spec_create_body keyPath_key_path)
next
  case (Inr p)
  then have k: "keyPath cfg key s = (Inr p, s)" by (simp add: keyPath_key_path)
  with keyPath_Inr root have p: "object_path p" by blast
  obtain q u where q: "os_stat p s = (q, u)" by fastforce
  have u: "steady u" using preservesD [OF preserves_steady(1) s q] .
  note v = stat_same_view [OF q]
  show ?thesis
  proof (cases q)
    case (Inr n)
    with os_stat_Inr [of p s n u] q nodir [OF \<open>key_path _ _ _ = Inr p\<close>] p obtain d
      where "objects s p = Some d" by (auto simp: objects_def)
    with run k q Inr u v \<open>key_path _ _ _ = Inr p\<close> show ?thesis
      by (auto simp: Create_body spec_create_body)
  next
    case (Inl e)
    show ?thesis
    proof (cases "e = ENOENT")
      case True
      with q Inl s have "objects s p = None" by (simp add: objects_def os_stat_ENOENT)
      then have "spec_create cfg key obj out (view_of s) = spec_create_body cfg p obj out (view_of u)"
        using \<open>key_path _ _ _ = Inr p\<close> v by (simp add: spec_create_body)
      moreover have "create_body cfg p obj out u = (r, t)"
        using run k q Inl True by (simp add: Create_body)
      ultimately show ?thesis using simulatesD [OF sim_create_body [OF root p] u] by simp
    next
      case False
      with run k q Inl u show ?thesis by (auto simp: Create_body)
    qed
  qed
qed

end
