(* ===== verification/Store_Laws.thy ===== *)
theory Store_Laws
  imports Store_Spec
begin

text \<open>
  What every operation of the store keeps, whatever fails: an interface for invariants of single
  operations with its instances (the tree stays well formed, files of other objects stay as they
  are, the counter's file stays ahead of every version handed out), the shape of an operation
  (at most one version drawn, at most one event published, with that version), and the history
  of a process: a sequence of requests under arbitrary faults from the start of the store.
\<close>

section \<open>Requests\<close>

text \<open>The requests the generic registry issues on the store, with their arguments.\<close>

datatype 'o request =
    ReqCreate string 'o "'o option"
  | ReqGet string bool 'o
  | ReqDelete string "'o option" "string \<Rightarrow> 'o \<Rightarrow> string + unit" "('o \<Rightarrow> string + unit) option" bool
  | ReqUpdate string "'o option" bool "string \<Rightarrow> 'o \<Rightarrow> string + unit" "'o update_func"

fun req_key :: "'o request \<Rightarrow> string" where
  "req_key (ReqCreate key obj out) = key"
| "req_key (ReqGet key ign ptr) = key"
| "req_key (ReqDelete key out pre val ign) = key"
| "req_key (ReqUpdate key dst ign pre upd) = key"

fun exec :: "'o config \<Rightarrow> 'o request \<Rightarrow> ('o, 'o option) store_op" where
  "exec cfg (ReqCreate key obj out) = Create cfg key obj out"
| "exec cfg (ReqGet key ign ptr) = sbind (Get cfg key ign ptr) (\<lambda>x. ret (Some x))"
| "exec cfg (ReqDelete key out pre val ign) = Delete cfg key out pre val ign"
| "exec cfg (ReqUpdate key dst ign pre upd) = GuaranteedUpdate cfg key dst ign pre upd"

fun spec_exec :: "'o config \<Rightarrow> 'o request \<Rightarrow> ('o, 'o option) spec_op" where
  "spec_exec cfg (ReqCreate key obj out) = spec_create cfg key obj out"
| "spec_exec cfg (ReqGet key ign ptr) = sbind (spec_get cfg key ign ptr) (\<lambda>x. ret (Some x))"
| "spec_exec cfg (ReqDelete key out pre val ign) = spec_delete cfg key out pre val ign"
| "spec_exec cfg (ReqUpdate key dst ign pre upd) = spec_update cfg key dst ign pre upd"

lemma exec_refines:
  assumes "Root cfg \<noteq> []" and "steady s"
    and "\<And>p. key_path cfg (fs_cwd s) (req_key req) = Inr p \<Longrightarrow> \<not> dir_at (fs_root s) p"
    and "exec cfg req s = (r, t)"
  shows "(\<exists>e. r = Inl (OsErr e)) \<or> spec_exec cfg req (view_of s) = (r, view_of t)"
proof (cases req)
  case (ReqCreate key obj out)
  with Create_refines [OF assms(1,2), of key obj out r t] assms(3,4) show ?thesis by simp
next
  case (ReqGet key ign ptr)
  have "simulates (exec cfg req) (spec_exec cfg req)"
    using ReqGet by (simp add: sim_sbind [OF Get_refines [OF assms(1)]] sim_basic)
  from simulatesD [OF this assms(2,4)] show ?thesis by simp
next
  case (ReqDelete key out pre val ign)
  with simulatesD [OF Delete_refines [OF assms(1)] assms(2)] assms(4) show ?thesis by simp
next
  case (ReqUpdate key dst ign pre upd)
  with simulatesD [OF GuaranteedUpdate_refines [OF assms(1)] assms(2)] assms(4) show ?thesis by simp
qed

section \<open>Invariants of an operation\<close>

text \<open>
  An invariant of the calls the operations make is an invariant of the operations. \<open>ok\<close> says
  which object files may be written.
\<close>

locale store_invariant =
  fixes cfg :: "'o config" and I :: "'o sstate \<Rightarrow> bool" and ok :: "path \<Rightarrow> bool"
  assumes inv_stat: "preserves I (os_stat p)"
    and inv_read: "preserves I (os_read_file p)"
    and inv_write: "ok p \<Longrightarrow> codec_encode cfg obj = Inr d \<Longrightarrow> preserves I (atomicWrite p d)"
    and inv_remove: "ok p \<Longrightarrow> preserves I (os_remove p)"
    and inv_next: "preserves I (counter_Next (Root cfg))"
    and inv_uid: "preserves I generateUID"
    and inv_publish: "preserves I (publishEvent ev)"
begin

lemma inv_keyPath:
  assumes "\<And>s p. I s \<Longrightarrow> key_path cfg (fs_cwd s) key = Inr p \<Longrightarrow> ok p"
    and "\<And>p. ok p \<Longrightarrow> preserves I (f p)"
  shows "preserves I (sbind (keyPath cfg key) f)"
proof (rule preservesI)
  fix s assume "I s"
  then show "I (snd (sbind (keyPath cfg key) f s))"
    using assms by (cases "key_path cfg (fs_cwd s) key")
      (auto simp: sbind_def keyPath_key_path preserves_def)
qed

lemma inv_helpers:
  "preserves I (encode cfg obj)" "preserves I (decodeInto cfg data obj)"
  "preserves I (decodeFresh cfg data)" "preserves I (decodeOut cfg data out)"
  "preserves I (stampRV cfg obj rv)" "preserves I (nextRV cfg)"
  "preserves I (fillUID cfg existed cur obj)"
  unfolding encode_def decodeFresh_def decodeInto_def decodeOut_def stampRV_def nextRV_def fillUID_def
  by (intro preserves_intros inv_next inv_uid)+

lemma inv_encode:
  "(\<And>d. codec_encode cfg obj = Inr d \<Longrightarrow> preserves I (f d)) \<Longrightarrow> preserves I (sbind (encode cfg obj) f)"
  by (cases "codec_encode cfg obj") (auto simp: preserves_def encode_def sbind_def map_err_def)

lemmas inv_rules = inv_encode preserves_intros inv_helpers inv_stat inv_read inv_write inv_remove inv_uid
  inv_publish

lemma op_inv:
  assumes "\<And>s p. I s \<Longrightarrow> key_path cfg (fs_cwd s) key = Inr p \<Longrightarrow> ok p"
  shows "preserves I (Create cfg key obj out)" "preserves I (Get cfg key ign ptr)"
    "preserves I (Delete cfg key out pre val ign)"
    "preserves I (GuaranteedUpdate cfg key dst ign pre upd)"
  unfolding Create_def Get_def Delete_def GuaranteedUpdate_def Let_def
  by (rule inv_keyPath [OF assms], assumption, assumption, (intro inv_rules; assumption))+

lemma exec_inv:
  assumes "\<And>s p. I s \<Longrightarrow> key_path cfg (fs_cwd s) (req_key req) = Inr p \<Longrightarrow> ok p"
  shows "preserves I (exec cfg req)"
  using assms by (cases req) (auto intro!: op_inv preserves_sbind preserves_basic)

end

text \<open>The two steps in memory do not touch the disk.\<close>

lemma memory_frame [frame_simps]:
  "fs_root (snd (generateUID s)) = fs_root s" "fs_cwd (snd (generateUID s)) = fs_cwd s"
  "c_rv (snd (generateUID s)) = c_rv s" "s_bc (snd (generateUID s)) = s_bc s"
  "fs_root (snd (publishEvent ev s)) = fs_root s" "fs_cwd (snd (publishEvent ev s)) = fs_cwd s"
  "c_rv (snd (publishEvent ev s)) = c_rv s"
  "s_bc (snd (publishEvent ev s)) = snd (publish ev (s_bc s))"
  by (simp_all add: generateUID_def publishEvent_def sbind_def split: prod.splits)

lemma preserves_memory:
  assumes "\<And>s t. fs_root t = fs_root s \<Longrightarrow> fs_cwd t = fs_cwd s \<Longrightarrow> c_rv t = c_rv s \<Longrightarrow> I s \<Longrightarrow> I t"
  shows "preserves I generateUID" "preserves I (publishEvent ev)"
  by (rule preservesI; erule assms [rotated 3]; simp add: memory_frame)+

interpretation wf: store_invariant cfg "\<lambda>s. wf_node (fs_root s)" "\<lambda>p. True"
  by unfold_locales (intro preserves_intros preserves_memory; simp)+

text \<open>
  The files an operation on the object file \<open>p\<close> may touch: the object's, the counter's, and their
  temporary files.
\<close>

definition touched :: "'o config \<Rightarrow> path \<Rightarrow> path \<Rightarrow> path set" where
  "touched cfg cwd p =
     {p, tmp_of p, counter_file (Root cfg) cwd, tmp_of (counter_file (Root cfg) cwd)}"

definition others_same :: "'o config \<Rightarrow> path \<Rightarrow> path \<Rightarrow> (path \<Rightarrow> bytes option) \<Rightarrow> 'o sstate \<Rightarrow> bool" where
  "others_same cfg cwd p F s \<longleftrightarrow> fs_cwd s = cwd \<and> agree_off (touched cfg cwd p) F s"

lemma preserves_cwd [preserves_intros]:
  "preserves (\<lambda>s. fs_cwd s = cwd) (os_stat p)" "preserves (\<lambda>s. fs_cwd s = cwd) (os_read_file p)"
  "preserves (\<lambda>s. fs_cwd s = cwd) (atomicWrite p d)" "preserves (\<lambda>s. fs_cwd s = cwd) (os_remove p)"
  by (simp_all add: preserves_def frame_simps)

lemma preserves_conj [preserves_intros]:
  "preserves P m \<Longrightarrow> preserves Q m \<Longrightarrow> preserves (\<lambda>s. P s \<and> Q s) m"
  by (simp add: preserves_def)

lemma Next_others:
  assumes "others_same cfg cwd p F s" and "counter_Next (Root cfg) s = (r, t)"
  shows "others_same cfg cwd p F t"
proof (cases r)
  case (Inl e)
  with assms counter_Next_Inl [of "Root cfg" s e t] show ?thesis
    by (auto simp: others_same_def agree_off_def touched_def)
next
  case (Inr v)
  with assms counter_Next_Inr [of "Root cfg" s v t] show ?thesis
    by (auto simp: others_same_def agree_off_def touched_def)
qed

interpretation iso: store_invariant cfg "others_same cfg cwd p F" "\<lambda>q. q = p"
proof unfold_locales
  fix q :: path and d
  show "preserves (others_same cfg cwd p F) (os_stat q)"
    "preserves (others_same cfg cwd p F) (os_read_file q)"
    unfolding others_same_def by (intro preserves_intros)+
  show "q = p \<Longrightarrow> preserves (others_same cfg cwd p F) (atomicWrite q d)"
    "q = p \<Longrightarrow> preserves (others_same cfg cwd p F) (os_remove q)"
    unfolding others_same_def by (intro preserves_intros; simp add: touched_def)+
  show "preserves (others_same cfg cwd p F) (counter_Next (Root cfg))"
    by (rule preservesI) (metis Next_others prod.collapse)
  show "preserves (others_same cfg cwd p F) generateUID"
    "\<And>ev. preserves (others_same cfg cwd p F) (publishEvent ev)"
    by (rule preserves_memory; simp add: others_same_def agree_off_def)+
qed

text \<open>
  No object file is ever torn: it holds what it held before, or a complete encoding, or it is gone.
\<close>

definition intact :: "'o config \<Rightarrow> (path \<Rightarrow> bytes option) \<Rightarrow> 'o sstate \<Rightarrow> bool" where
  "intact cfg F s \<longleftrightarrow>
     (\<forall>p. object_path p \<longrightarrow>
        files s p = F p \<or> files s p = None \<or> (\<exists>obj d. codec_encode cfg obj = Inr d \<and> files s p = Some d))"

interpretation whole: store_invariant cfg "\<lambda>s. Root cfg \<noteq> [] \<and> intact cfg F s" object_path
proof unfold_locales
  let ?I = "\<lambda>s. Root cfg \<noteq> [] \<and> intact cfg F s"
  have same: "?I t" if "?I s" "\<And>p. object_path p \<Longrightarrow> files t p = files s p" for s t
    using that by (auto simp: intact_def)
  fix q :: path and d obj
  show "preserves ?I (os_stat q)" "preserves ?I (os_read_file q)"
    by (rule preservesI, erule same, metis os_query_root prod.collapse)+
  show "preserves ?I (atomicWrite q d)" if "object_path q" and "codec_encode cfg obj = Inr d"
  proof (rule preservesI)
    fix s assume s: "?I s"
    obtain r t where w: "atomicWrite q d s = (r, t)" by fastforce
    have "files t p = files s p \<or> p = q \<and> files t p = Some d" if "object_path p" for p
      using w that atomicWrite_Inr [of q d s _ t] atomicWrite_Inl [of q d s _ t p]
      by (cases r) auto
    then have "intact cfg F t" using s that unfolding intact_def by metis
    with s w show "?I (snd (atomicWrite q d s))" by simp
  qed
  show "preserves ?I (os_remove q)" if "object_path q"
  proof (rule preservesI)
    fix s assume s: "?I s"
    obtain r t where w: "os_remove q s = (r, t)" by fastforce
    have "files t p = files s p \<or> files t p = None" for p
      using w os_remove_Inr [of q s _ t] os_remove_Inl [of q s _ t] by (cases r) auto
    then have "intact cfg F t" using s unfolding intact_def by metis
    with s w show "?I (snd (os_remove q s))" by simp
  qed
  show "preserves ?I (counter_Next (Root cfg))"
  proof (rule preservesI)
    fix s assume s: "?I s"
    obtain r t where w: "counter_Next (Root cfg) s = (r, t)" by fastforce
    have "files t p = files s p" if "object_path p" for p
      using w s that counter_Next_Inr(5) [of "Root cfg" s _ t] counter_Next_Inl(4) [of "Root cfg" s _ t p]
      by (cases r) auto
    with s w same [of s t] show "?I (snd (counter_Next (Root cfg) s))" by simp
  qed
  show "preserves ?I generateUID" "\<And>ev. preserves ?I (publishEvent ev)"
    by (rule preserves_memory; simp add: intact_def)+
qed

text \<open>
  The counter's file is never behind: a restart would load the counter's value (or 1, the first
  value, if the counter ever wrapped to 0).
\<close>

definition persisted :: "string \<Rightarrow> 'x cstate_scheme \<Rightarrow> bool" where
  "persisted root s \<longleftrightarrow> stored_rv root s = Inr (max 1 (c_rv s))"

lemma Next_persisted:
  assumes "persisted root s" and "counter_Next root s = (r, t)"
  shows "persisted root t"
proof (cases r)
  case (Inl e)
  with assms counter_Next_Inl [of root s e t] show ?thesis
    by (simp add: persisted_def stored_rv_def)
next
  case (Inr v)
  moreover have "max 1 v = (if v < 1 then 1 else v)"
    unfolding max_def by (metis linorder_not_less)
  ultimately show ?thesis using assms counter_Next_Inr [of root s v t]
    by (simp add: persisted_def stored_rv_def)
qed

lemma persisted_files:
  assumes "persisted root s" and "fs_cwd t = fs_cwd s" and "c_rv t = c_rv s"
    and "files t (counter_file root (fs_cwd s)) = files s (counter_file root (fs_cwd s))"
  shows "persisted root t"
  using assms by (simp add: persisted_def stored_rv_def)

lemma os_call_rv:
  "atomicWrite p d s = (r, t) \<Longrightarrow> c_rv (t :: 'x cstate_scheme) = c_rv s"
  "os_remove p s = (r, t) \<Longrightarrow> c_rv (t :: 'x cstate_scheme) = c_rv s"
  "os_read_file p s = (r', t) \<Longrightarrow> c_rv (t :: 'x cstate_scheme) = c_rv s"
  "os_stat p s = (r'', t) \<Longrightarrow> c_rv (t :: 'x cstate_scheme) = c_rv s"
  using os_call_same c_rv_more by blast+

lemma counter_file_neq:
  assumes "root \<noteq> []"
  shows "counter_file root cwd \<noteq> tmp_of p"
proof -
  have "last (counter_file root cwd) = ''.rv''"
    using join_path_snoc [of root "''.rv''" cwd "[]"] assms by (simp add: counter_file_def plain_seg_def)
  moreover have "last (tmp_of p) = last p @ ''.tmp''" by (simp add: tmp_of_def)
  ultimately show ?thesis by (auto simp: Cons_eq_append_conv)
qed

interpretation durable: store_invariant cfg "\<lambda>s. Root cfg \<noteq> [] \<and> persisted (Root cfg) s" object_path
proof unfold_locales
  let ?I = "\<lambda>s :: 'o sstate. Root cfg \<noteq> [] \<and> persisted (Root cfg) s"
  fix q :: path and d
  show "preserves ?I (os_stat q)" "preserves ?I (os_read_file q)"
    by (rule preservesI, metis persisted_files os_call_same os_call_rv os_query_root prod.collapse)+
  { assume q: "object_path q"
    show "preserves ?I (atomicWrite q d)"
    proof (rule preservesI)
      fix s assume s: "?I s"
      obtain r t where w: "atomicWrite q d s = (r, t)" by fastforce
      have "files t (counter_file (Root cfg) (fs_cwd s)) = files s (counter_file (Root cfg) (fs_cwd s))"
        using w s q atomicWrite_Inr [of q d s _ t] atomicWrite_Inl [of q d s _ t]
          counter_file_neq [of "Root cfg" "fs_cwd s" q] object_path_neq(2) [of "Root cfg" q "fs_cwd s"]
        by (cases r) auto
      with s w os_call_same(1) [OF w] os_call_rv(1) [OF w] show "?I (snd (atomicWrite q d s))"
        by (auto intro: persisted_files)
    qed
    show "preserves ?I (os_remove q)"
    proof (rule preservesI)
      fix s assume s: "?I s"
      obtain r t where w: "os_remove q s = (r, t)" by fastforce
      have "files t (counter_file (Root cfg) (fs_cwd s)) = files s (counter_file (Root cfg) (fs_cwd s))"
        using w s q os_remove_Inr [of q s _ t] os_remove_Inl [of q s _ t]
          object_path_neq(2) [of "Root cfg" q "fs_cwd s"]
        by (cases r) auto
      with s w os_call_same(2) [OF w] os_call_rv(2) [OF w] show "?I (snd (os_remove q s))"
        by (auto intro: persisted_files)
    qed }
  show "preserves ?I (counter_Next (Root cfg))"
    by (rule preservesI) (metis Next_persisted prod.collapse)
  show "preserves ?I generateUID" "\<And>ev. preserves ?I (publishEvent ev)"
    by (rule preserves_memory; simp add: persisted_def stored_rv_def)+
qed

section \<open>One version, one event\<close>

text \<open>
  A computation is quiet if it draws no version and publishes nothing; it finishes version \<open>rv\<close> if
  it publishes at most one event and that event carries \<open>rv\<close>; it evolves the store if it draws at
  most one version and then finishes it.
\<close>

definition quiet :: "('o sstate, 'e, 'a) sem \<Rightarrow> bool" where
  "quiet m \<longleftrightarrow> (\<forall>s. c_rv (snd (m s)) = c_rv s \<and> s_bc (snd (m s)) = s_bc s)"

definition settled :: "u64 \<Rightarrow> 'o sstate \<Rightarrow> 'o sstate \<Rightarrow> bool" where
  "settled rv s t \<longleftrightarrow> c_rv t = c_rv s \<and>
     (s_bc t = s_bc s \<or> (\<exists>et obj. s_bc t = snd (publish \<lparr>ev_rv = rv, ev_type = et, ev_obj = obj\<rparr> (s_bc s))))"

definition finishes :: "u64 \<Rightarrow> ('o sstate, 'e, 'a) sem \<Rightarrow> bool" where
  "finishes rv m \<longleftrightarrow> (\<forall>s. settled rv s (snd (m s)))"

definition evolved :: "'o sstate \<Rightarrow> 'o sstate \<Rightarrow> bool" where
  "evolved s t \<longleftrightarrow> c_rv t = c_rv s \<and> s_bc t = s_bc s \<or>
     c_rv t = c_rv s + 1 \<and>
     (s_bc t = s_bc s \<or> (\<exists>et obj. s_bc t = snd (publish \<lparr>ev_rv = c_rv t, ev_type = et, ev_obj = obj\<rparr> (s_bc s))))"

definition evolves :: "('o sstate, 'e, 'a) sem \<Rightarrow> bool" where
  "evolves m \<longleftrightarrow> (\<forall>s. evolved s (snd (m s)))"

named_theorems evolve_intros \<open>computations that draw no version and publish nothing\<close>

lemma start_same:
  assumes "c_rv u = c_rv s" and "s_bc u = s_bc s"
  shows "settled rv u t \<Longrightarrow> settled rv s t" "evolved u t \<Longrightarrow> evolved s t"
  using assms by (simp_all only: settled_def evolved_def)

lemma quiet_sbind [evolve_intros]: "quiet m \<Longrightarrow> (\<And>a. quiet (f a)) \<Longrightarrow> quiet (sbind m f)"
  by (simp add: quiet_def sbind_def split: prod.splits sum.splits) (metis snd_conv)

lemma quiet_basic [evolve_intros]:
  "quiet (ret a)" "quiet (throw e)" "quiet (of_sum x)" "quiet (gets g)"
  "quiet m \<Longrightarrow> quiet (attempt m)" "quiet m' \<Longrightarrow> quiet (map_err h m')"
  by (simp_all add: quiet_def attempt_def)

lemma quiet_os [evolve_intros]:
  "quiet (os_stat p)" "quiet (os_read_file p)" "quiet (atomicWrite p d)" "quiet (os_remove p)"
proof -
  have more: "c_rv t = c_rv s \<and> s_bc t = s_bc s" if "fs_state.more t = fs_state.more s"
    for s t :: "'o sstate"
    using that by (cases s; cases t) simp
  show "quiet (os_stat p)" "quiet (os_read_file p)" "quiet (atomicWrite p d)" "quiet (os_remove p)"
    unfolding quiet_def using os_call_same more by (metis prod.collapse)+
qed

lemma quiet_helpers [evolve_intros]:
  "quiet generateUID" "quiet (encode cfg obj)" "quiet (decodeInto cfg data obj)"
  "quiet (decodeFresh cfg data)" "quiet (decodeOut cfg data out)" "quiet (stampRV cfg obj rv)"
  "quiet (keyPath cfg key)" "quiet (fillUID cfg existed cur obj)"
proof -
  show u: "quiet generateUID" by (simp add: quiet_def memory_frame)
  show "quiet (encode cfg obj)" "quiet (decodeInto cfg data obj)" "quiet (stampRV cfg obj rv)"
    "quiet (decodeFresh cfg data)" "quiet (decodeOut cfg data out)"
    unfolding encode_def decodeInto_def decodeFresh_def decodeOut_def stampRV_def
    by (auto intro!: evolve_intros split: option.splits)
  show "quiet (keyPath cfg key)" by (simp add: quiet_def keyPath_key_path)
  show "quiet (fillUID cfg existed cur obj)"
    unfolding fillUID_def using u by (auto intro!: evolve_intros)
qed

lemma quiet_finishes: "quiet m \<Longrightarrow> finishes rv m"
  by (simp add: quiet_def finishes_def settled_def)

lemma finishes_sbind:
  assumes "quiet m" and "\<And>a. finishes rv (f a)"
  shows "finishes rv (sbind m f)"
  unfolding finishes_def
proof
  fix s
  obtain q u where q: "m s = (q, u)" by fastforce
  with assms(1) have "c_rv u = c_rv s" "s_bc u = s_bc s" unfolding quiet_def by (metis snd_conv)+
  with q assms(2) show "settled rv s (snd (sbind m f s))"
    by (cases q) (auto simp: finishes_def intro: start_same, simp add: settled_def)
qed

lemma finishes_publish:
  assumes "\<And>a. quiet (f a)"
  shows "finishes rv (sbind (publishEvent \<lparr>ev_rv = rv, ev_type = et, ev_obj = obj\<rparr>) f)"
  unfolding finishes_def
proof
  fix s
  let ?ev = "\<lparr>ev_rv = rv, ev_type = et, ev_obj = obj\<rparr>"
  obtain q u where q: "publishEvent ?ev s = (q, u)" by fastforce
  then have "c_rv u = c_rv s" "s_bc u = snd (publish ?ev (s_bc s))"
    using memory_frame(7,8) [of ?ev s] by simp_all
  with q assms show "settled rv s (snd (sbind (publishEvent ?ev) f s))"
    by (cases q) (auto simp: settled_def quiet_def)
qed

lemma quiet_evolves: "quiet m \<Longrightarrow> evolves m"
  by (simp add: quiet_def evolves_def evolved_def)

lemma evolves_sbind:
  assumes "quiet m" and "\<And>a. evolves (f a)"
  shows "evolves (sbind m f)"
  unfolding evolves_def
proof
  fix s
  obtain q u where q: "m s = (q, u)" by fastforce
  with assms(1) have "c_rv u = c_rv s" "s_bc u = s_bc s" unfolding quiet_def by (metis snd_conv)+
  with q assms(2) show "evolved s (snd (sbind m f s))"
    by (cases q) (auto simp: evolves_def intro: start_same, simp add: evolved_def)
qed

lemma evolves_next:
  fixes f :: "u64 \<Rightarrow> ('o, 'a) store_op"
  assumes "\<And>rv. finishes rv (f rv)"
  shows "evolves (sbind (nextRV cfg) f)"
  unfolding evolves_def
proof
  fix s :: "'o sstate"
  obtain q u where q: "counter_Next (Root cfg) s = (q, u)" by fastforce
  have bc: "s_bc u = s_bc s" if "cstate.more u = cstate.more s"
    using that by (cases s; cases u) simp
  show "evolved s (snd (sbind (nextRV cfg) f s))"
  proof (cases q)
    case (Inl e)
    with q have "nextRV cfg s = (Inl (OsErr e), u)" by (simp add: nextRV_def)
    with counter_Next_Inl [of "Root cfg" s e u] q Inl bc show ?thesis by (simp add: evolved_def)
  next
    case (Inr v)
    with q have "nextRV cfg s = (Inr v, u)" by (simp add: nextRV_def)
    moreover have "settled v u (snd (f v u))" using assms by (simp add: finishes_def)
    moreover have "c_rv u = c_rv s + 1" "v = c_rv s + 1" "s_bc u = s_bc s"
      using counter_Next_Inr [of "Root cfg" s v u] q Inr bc by simp_all
    ultimately show ?thesis by (simp add: evolved_def settled_def)
  qed
qed

lemma evolve_case:
  "evolves m \<Longrightarrow> evolves n \<Longrightarrow> evolves (if b then m else n)"
  "quiet m1 \<Longrightarrow> quiet n1 \<Longrightarrow> quiet (if b then m1 else n1)"
  "(\<And>e. evolves (f e)) \<Longrightarrow> (\<And>a. evolves (g a)) \<Longrightarrow> evolves (case x of Inl e \<Rightarrow> f e | Inr a \<Rightarrow> g a)"
  "(\<And>e. quiet (f1 e)) \<Longrightarrow> (\<And>a. quiet (g1 a)) \<Longrightarrow> quiet (case x of Inl e \<Rightarrow> f1 e | Inr a \<Rightarrow> g1 a)"
  "quiet m2 \<Longrightarrow> (\<And>a. quiet (g2 a)) \<Longrightarrow> quiet (case z of None \<Rightarrow> m2 | Some a \<Rightarrow> g2 a)"
  "(\<And>a c. evolves (k a c)) \<Longrightarrow> evolves (case y of (a, c) \<Rightarrow> k a c)"
  by (cases x; cases y; cases z; simp)+

lemmas evolve_leaf = quiet_basic(1,2) [THEN quiet_evolves] quiet_helpers [THEN quiet_evolves]
  quiet_basic(1) [THEN quiet_finishes]

lemmas evolve_rules = evolves_next finishes_publish evolves_sbind finishes_sbind evolve_case evolve_leaf
  evolve_intros

text \<open>Every request evolves the store, whether it succeeds or fails.\<close>

lemma exec_evolves: "evolves (exec cfg req)"
proof (cases req)
  case (ReqCreate key obj out)
  then show ?thesis by (simp only: exec.simps Create_def) (intro evolve_rules)
next
  case (ReqGet key ign ptr)
  then show ?thesis by (simp only: exec.simps Get_def) (intro evolve_rules)
next
  case (ReqDelete key out pre val ign)
  then show ?thesis by (simp only: exec.simps Delete_def Let_def) (intro evolve_rules)
next
  case (ReqUpdate key dst ign pre upd)
  then show ?thesis by (simp only: exec.simps GuaranteedUpdate_def Let_def) (intro evolve_rules)
qed

section \<open>Histories\<close>

text \<open>
  A life of the store: it starts with \<open>New\<close> and serves requests one after the other, each under
  faults of its own. In between, the stores of other resources draw versions from the shared
  counter, and clients open, drain and stop watches, which leaves the ring alone. The log collects
  every event that entered the ring. A version counter that is about to wrap is excluded (that is
  \<open>2 ^ 64\<close> writes).
\<close>

definition new_events :: "'o broadcaster \<Rightarrow> 'o broadcaster \<Rightarrow> 'o event list" where
  "new_events b b' = (if b_ring b' = b_ring b then [] else [last (b_ring b')])"

inductive history :: "'o config \<Rightarrow> 'o event list \<Rightarrow> 'o sstate \<Rightarrow> bool" for cfg where
  started:
    "New cfg False s0 = (Inr (), s) \<Longrightarrow> steady s0 \<Longrightarrow> wf_node (fs_root s0) \<Longrightarrow> history cfg [] s"
| served:
    "history cfg log s \<Longrightarrow> c_rv s + 1 \<noteq> 0 \<Longrightarrow> exec cfg req (s\<lparr>fs_faults := faults\<rparr>) = (r, t) \<Longrightarrow>
     history cfg (log @ new_events (s_bc s) (s_bc t)) t"
| other_store:
    "history cfg log s \<Longrightarrow> c_rv s + 1 \<noteq> 0 \<Longrightarrow>
     counter_Next (Root cfg) (s\<lparr>fs_faults := faults\<rparr>) = (r', t) \<Longrightarrow> history cfg log t"
| clients:
    "history cfg log s \<Longrightarrow> b_ring b = b_ring (s_bc s) \<Longrightarrow> b_capacity b = b_capacity (s_bc s) \<Longrightarrow>
     history cfg log (s\<lparr>s_bc := b\<rparr>)"

definition log_ok :: "'o event list \<Rightarrow> 'o sstate \<Rightarrow> bool" where
  "log_ok log s \<longleftrightarrow>
     ring_holds log (s_bc s) \<and> rv_sorted log \<and> 1 \<le> c_rv s \<and>
     (\<forall>e \<in> set log. 1 < ev_rv e \<and> ev_rv e \<le> c_rv s)"

lemma less_inc:
  fixes w :: u64
  assumes "w + 1 \<noteq> 0"
  shows "w < w + 1"
proof -
  have "1 + w \<noteq> 0" using assms by (simp add: add.commute)
  then have "unat (w + 1) = Suc (unat w)" using unatSuc [of w] by (simp add: add.commute)
  then show ?thesis by (simp add: word_less_nat_alt)
qed

lemma evolved_log:
  assumes ok: "log_ok log s" and ev: "evolved s t" and nowrap: "c_rv s + 1 \<noteq> 0"
  shows "log_ok (log @ new_events (s_bc s) (s_bc t)) t"
proof (cases "s_bc t = s_bc s")
  case True
  have "c_rv s \<le> c_rv t" using ev less_inc [OF nowrap] by (auto simp: evolved_def)
  with ok True show ?thesis by (auto simp: log_ok_def new_events_def)
next
  case False
  with ev obtain et obj where rv: "c_rv t = c_rv s + 1"
    and bc: "s_bc t = snd (publish \<lparr>ev_rv = c_rv t, ev_type = et, ev_obj = obj\<rparr> (s_bc s))"
    by (auto simp: evolved_def)
  let ?e = "\<lparr>ev_rv = c_rv t, ev_type = et, ev_obj = obj\<rparr>"
  have lt: "c_rv s < c_rv t" using rv less_inc [OF nowrap] by simp
  have holds: "ring_holds (log @ [?e]) (s_bc t)"
    using ok blog.append_log [of log "s_bc s" ?e] by (simp add: bc log_ok_def)
  have "b_ring (s_bc t) \<noteq> [] \<and> last (b_ring (s_bc t)) = ?e"
    using holds by (auto simp: ring_holds_def last_events_def)
  moreover have "?e \<notin> set (b_ring (s_bc s))"
    using ok lt by (auto simp: log_ok_def ring_holds_def last_events_def dest!: in_set_dropD)
  ultimately have "new_events (s_bc s) (s_bc t) = [?e]"
    by (metis last_in_set new_events_def)
  with ok holds lt show ?thesis
    by (fastforce simp: log_ok_def sorted_wrt_append)
qed

lemma one_le: "w \<noteq> 0 \<Longrightarrow> 1 \<le> (w :: u64)"
  by (metis linorder_not_less word_less_1)

lemma New_ok:
  assumes "New cfg False s0 = (Inr (), s)" and "steady s0" and "wf_node (fs_root s0)"
  shows "Root cfg \<noteq> []" "log_ok [] s" "persisted (Root cfg) s" "wf_node (fs_root s)"
proof -
  let ?m = "os_mkdir_all (join_path (fs_cwd s0) [Root cfg]) :: ('a sstate, os_error, unit) sem"
  from assms(1) obtain s1 s2 where root: "Root cfg \<noteq> []" and 1: "?m s0 = (Inr (), s1)"
    and 2: "NewCounter (Root cfg) s1 = (Inr (), s2)" and s: "s = s2\<lparr>s_bc := newBroadcaster 1000\<rparr>"
    by (auto simp: New_def sbind_Inr_iff split: if_splits)
  have st: "steady s1" using preservesD [OF preserves_steady(3) assms(2) 1] .
  have wf: "wf_node (fs_root s1)" using preservesD [OF preserves_wf(3) assms(3) 1] .
  let ?f = "counter_file (Root cfg) (fs_cwd s1)"
  obtain q u where q: "os_read_file ?f s1 = (q, u)" by fastforce
  have load: "stored_rv (Root cfg) s1 = Inr (c_rv s2)" and s2: "s2 = u\<lparr>c_rv := c_rv s2\<rparr>"
    using 2 q os_read_file_Inr [of ?f s1 _ u] os_read_file_ENOENT [of ?f s1 u] st
    by (auto simp: NewCounter_def counter_load_def stored_rv_def sbind_Inr_iff
        split: sum.split_asm if_splits)
  have cwd: "fs_cwd u = fs_cwd s1" "fs_root u = fs_root s1"
    using os_call_same(3) [OF q] os_query_root(2) [OF q] by simp_all
  with s2 have same: "fs_cwd s2 = fs_cwd s1" "fs_root s2 = fs_root s1" by (metis cstate.select_convs
    fs_state.select_convs cstate.surjective cstate.update_convs(1))+
  have ge: "1 \<le> c_rv s2"
    using load by (auto simp: stored_rv_def rv_of_bytes_def Let_def one_le
        split: option.splits sum.splits if_splits)
  from root show "Root cfg \<noteq> []" .
  show "log_ok [] s"
    using ge by (simp add: log_ok_def s ring_holds_def newBroadcaster_def last_events_def)
  show "persisted (Root cfg) s"
    using load ge same by (simp add: persisted_def stored_rv_def s max_def)
  show "wf_node (fs_root s)" using wf same by (simp add: s)
qed

lemma key_path_object: "key_path cfg cwd key = Inr p \<Longrightarrow> Root cfg \<noteq> [] \<Longrightarrow> object_path p"
  using parseKey_name_sep_free object_path_objectPath
  by (auto simp: key_path_def simp del: parseKey.simps split: sum.splits if_splits)

lemma exec_persisted:
  assumes "exec cfg req s = (r, t)" and "Root cfg \<noteq> []" and "persisted (Root cfg) s"
  shows "persisted (Root cfg) t"
proof -
  have "preserves (\<lambda>s. Root cfg \<noteq> [] \<and> persisted (Root cfg) s) (exec cfg req)"
    using assms(2) by (intro durable.exec_inv) (auto intro: key_path_object)
  from preservesD [OF this _ assms(1)] assms(2,3) show ?thesis by blast
qed

lemma exec_wf: "exec cfg req s = (r, t) \<Longrightarrow> wf_node (fs_root s) \<Longrightarrow> wf_node (fs_root t)"
  using preservesD [OF wf.exec_inv] by blast

lemma exec_evolved: "exec cfg req s = (r, t) \<Longrightarrow> evolved s t"
  using exec_evolves [of cfg req] unfolding evolves_def by (metis snd_conv)

lemma history_inv:
  "history cfg log s \<Longrightarrow>
    Root cfg \<noteq> [] \<and> log_ok log s \<and> persisted (Root cfg) s \<and> wf_node (fs_root s)"
proof (induction rule: history.induct)
  case (started s0 s)
  then show ?case using New_ok by blast
next
  case (served log s req faults r t)
  let ?s = "s\<lparr>fs_faults := faults\<rparr>"
  have "evolved s t" using exec_evolved [OF served(3)] by (simp add: evolved_def)
  moreover have "persisted (Root cfg) ?s" "wf_node (fs_root ?s)"
    using served by (simp_all add: persisted_def stored_rv_def)
  ultimately show ?case
    using served evolved_log exec_persisted [OF served(3)] exec_wf [OF served(3)] by blast
next
  case (other_store log s faults r t)
  let ?s = "s\<lparr>fs_faults := faults\<rparr>"
  have "persisted (Root cfg) ?s" "wf_node (fs_root ?s)"
    using other_store by (simp_all add: persisted_def stored_rv_def)
  then have keep: "persisted (Root cfg) t" "wf_node (fs_root t)"
    using Next_persisted [OF _ other_store(3)] preservesD [OF preserves_wf_Next _ other_store(3)] by blast+
  have "c_rv s \<le> c_rv t \<and> s_bc t = s_bc s"
  proof -
    have same: "s_bc t = s_bc s" if "cstate.more t = cstate.more ?s"
      using that by (cases s; cases t) simp
    show ?thesis
      using other_store(2,3) less_inc [of "c_rv s"] same
        counter_Next_Inr [of "Root cfg" ?s _ t] counter_Next_Inl [of "Root cfg" ?s _ t]
      by (cases r) auto
  qed
  then have "log_ok log t" using other_store(4) by (auto simp: log_ok_def)
  with other_store(4) keep show ?case by simp
next
  case (clients log s b)
  then show ?case by (simp add: log_ok_def ring_holds_def persisted_def stored_rv_def)
qed

end
