(* ===== verification/Store_Objects.thy ===== *)
theory Store_Objects
  imports Store_Laws
begin

text \<open>
  What a client of the object operations sees: the outcome of every operation in terms of the
  objects before and after it, read off the specification the operations implement, and the
  round trips between operations (create, update or delete, then get).
\<close>

section \<open>Outcomes\<close>

definition stamped_uid :: "'o config \<Rightarrow> 'o sstate \<Rightarrow> 'o \<Rightarrow> 'o" where
  "stamped_uid cfg s obj =
     (if get_uid cfg obj = [] then set_uid cfg obj (''fsstorage-uid-'' @ format_uint (s_uid s + 1))
      else obj)"

lemma spec_commit_Inr:
  assumes "spec_commit cfg p et out rv obj v = (Inr x, w)"
  obtains data where "codec_encode cfg obj = Inr data"
    "v_objs w = (v_objs v)(p \<mapsto> data)" "v_rv w = v_rv v"
    "v_bc w = snd (publish \<lparr>ev_rv = rv, ev_type = et, ev_obj = obj\<rparr> (v_bc v))"
    "fst (publish \<lparr>ev_rv = rv, ev_type = et, ev_obj = obj\<rparr> (v_bc v)) = Inr ()"
proof -
  obtain r b where "publish \<lparr>ev_rv = rv, ev_type = et, ev_obj = obj\<rparr> (v_bc v) = (r, b)" by fastforce
  with assms that show thesis
    by (auto simp: spec_commit_def spec_put_def spec_out_def spec_publish_def sbind_Inr_iff)
qed

text \<open>A successful create: the path was free, and now holds the stamped object.\<close>

lemma Create_Inr:
  assumes "Root cfg \<noteq> []" and "steady s"
    and "\<And>p. key_path cfg (fs_cwd s) key = Inr p \<Longrightarrow> \<not> dir_at (fs_root s) p"
    and "Create cfg key obj out s = (Inr x, t)"
  obtains p obj' data where "key_path cfg (fs_cwd s) key = Inr p" "object_path p" "files s p = None"
    "update_object cfg (stamped_uid cfg s obj) (c_rv s + 1) = Inr obj'"
    "codec_encode cfg obj' = Inr data" "files t p = Some data" "c_rv t = c_rv s + 1"
    "s_bc t = snd (publish \<lparr>ev_rv = c_rv s + 1, ev_type = Added, ev_obj = obj'\<rparr> (s_bc s))"
proof -
  from Create_refines [OF assms] have run: "spec_create cfg key obj out (view_of s) = (Inr x, view_of t)"
    by auto
  then obtain p where p: "key_path cfg (fs_cwd s) key = Inr p" and free: "objects s p = None"
    and body: "spec_create_body cfg p obj out (view_of s) = (Inr x, view_of t)"
    by (auto simp: spec_create_body sbind_Inr_iff split: option.splits)
  have op: "object_path p" using keyPath_Inr [of cfg key s p s] p assms(1) by (simp add: keyPath_key_path)
  obtain v obj' where obj': "update_object cfg (stamped_uid cfg s obj) (c_rv s + 1) = Inr obj'"
    and v: "v_objs v = objects s" "v_rv v = c_rv s + 1" "v_bc v = s_bc s"
    and c: "spec_commit cfg p Added out (c_rv s + 1) obj' v = (Inr x, view_of t)"
    using body
    by (auto simp: spec_create_body_def spec_uid_def spec_rv_def sbind_Inr_iff stamped_uid_def
        split: if_splits intro!: that)
  from spec_commit_Inr [OF c] obtain data where "codec_encode cfg obj' = Inr data"
    "objects t = (objects s)(p \<mapsto> data)" "c_rv t = c_rv s + 1"
    "s_bc t = snd (publish \<lparr>ev_rv = c_rv s + 1, ev_type = Added, ev_obj = obj'\<rparr> (s_bc s))"
    using v by auto
  with that [of p obj' data] p op free obj' show thesis
    by (auto simp: objects_def fun_eq_iff split: if_splits)
qed

lemma Get_present:
  assumes "key_path cfg (fs_cwd t) key = Inr p" and "files t p = Some data" and "fs_faults t = []"
  shows "Get cfg key ign ptr t = (map_sum CodecErr id (codec_decode cfg data ptr), t)"
  using assms os_read_file_no_fault [of t p data]
  by (auto simp: Get_def keyPath_key_path decodeInto_def sbind_def attempt_def map_err_def
      split: sum.splits)

lemma Get_missing:
  assumes "key_path cfg (fs_cwd t) key = Inr p" and "node_at (fs_root t) p = Inl ENOENT"
    and "fs_faults t = []"
  shows "Get cfg key False ptr t = (Inl (KeyNotFound key), t)"
  using assms
  by (simp add: Get_def keyPath_key_path sbind_def attempt_def os_read_file_def query_no_fault)

lemma exec_cwd: "exec cfg req s = (r, t) \<Longrightarrow> fs_cwd t = fs_cwd s"
proof -
  assume e: "exec cfg req s = (r, t)"
  show "fs_cwd t = fs_cwd s"
  proof (cases "key_path cfg (fs_cwd s) (req_key req)")
    case (Inr p)
    let ?I = "others_same cfg (fs_cwd s) p (files s)"
    have "preserves ?I (exec cfg req)"
      using Inr by (intro iso.exec_inv) (auto simp: others_same_def)
    from preservesD [OF this _ e] show ?thesis by (simp add: others_same_def agree_off_def)
  next
    case (Inl x)
    then show ?thesis using e
      by (cases req) (auto simp: Create_def Get_def Delete_def GuaranteedUpdate_def keyPath_key_path sbind_def)
  qed
qed

text \<open>With no fault ahead the update runs as written; three of its early returns.\<close>

definition shown_rv :: "'o config \<Rightarrow> 'o \<Rightarrow> u64" where
  "shown_rv cfg cur = (case object_rv cfg cur of Inl _ \<Rightarrow> 0 | Inr v \<Rightarrow> v)"

lemma Update_missing:
  assumes "key_path cfg (fs_cwd s) key = Inr p" and "node_at (fs_root s) p = Inl ENOENT"
    and "fs_faults s = []"
  shows "GuaranteedUpdate cfg key dst False pre upd s = (Inl (KeyNotFound key), s)"
  using assms
  by (simp add: GuaranteedUpdate_def keyPath_key_path sbind_def attempt_def os_read_file_def query_no_fault)

lemma Update_new_rejected:
  assumes "key_path cfg (fs_cwd s) key = Inr p" and "node_at (fs_root s) p = Inl ENOENT"
    and "fs_faults s = []" and "upd (Newer cfg) 0 = Inl e"
  shows "GuaranteedUpdate cfg key dst True pre upd s = (Inl (Rejected e), s)"
  using assms
  by (simp add: GuaranteedUpdate_def keyPath_key_path sbind_def attempt_def os_read_file_def query_no_fault map_err_def)

lemma Update_rejected:
  assumes "key_path cfg (fs_cwd s) key = Inr p" and "files s p = Some data" and "fs_faults s = []"
    and "codec_decode cfg data (Newer cfg) = Inr cur"
    and "pre key cur = Inl e \<or> pre key cur = Inr () \<and> upd cur (shown_rv cfg cur) = Inl e"
  shows "GuaranteedUpdate cfg key dst ign pre upd s = (Inl (Rejected e), s)"
  using assms os_read_file_no_fault [of s p data]
  by (auto simp: GuaranteedUpdate_def keyPath_key_path sbind_def attempt_def decodeFresh_def
      decodeInto_def map_err_def shown_rv_def Let_def)

lemma Update_unchanged:
  assumes "key_path cfg (fs_cwd s) key = Inr p" and "files s p = Some data" and "fs_faults s = []"
    and "codec_decode cfg data (Newer cfg) = Inr cur" and "pre key cur = Inr ()"
    and "upd cur (shown_rv cfg cur) = Inr (new, cur')" and "codec_encode cfg new = Inr data"
  shows "GuaranteedUpdate cfg key dst ign pre upd s = (fst (decodeOut cfg data dst s), s)"
  using assms os_read_file_no_fault [of s p data]
  by (auto simp: GuaranteedUpdate_def keyPath_key_path sbind_def attempt_def decodeFresh_def
      decodeInto_def decodeOut_def encode_def map_err_def shown_rv_def Let_def
      split: option.splits sum.splits)

text \<open>
  A successful update of an object that exists, where the update function changed the bytes: the
  stored object is the function's result, stamped with the next version, with the current UID if
  it came without one.
\<close>

definition kept_uid :: "'o config \<Rightarrow> 'o \<Rightarrow> 'o \<Rightarrow> 'o" where
  "kept_uid cfg cur obj =
     (if accessor_ok cfg cur \<and> accessor_ok cfg obj \<and> get_uid cfg obj = []
      then set_uid cfg obj (get_uid cfg cur) else obj)"

lemma Update_Inr:
  assumes "Root cfg \<noteq> []" and "steady s" and "key_path cfg (fs_cwd s) key = Inr p"
    and "files s p = Some data" and "codec_decode cfg data (Newer cfg) = Inr cur"
    and "upd cur (shown_rv cfg cur) = Inr (new, cur')" and "codec_encode cfg new \<noteq> Inr data"
    and "GuaranteedUpdate cfg key dst ign pre upd s = (Inr x, t)"
  obtains obj data' where "pre key cur = Inr ()" "update_object cfg new (c_rv s + 1) = Inr obj"
    "codec_encode cfg (kept_uid cfg cur' obj) = Inr data'" "files t p = Some data'"
    "c_rv t = c_rv s + 1"
    "s_bc t = snd (publish \<lparr>ev_rv = c_rv s + 1, ev_type = Modified, ev_obj = kept_uid cfg cur' obj\<rparr> (s_bc s))"
proof -
  from simulatesD [OF GuaranteedUpdate_refines [OF assms(1)] assms(2,8)]
  have run: "spec_update cfg key dst ign pre upd (view_of s) = (Inr x, view_of t)" by auto
  have op: "object_path p" using keyPath_Inr [of cfg key s p s] assms(1,3) by (simp add: keyPath_key_path)
  then have o: "objects s p = Some data" using assms(4) by (simp add: objects_def)
  obtain obj v where obj: "update_object cfg new (c_rv s + 1) = Inr obj" and pre: "pre key cur = Inr ()"
    and v: "v_objs v = objects s" "v_rv v = c_rv s + 1" "v_bc v = s_bc s"
    and c: "spec_commit cfg p Modified dst (c_rv s + 1) (kept_uid cfg cur' obj) v = (Inr x, view_of t)"
    using run assms(3,5-7) o
    by (auto simp: spec_update_def spec_rv_def spec_fill_def kept_uid_def shown_rv_def Let_def
        sbind_Inr_iff split: if_splits intro!: that)
  from spec_commit_Inr [OF c] obtain data' where "codec_encode cfg (kept_uid cfg cur' obj) = Inr data'"
    "objects t = (objects s)(p \<mapsto> data')" "c_rv t = c_rv s + 1"
    "s_bc t = snd (publish \<lparr>ev_rv = c_rv s + 1, ev_type = Modified, ev_obj = kept_uid cfg cur' obj\<rparr> (s_bc s))"
    using v by auto
  with that [of obj data'] op obj pre show thesis
    by (auto simp: objects_def fun_eq_iff split: if_splits)
qed

text \<open>
  Every run of \<open>Delete\<close> that removes the file: what happens before the removal decides whether it
  is reached, what happens after it decides what is announced.
\<close>

lemma nextRV_Inr_dirs:
  assumes "nextRV cfg s = (Inr v, t)"
  shows "dir_at (fs_root t) = dir_at (fs_root s)"
proof -
  from assms have "counter_Next (Root cfg) s = (Inr v, t)" by (simp add: nextRV_def)
  then obtain u where "persist (Root cfg) (c_rv s + 1) (s\<lparr>c_rv := c_rv s + 1\<rparr>) = (Inr (), t)"
    by (auto simp: counter_Next_def sbind_Inr_iff split: sum.split_asm)
  then show ?thesis by (auto simp: persist_def dest!: replace_file_dirs)
qed

lemma Delete_Inr_run:
  assumes "Delete cfg key out pre val ign s = (Inr x, t)"
  obtains p data s1 s2 s3 v where "key_path cfg (fs_cwd s) key = Inr p"
    "os_read_file p s = (Inr data, s1)" "os_remove p s1 = (Inr (), s2)" "nextRV cfg s2 = (Inr v, s3)"
    "fs_root t = fs_root s3" "fs_cwd t = fs_cwd s3"
proof -
  from assms obtain p where p: "key_path cfg (fs_cwd s) key = Inr p"
    by (auto simp: Delete_def keyPath_key_path sbind_Inr_iff)
  obtain q s1 where q: "os_read_file p s = (q, s1)" by fastforce
  with assms p obtain data where data: "q = Inr data"
    by (cases q) (auto simp: Delete_def keyPath_key_path split: if_splits)
  have tail: "\<exists>s2 s3 v. os_remove p s1 = (Inr (), s2) \<and> nextRV cfg s2 = (Inr v, s3) \<and>
      fs_root t = fs_root s3 \<and> fs_cwd t = fs_cwd s3"
  proof (cases "codec_decode cfg data (Newer cfg)")
    case (Inl e)
    with assms p q data show ?thesis
      by (auto simp: Delete_def keyPath_key_path attempt_decode sbind_Inr_iff split: if_splits)
  next
    case (Inr cur)
    with assms p q data obtain s2 s3 v ev u where "os_remove p s1 = (Inr (), s2)"
      "nextRV cfg s2 = (Inr v, s3)" "publishEvent ev s3 = (Inr u, t)"
      by (auto simp: Delete_def keyPath_key_path attempt_decode sbind_Inr_iff Let_def
          split: option.split_asm)
    moreover from this(3) have "fs_root t = fs_root s3" "fs_cwd t = fs_cwd s3"
      using memory_frame(5,6) [of ev s3] by simp_all
    ultimately show ?thesis by blast
  qed
  with that p q data show thesis by blast
qed

lemma Delete_gone:
  assumes "Delete cfg key out pre val ign s = (Inr x, t)" and "Root cfg \<noteq> []"
  obtains p where "key_path cfg (fs_cwd s) key = Inr p" "node_at (fs_root t) p = Inl ENOENT"
    "fs_cwd t = fs_cwd s"
proof -
  from Delete_Inr_run [OF assms(1)] obtain p data s1 s2 s3 v
    where p: "key_path cfg (fs_cwd s) key = Inr p" and r: "os_read_file p s = (Inr data, s1)"
      and d: "os_remove p s1 = (Inr (), s2)" and n: "nextRV cfg s2 = (Inr v, s3)"
      and t: "fs_root t = fs_root s3" "fs_cwd t = fs_cwd s3" by metis
  have op: "object_path p" using keyPath_Inr [of cfg key s p s] p assms(2) by (simp add: keyPath_key_path)
  have f1: "files s1 p = Some data" using os_read_file_Inr [OF r] os_query_root(2) [OF r] by simp
  note dirs = os_remove_dirs [OF d f1]
  from n have nx: "counter_Next (Root cfg) s2 = (Inr v, s3)" by (simp add: nextRV_def)
  have cwd: "fs_cwd s2 = fs_cwd s" "fs_cwd s3 = fs_cwd s"
    using os_call_same(3) [OF r] os_call_same(2) [OF d] counter_Next_Inr(3) [OF nx] by simp_all
  have "files t p = None"
    using t counter_Next_Inr(5) [OF nx] os_remove_Inr [OF d] op assms(2) by auto
  moreover have "dir_at (fs_root t) = dir_at (fs_root s1)"
    using t nextRV_Inr_dirs [OF n] dirs by simp
  moreover have "\<not> dir_at (fs_root s1) p"
    using f1 by (auto simp: file_at_def dir_at_def split: sum.splits node.splits)
  moreover have "p \<noteq> []" using op by (simp add: object_path_def)
  ultimately have "node_at (fs_root t) p = Inl ENOENT"
    using dirs node_at_missing [of "fs_root t" p] by simp
  with that p t cwd show thesis by simp
qed

lemma Delete_rejected:
  assumes "key_path cfg (fs_cwd s) key = Inr p" and "files s p = Some data" and "fs_faults s = []"
    and "codec_decode cfg data (Newer cfg) = Inr cur"
    and "pre key cur = Inl e \<or> pre key cur = Inr () \<and> (\<exists>f. val = Some f \<and> f cur = Inl e)"
  shows "Delete cfg key out pre val ign s = (Inl (Rejected e), s)"
  using assms os_read_file_no_fault [of s p data]
  by (auto simp: Delete_def keyPath_key_path attempt_decode sbind_def attempt_def map_err_def)

text \<open>
  The removal comes before the version is drawn. If drawing it fails, the object is gone and
  nobody is told.
\<close>

lemma Delete_silent:
  assumes "key_path cfg (fs_cwd s) key = Inr p" and "os_read_file p s = (Inr data, s1)"
    and "codec_decode cfg data (Newer cfg) = Inr cur" and "pre key cur = Inr ()"
    and "os_remove p s1 = (Inr (), s2)" and "counter_Next (Root cfg) s2 = (Inl e, t)"
    and "Root cfg \<noteq> []" and "\<And>v. val = Some v \<Longrightarrow> v cur = Inr ()"
  shows "Delete cfg key out pre val ign s = (Inl (OsErr e), t) \<and> files t p = None \<and> s_bc t = s_bc s"
proof -
  have op: "object_path p" using keyPath_Inr [of cfg key s p s] assms(1,7) by (simp add: keyPath_key_path)
  have run: "Delete cfg key out pre val ign s = (Inl (OsErr e), t)"
    using assms by (cases val) (simp_all add: Delete_def keyPath_key_path attempt_decode nextRV_def
        sbind_def attempt_def map_err_def)
  have "files t p = None"
    using counter_Next_Inl(4) [OF assms(6), of p] os_remove_Inr [OF assms(5)] op by simp
  moreover have "s_bc t = s_bc s"
  proof -
    have "fs_state.more s2 = fs_state.more s"
      using os_call_same(3) [OF assms(2)] os_call_same(2) [OF assms(5)] by metis
    then have "s_bc s2 = s_bc s" by (cases s; cases s2) simp
    moreover have "s_bc t = s_bc s2"
      using counter_Next_Inl(3) [OF assms(6)] by (cases s2; cases t) simp
    ultimately show ?thesis by simp
  qed
  ultimately show ?thesis using run by simp
qed

section \<open>Success\<close>

text \<open>
  Where nothing stands in the way (no fault ahead, the file and the counter's file can be written)
  the operations do succeed.
\<close>

definition healthy :: "'o config \<Rightarrow> path \<Rightarrow> 'o sstate \<Rightarrow> bool" where
  "healthy cfg p s \<longleftrightarrow>
     (let cf = counter_file (Root cfg) (fs_cwd s)
      in fs_faults s = [] \<and> writable (fs_root s) p \<and> cf \<noteq> [] \<and>
         dir_at (fs_root s) (butlast cf) \<and> \<not> dir_at (fs_root s) cf \<and> \<not> dir_at (fs_root s) (tmp_of cf) \<and>
         \<not> strict_prefix cf p \<and> \<not> strict_prefix (tmp_of cf) p)"

lemma writable_code [code]:
  "writable n p \<longleftrightarrow>
     p \<noteq> [] \<and> list_all (\<lambda>k. file_at n (take k p) = None) [0..<length p] \<and> \<not> dir_at n p \<and> \<not> dir_at n (tmp_of p)"
proof -
  have "(\<forall>q. strict_prefix q p \<longrightarrow> file_at n q = None) \<longleftrightarrow> (\<forall>k < length p. file_at n (take k p) = None)"
  proof
    assume *: "\<forall>q. strict_prefix q p \<longrightarrow> file_at n q = None"
    have "strict_prefix (take k p) p" if "k < length p" for k
      using that take_is_prefix [of k p] by (auto simp: strict_prefix_def dest!: arg_cong [where f = length])
    with * show "\<forall>k < length p. file_at n (take k p) = None" by blast
  next
    assume *: "\<forall>k < length p. file_at n (take k p) = None"
    have "q = take (length q) p \<and> length q < length p" if "strict_prefix q p" for q
      using that by (auto simp: strict_prefix_def prefix_def)
    with * show "\<forall>q. strict_prefix q p \<longrightarrow> file_at n q = None" by metis
  qed
  then show ?thesis by (auto simp: writable_def list_all_iff)
qed

lemma nextRV_ok:
  assumes "healthy cfg p s"
  shows "\<exists>t. nextRV cfg s = (Inr (c_rv s + 1), t) \<and> fs_faults t = [] \<and> writable (fs_root t) p \<and>
    s_bc t = s_bc s \<and> s_uid t = s_uid s"
proof -
  let ?cf = "counter_file (Root cfg) (fs_cwd s)" and ?s = "s\<lparr>c_rv := c_rv s + 1\<rparr>"
  from assms obtain t where t: "replace_file ?cf (format_uint (c_rv s + 1)) ?s = (Inr (), t)"
    "fs_faults t = []"
    using replace_file_ok [of ?s ?cf "format_uint (c_rv s + 1)"] by (auto simp: healthy_def Let_def)
  then have p: "persist (Root cfg) (c_rv s + 1) ?s = (Inr (), t)" by (simp add: persist_def)
  then have rv: "c_rv t = c_rv s + 1" using persist_same(2) [of "Root cfg" "c_rv s + 1" ?s] by simp
  with p have n: "counter_Next (Root cfg) s = (Inr (c_rv s + 1), t)"
    by (simp add: counter_Next_def sbind_def attempt_def)
  then have more: "cstate.more t = cstate.more s" by (rule counter_Next_Inr)
  have "dir_at (fs_root t) = dir_at (fs_root s)" using replace_file_dirs [OF t(1)] by simp
  moreover have "files t q = None" if "strict_prefix q p" for q
    using that assms counter_Next_Inr(5) [OF n] by (auto simp: healthy_def Let_def writable_def)
  ultimately have "writable (fs_root t) p" using assms by (simp add: healthy_def Let_def writable_def)
  moreover have "s_bc t = s_bc s \<and> s_uid t = s_uid s" using more by (cases s; cases t) simp
  ultimately show ?thesis using n t(2) by (auto simp: nextRV_def)
qed

lemma commit_ok:
  assumes "fs_faults s = []" and "writable (fs_root s) p" and "codec_encode cfg obj = Inr data"
    and "spec_out cfg data out v = (Inr x, v)"
    and "fst (publish \<lparr>ev_rv = rv, ev_type = et, ev_obj = obj\<rparr> (s_bc s)) = Inr ()"
  shows "\<exists>t. (sbind (encode cfg obj) (\<lambda>data.
     sbind (map_err OsErr (atomicWrite p data)) (\<lambda>_.
     sbind (decodeOut cfg data out) (\<lambda>out.
     sbind (publishEvent \<lparr>ev_rv = rv, ev_type = et, ev_obj = obj\<rparr>) (\<lambda>_. ret out))))) s = (Inr x, t) \<and>
     fs_faults t = []"
proof -
  from atomicWrite_ok [OF assms(1,2), of data] obtain u
    where u: "atomicWrite p data s = (Inr (), u)" "fs_faults u = []" by blast
  have "fs_state.more u = fs_state.more s" using os_call_same(1) [OF u(1)] by blast
  then have bc: "s_bc u = s_bc s" by (cases s; cases u) simp
  have "encode cfg obj s = (Inr data, s)" using assms(3) by (simp add: encode_def)
  moreover have "decodeOut cfg data out u = (Inr x, u)"
    using assms(4) by (auto simp: decodeOut_def spec_out_def decodeInto_def sbind_Inr_iff
        split: option.split_asm)
  moreover have "publishEvent \<lparr>ev_rv = rv, ev_type = et, ev_obj = obj\<rparr> u =
      (Inr (), u\<lparr>s_bc := snd (publish \<lparr>ev_rv = rv, ev_type = et, ev_obj = obj\<rparr> (s_bc s))\<rparr>)"
    using assms(5) bc by (auto simp: publishEvent_def split: prod.splits)
  ultimately show ?thesis using u by simp
qed

lemma Create_ok:
  assumes "key_path cfg (fs_cwd s) key = Inr p" and "healthy cfg p s"
    and "node_at (fs_root s) p = Inl ENOENT" and "accessor_ok cfg obj"
    and "update_object cfg (stamped_uid cfg s obj) (c_rv s + 1) = Inr obj'"
    and "codec_encode cfg obj' = Inr data" and "spec_out cfg data out v = (Inr x, v)"
    and "fst (publish \<lparr>ev_rv = c_rv s + 1, ev_type = Added, ev_obj = obj'\<rparr> (s_bc s)) = Inr ()"
  shows "\<exists>t. Create cfg key obj out s = (Inr x, t) \<and> fs_faults t = []"
proof -
  let ?gen = "(if get_uid cfg obj = [] then sbind generateUID (\<lambda>u. ret (set_uid cfg obj u)) else ret obj)
    :: ('a, 'a) store_op"
  let ?s = "if get_uid cfg obj = [] then s\<lparr>s_uid := s_uid s + 1\<rparr> else s"
  have f: "fs_faults s = []" using assms(2) by (simp add: healthy_def Let_def)
  have st: "os_stat p s = (Inl ENOENT, s)" using assms(3) f by (simp add: os_stat_def query_no_fault)
  have gen: "?gen s = (Inr (stamped_uid cfg s obj), ?s)"
    by (simp add: stamped_uid_def generateUID_def sbind_def)
  have "healthy cfg p ?s" using assms(2) by (simp add: healthy_def Let_def)
  from nextRV_ok [OF this] obtain u where u: "nextRV cfg ?s = (Inr (c_rv s + 1), u)" "fs_faults u = []"
    "writable (fs_root u) p" "s_bc u = s_bc s" by auto
  have stamp: "stampRV cfg (stamped_uid cfg s obj) (c_rv s + 1) u = (Inr obj', u)"
    using assms(5) by (simp add: stampRV_def)
  have "create_body cfg p obj out s =
     (sbind (encode cfg obj') (\<lambda>data.
      sbind (map_err OsErr (atomicWrite p data)) (\<lambda>_.
      sbind (decodeOut cfg data out) (\<lambda>out.
      sbind (publishEvent \<lparr>ev_rv = c_rv s + 1, ev_type = Added, ev_obj = obj'\<rparr>) (\<lambda>_. ret out))))) u"
    by (simp only: create_body_def assms(4) not_True_eq_False if_False
        sbind_eval(1) [of ?gen s, OF gen] sbind_eval(1) [of "nextRV cfg" ?s, OF u(1)]
        sbind_eval(1) [of "stampRV cfg (stamped_uid cfg s obj) (c_rv s + 1)" u, OF stamp])
  with commit_ok [OF u(2,3) assms(6,7)] assms(8) u(4) assms(1) st show ?thesis
    by (simp add: Create_body keyPath_key_path sbind_def attempt_def)
qed


lemma Update_ok:
  assumes "key_path cfg (fs_cwd s) key = Inr p" and "healthy cfg p s" and "files s p = Some data"
    and "codec_decode cfg data (Newer cfg) = Inr cur" and "pre key cur = Inr ()"
    and "upd cur (shown_rv cfg cur) = Inr (new, cur')" and "codec_encode cfg new = Inr d" and "d \<noteq> data"
    and "update_object cfg new (c_rv s + 1) = Inr obj"
    and "codec_encode cfg (kept_uid cfg cur' obj) = Inr data'" and "spec_out cfg data' dst v = (Inr x, v)"
    and "fst (publish \<lparr>ev_rv = c_rv s + 1, ev_type = Modified, ev_obj = kept_uid cfg cur' obj\<rparr> (s_bc s)) = Inr ()"
  shows "\<exists>t. GuaranteedUpdate cfg key dst ign pre upd s = (Inr x, t) \<and> fs_faults t = []"
proof -
  let ?obj = "kept_uid cfg cur' obj"
  have f: "fs_faults s = []" using assms(2) by (simp add: healthy_def Let_def)
  have rd: "attempt (os_read_file p) s = (Inr (Inr data), s)"
    using os_read_file_no_fault [OF f assms(3)] by simp
  have dec: "decodeFresh cfg data s = (Inr cur, s)" and enc: "encode cfg new s = (Inr d, s)"
    using assms(4,7) by (simp_all add: decodeFresh_def decodeInto_def encode_def)
  from nextRV_ok [OF assms(2)] obtain u where u: "nextRV cfg s = (Inr (c_rv s + 1), u)" "fs_faults u = []"
    "writable (fs_root u) p" "s_bc u = s_bc s" by auto
  have stamp: "stampRV cfg new (c_rv s + 1) u = (Inr obj, u)" using assms(9) by (simp add: stampRV_def)
  have fill: "fillUID cfg True cur' obj u = (Inr ?obj, u)" by (simp add: fillUID_def kept_uid_def)
  have "GuaranteedUpdate cfg key dst ign pre upd s =
     (sbind (encode cfg ?obj) (\<lambda>data.
      sbind (map_err OsErr (atomicWrite p data)) (\<lambda>_.
      sbind (decodeOut cfg data dst) (\<lambda>out.
      sbind (publishEvent \<lparr>ev_rv = c_rv s + 1, ev_type = Modified, ev_obj = ?obj\<rparr>) (\<lambda>_. ret out))))) u"
    using assms(1,5,6,8) rd dec enc u(1) stamp fill
    by (simp add: GuaranteedUpdate_def keyPath_key_path sbind_monad Let_def shown_rv_def)
  with commit_ok [OF u(2,3) assms(10,11)] assms(12) u(4) show ?thesis by simp
qed

end
