(* ===== verification/Walk.thy ===== *)
theory Walk
  imports Filesystem
begin

text \<open>
  \<open>walkObjects\<close> of \<open>internal/fsstorage/store.go\<close>: the recursive directory walk that feeds every
  stored object's bytes to a callback. The callback's captured variables are the accumulator of
  the walk. Every \<open>ReadDir\<close> and \<open>ReadFile\<close> may meet a fault; a file or directory that has gone
  (\<open>ENOENT\<close>) is skipped, any other error ends the walk, and what the callback has collected by
  then is still there (\<open>err\<close> gets it). The main lemma says that without faults
  the walk is a fold of the callback over the visible object files in path order.
\<close>

section \<open>The walk\<close>

definition next_fault :: "fault list \<Rightarrow> os_error option \<times> fault list" where
  "next_fault fs =
     (case fs of [] \<Rightarrow> (None, []) | NoFault # r \<Rightarrow> (None, r) | Fault e k # r \<Rightarrow> (Some e, r))"

text \<open>The name test of the loop: \<open>.json\<close> files that do not start with a dot.\<close>

definition object_name :: "string \<Rightarrow> bool" where
  "object_name name \<longleftrightarrow> \<not> (\<not> has_suffix name ''.json'' \<or> has_prefix name ''.'')"

text \<open>
  The tree does not change during a walk, so the directory a recursive call reads is the child
  node the loop is at. \<open>walk_dir\<close> is the body after the path is resolved, \<open>walk_entries\<close> the loop
  over the entries.
\<close>

fun walk_dir ::
    "(os_error \<Rightarrow> 'a \<Rightarrow> 'e) \<Rightarrow> (bytes \<Rightarrow> 'a \<Rightarrow> 'e + 'a) \<Rightarrow> node \<Rightarrow> 'a \<Rightarrow> fault list \<Rightarrow> ('e + 'a) \<times> fault list"
  and walk_entries ::
    "(os_error \<Rightarrow> 'a \<Rightarrow> 'e) \<Rightarrow> (bytes \<Rightarrow> 'a \<Rightarrow> 'e + 'a) \<Rightarrow> (string \<times> node) list \<Rightarrow> 'a \<Rightarrow> fault list \<Rightarrow>
       ('e + 'a) \<times> fault list" where
  "walk_dir err fn (File b) acc fs =
     (case next_fault fs of
        (Some e, r) \<Rightarrow> (if e = ENOENT then (Inr acc, r) else (Inl (err e acc), r))
      | (None, r) \<Rightarrow> (Inl (err ENOTDIR acc), r))"
| "walk_dir err fn (Dir es) acc fs =
     (case next_fault fs of
        (Some e, r) \<Rightarrow> (if e = ENOENT then (Inr acc, r) else (Inl (err e acc), r))
      | (None, r) \<Rightarrow> walk_entries err fn es acc r)"
| "walk_entries err fn [] acc fs = (Inr acc, fs)"
| "walk_entries err fn ((name, Dir ds) # es) acc fs =
     (case walk_dir err fn (Dir ds) acc fs of
        (Inl e, r) \<Rightarrow> (Inl e, r)
      | (Inr acc', r) \<Rightarrow> walk_entries err fn es acc' r)"
| "walk_entries err fn ((name, File b) # es) acc fs =
     (if \<not> has_suffix name ''.json'' \<or> has_prefix name ''.'' then walk_entries err fn es acc fs
      else case next_fault fs of
        (Some e, r) \<Rightarrow> (if e = ENOENT then walk_entries err fn es acc r else (Inl (err e acc), r))
      | (None, r) \<Rightarrow>
          (case fn b acc of
             Inl e \<Rightarrow> (Inl e, r)
           | Inr acc' \<Rightarrow> walk_entries err fn es acc' r))"

definition walkObjects ::
  "(os_error \<Rightarrow> 'a \<Rightarrow> 'e) \<Rightarrow> path \<Rightarrow> (bytes \<Rightarrow> 'a \<Rightarrow> 'e + 'a) \<Rightarrow> 'a \<Rightarrow> ('x fs_state_scheme, 'e, 'a) sem" where
  "walkObjects err dir fn acc s =
     (case node_at (fs_root s) dir of
        Inr n \<Rightarrow>
          (case walk_dir err fn n acc (fs_faults s) of (r, fs) \<Rightarrow> (r, s\<lparr>fs_faults := fs\<rparr>))
      | Inl e \<Rightarrow>
          (case next_fault (fs_faults s) of
             (f, fs) \<Rightarrow>
               (let e' = (case f of None \<Rightarrow> e | Some d \<Rightarrow> d)
                in ((if e' = ENOENT then Inr acc else Inl (err e' acc)), s\<lparr>fs_faults := fs\<rparr>))))"

section \<open>What it visits\<close>

text \<open>The files of a tree with their paths, in the order of the walk.\<close>

fun tree_files :: "node \<Rightarrow> (path \<times> bytes) list"
  and entry_files :: "(string \<times> node) list \<Rightarrow> (path \<times> bytes) list" where
  "tree_files (File b) = [([], b)]"
| "tree_files (Dir es) = entry_files es"
| "entry_files [] = []"
| "entry_files ((c, n) # es) = map (\<lambda>(p, b). (c # p, b)) (tree_files n) @ entry_files es"

definition object_files :: "(path \<times> bytes) list \<Rightarrow> (path \<times> bytes) list" where
  "object_files ps = filter (\<lambda>(p, b). p \<noteq> [] \<and> object_name (last p)) ps"

text \<open>A loop with an early return on error.\<close>

fun fold_err :: "('b \<Rightarrow> 'a \<Rightarrow> 'e + 'a) \<Rightarrow> 'b list \<Rightarrow> 'a \<Rightarrow> 'e + 'a" where
  "fold_err f [] acc = Inr acc"
| "fold_err f (x # xs) acc = (case f x acc of Inl e \<Rightarrow> Inl e | Inr acc' \<Rightarrow> fold_err f xs acc')"

lemma fold_err_append:
  "fold_err f (xs @ ys) acc = (case fold_err f xs acc of Inl e \<Rightarrow> Inl e | Inr a \<Rightarrow> fold_err f ys a)"
  by (induction f xs acc rule: fold_err.induct) (auto split: sum.splits)

lemma object_files_append [simp]: "object_files (xs @ ys) = object_files xs @ object_files ys"
  by (simp add: object_files_def)

lemma entry_files_path: "(p, b) \<in> set (entry_files es) \<Longrightarrow> p \<noteq> []"
  by (induction es) auto

lemma object_files_Cons_dir [simp]:
  "map snd (object_files (map (\<lambda>(p, b). (c # p, b)) (entry_files es))) =
   map snd (object_files (entry_files es))"
  unfolding object_files_def filter_map map_map
  by (auto simp: comp_def split_def intro!: arg_cong [where f = "map snd"] filter_cong
      dest: entry_files_path)

lemma next_fault_Nil [simp]: "next_fault [] = (None, [])"
  by (simp add: next_fault_def)

lemma walk_no_fault_aux:
  "fs = [] \<Longrightarrow> n = Dir ds \<Longrightarrow>
     walk_dir err fn n acc fs = (fold_err fn (map snd (object_files (entry_files ds))) acc, [])"
  "fs = [] \<Longrightarrow>
     walk_entries err fn es acc fs = (fold_err fn (map snd (object_files (entry_files es))) acc, [])"
proof (induction err fn n acc fs and err fn es acc fs arbitrary: ds rule: walk_dir_walk_entries.induct)
  case (4 err fn name ds es acc fs)
  then show ?case by (auto simp: fold_err_append split: sum.splits)
next
  case (5 err fn name b es acc fs)
  then show ?case by (auto simp: object_files_def object_name_def split: sum.splits)
qed (auto simp: object_files_def)

lemmas walk_no_fault = walk_no_fault_aux(1) [OF refl refl] walk_no_fault_aux(2) [OF refl]

text \<open>The walk of a directory, and of a directory that does not exist.\<close>

lemma walkObjects_Dir:
  "fs_faults s = [] \<Longrightarrow> node_at (fs_root s) dir = Inr (Dir es) \<Longrightarrow>
    walkObjects err dir fn acc s = (fold_err fn (map snd (object_files (entry_files es))) acc, s)"
  by (simp add: walkObjects_def walk_no_fault)

lemma walkObjects_missing:
  "fs_faults s = [] \<Longrightarrow> node_at (fs_root s) dir = Inl ENOENT \<Longrightarrow>
    walkObjects err dir fn acc s = (Inr acc, s)"
  by (simp add: walkObjects_def)

text \<open>The walk reads only: the tree and everything beside the fault list stay.\<close>

lemma walkObjects_frame [frame_simps]:
  "fs_root (snd (walkObjects err dir fn acc s)) = fs_root s"
  "fs_cwd (snd (walkObjects err dir fn acc s)) = fs_cwd s"
  "fs_state.more (snd (walkObjects err dir fn acc s)) = fs_state.more s"
  by (auto simp: walkObjects_def Let_def split: sum.splits prod.splits)

text \<open>The files of the listing are the files of the tree.\<close>

lemma set_tree_files:
  "wf_node n \<Longrightarrow> (p, b) \<in> set (tree_files n) \<longleftrightarrow> file_at n p = Some b"
  "wf_node (Dir es) \<Longrightarrow> (p, b) \<in> set (entry_files es) \<longleftrightarrow> file_at (Dir es) p = Some b"
proof (induction n and es arbitrary: p b and p b rule: tree_files_entry_files.induct)
  case (4 c n es)
  then have wf: "wf_node n" "wf_node (Dir es)" by auto
  have c: "map_of es c = None" using 4(3) by (auto intro!: map_of_notin_sorted)
  show ?case
  proof (cases p)
    case Nil
    then show ?thesis using entry_files_path by auto
  next
    case (Cons x xs)
    with 4(1) [OF wf(1), of xs b] 4(2) [OF wf(2), of p b] c show ?thesis
      by (force simp: image_iff split: option.splits)
  qed
qed auto

lemma sorted_tree_files:
  "wf_node n \<Longrightarrow> sorted_wrt (<) (map fst (tree_files n))"
  "wf_node (Dir es) \<Longrightarrow> sorted_wrt (<) (map fst (entry_files es))"
proof (induction n and es rule: tree_files_entry_files.induct)
  case (4 c n es)
  then have wf: "wf_node n" "wf_node (Dir es)" by auto
  have "sorted_wrt (<) (map (\<lambda>x. c # fst x) (tree_files n))"
    using 4(1) [OF wf(1)] by (simp add: sorted_wrt_map)
  moreover have "hd (fst e) \<in> fst ` set es" "fst e \<noteq> []" if "e \<in> set (entry_files es)" for e
    using that by (induction es) (auto simp: image_iff)
  ultimately show ?case using 4(2) [OF wf(2)] 4(3)
    by (force simp: sorted_wrt_append comp_def split_def neq_Nil_conv)
qed auto

end
