(* ===== verification/Store_Watch.thy ===== *)
theory Store_Watch
  imports Store_Laws Walk
begin

text \<open>
  The collection operations of \<open>internal/fsstorage/store.go\<close> and \<open>list.go\<close>: \<open>GetList\<close>, \<open>Count\<close>,
  \<open>Stats\<close> and \<open>Watch\<close>. \<open>Watch\<close> holds the broadcaster's mutex from the reading of the current
  version to the subscription, so it is one step of the store like the object operations.
\<close>

section \<open>list.go\<close>

text \<open>
  The values \<open>reflect\<close> is used on: pointers, slices with the type of their elements, and the
  rest. Objects are pointers to structs; \<open>go_type\<close> is the struct's type.
\<close>

datatype elem_type = InterfaceElem | StructElem string

datatype 'o rvalue = RPtr "'o rvalue option" | RSlice elem_type "'o list" | ROther string

datatype list_error = NilPointer | NotSlice | NotAssignable string

definition conversionEnforcePtr :: "'o rvalue \<Rightarrow> list_error + 'o rvalue" where
  "conversionEnforcePtr v =
     (case v of RPtr None \<Rightarrow> Inl NilPointer | RPtr (Some x) \<Rightarrow> Inr x | _ \<Rightarrow> Inr v)"

definition getListItemsValue :: "'o rvalue \<Rightarrow> list_error + elem_type \<times> 'o list" where
  "getListItemsValue itemsPtr =
     (case conversionEnforcePtr itemsPtr of
        Inl e \<Rightarrow> Inl e
      | Inr v \<Rightarrow> (case v of RSlice et xs \<Rightarrow> Inr (et, xs) | _ \<Rightarrow> Inl NotSlice))"

definition appendItem ::
  "('o \<Rightarrow> string) \<Rightarrow> elem_type \<times> 'o list \<Rightarrow> 'o \<Rightarrow> list_error + elem_type \<times> 'o list" where
  "appendItem go_type items obj =
     (case items of
        (InterfaceElem, xs) \<Rightarrow> Inr (InterfaceElem, xs @ [obj])
      | (StructElem T, xs) \<Rightarrow>
          if go_type obj \<noteq> T then Inl (NotAssignable (go_type obj)) else Inr (StructElem T, xs @ [obj]))"

section \<open>Options and list objects\<close>

record 'o list_options =
  Predicate :: "'o \<Rightarrow> string + bool"
  Recursive :: bool
  ResourceVersion :: string
  SendInitialEvents :: "bool option"

text \<open>
  What the list operation needs of the API machinery: the items pointer of a list object, the
  effect of storing through it, stamping a list with a version, and the types of objects.
\<close>

record ('o, 'l) list_api =
  GetItemsPtr :: "'l \<Rightarrow> string + 'o rvalue"
  SetItems :: "'l \<Rightarrow> 'o list \<Rightarrow> 'l"
  UpdateList :: "'l \<Rightarrow> u64 \<Rightarrow> string + 'l"
  GoType :: "'o \<Rightarrow> string"

datatype read_error = StoreErr store_error | ItemsPtr string | ListErr list_error | Matches string | UpdateListErr string

section \<open>Lists\<close>

text \<open>The callback of the walk, also used for a single object: decode, match, append.\<close>

definition addMatching ::
  "'o config \<Rightarrow> ('o, 'l) list_api \<Rightarrow> 'o list_options \<Rightarrow> bytes \<Rightarrow> elem_type \<times> 'o list \<Rightarrow>
     read_error + elem_type \<times> 'o list" where
  "addMatching cfg api opts data v =
     (case codec_decode cfg data (Newer cfg) of
        Inl e \<Rightarrow> Inl (StoreErr (CodecErr e))
      | Inr obj \<Rightarrow>
          (case Predicate opts obj of
             Inl e \<Rightarrow> Inl (Matches e)
           | Inr ok \<Rightarrow>
               if \<not> ok then Inr v else map_sum ListErr id (appendItem (GoType api) v obj)))"

definition listOne ::
  "'o config \<Rightarrow> ('o, 'l) list_api \<Rightarrow> 'o list_options \<Rightarrow> path \<Rightarrow> elem_type \<times> 'o list \<Rightarrow>
     ('o sstate, read_error, elem_type \<times> 'o list) sem" where
  "listOne cfg api opts path v =
     sbind (attempt (os_read_file path)) (\<lambda>r. case r of
       Inr data \<Rightarrow> of_sum (addMatching cfg api opts data v)
     | Inl e \<Rightarrow> if e \<noteq> ENOENT then throw (StoreErr (OsErr e)) else ret v)"

definition GetList ::
  "'o config \<Rightarrow> ('o, 'l) list_api \<Rightarrow> string \<Rightarrow> 'o list_options \<Rightarrow> 'l \<Rightarrow> ('o sstate, read_error, 'l) sem" where
  "GetList cfg api key opts listObj =
     sbind (map_err ItemsPtr (of_sum (GetItemsPtr api listObj))) (\<lambda>listPtr.
     sbind (map_err ListErr (of_sum (getListItemsValue listPtr))) (\<lambda>v.
     sbind (gets counter_Current) (\<lambda>listRV.
     sbind
       (if \<not> Recursive opts then
          sbind (map_err (\<lambda>e. StoreErr (KeyErr e)) (of_sum (parseKey key))) (\<lambda>(resource, namespace, name).
          if name \<noteq> [] then
            sbind (gets (\<lambda>s. objectPath (fs_cwd s) (Root cfg) resource namespace name)) (\<lambda>path.
            listOne cfg api opts path v)
          else ret v)
        else
          (case parsePrefix key of (resource, namespace, single, name) \<Rightarrow>
             if single then
               sbind (gets (\<lambda>s. objectPath (fs_cwd s) (Root cfg) resource namespace name)) (\<lambda>path.
               listOne cfg api opts path v)
             else
               sbind (gets (\<lambda>s. resourceDir (fs_cwd s) (Root cfg) resource namespace)) (\<lambda>dir.
               walkObjects (\<lambda>e _. StoreErr (OsErr e)) dir (addMatching cfg api opts) v))) (\<lambda>v.
     map_err UpdateListErr (of_sum (UpdateList api (SetItems api listObj (snd v)) listRV))))))"

text \<open>\<open>Count\<close> returns the count of what it saw also where the walk fails.\<close>

definition Count :: "'o config \<Rightarrow> string \<Rightarrow> ('o sstate, int \<times> os_error, int) sem" where
  "Count cfg key =
     (case parsePrefix key of (resource, namespace, single, name) \<Rightarrow>
        if single then
          sbind (gets (\<lambda>s. objectPath (fs_cwd s) (Root cfg) resource namespace name)) (\<lambda>path.
          sbind (attempt (os_stat path)) (\<lambda>r. case r of Inr _ \<Rightarrow> ret 1 | Inl _ \<Rightarrow> ret 0))
        else
          sbind (gets (\<lambda>s. resourceDir (fs_cwd s) (Root cfg) resource namespace)) (\<lambda>dir.
          walkObjects (\<lambda>e n. (n, e)) dir (\<lambda>_ n. Inr (n + 1)) 0))"

record stats =
  ObjectCount :: int
  EstimatedAverageObjectSizeBytes :: int

definition Stats :: "'o config \<Rightarrow> ('o sstate, os_error, stats) sem" where
  "Stats cfg =
     sbind (gets (\<lambda>s. join_path (fs_cwd s) [Root cfg])) (\<lambda>root.
     sbind (walkObjects (\<lambda>e _. e) root
              (\<lambda>data (count, total). Inr (count + 1, total + int (length data))) (0, 0)) (\<lambda>(count, total).
     let avg = (if 0 < count then total div count else 0)
     in ret \<lparr>ObjectCount = count, EstimatedAverageObjectSizeBytes = avg\<rparr>))"

section \<open>Watches\<close>

definition newInitialEndBookmark :: "'o config \<Rightarrow> u64 \<Rightarrow> string + 'o" where
  "newInitialEndBookmark cfg rv =
     (case update_object cfg (Newer cfg) rv of
        Inl e \<Rightarrow> Inl e
      | Inr obj \<Rightarrow> annotate_end cfg obj)"

definition matchesKey ::
  "'o config \<Rightarrow> bool \<Rightarrow> string \<Rightarrow> bool \<Rightarrow> string \<Rightarrow> 'o \<Rightarrow> bool" where
  "matchesKey cfg recursive namespace single name obj =
     (if \<not> accessor_ok cfg obj then False
      else
        let objNS = get_namespace cfg obj; objName = get_name cfg obj
        in if \<not> recursive then
             (if single then objNS = namespace \<and> objName = name else False)
           else if single then objNS = namespace \<and> objName = name
           else if namespace \<noteq> [] \<and> objNS \<noteq> namespace then False
           else True)"

text \<open>A step of the broadcaster as a step of the store.\<close>

definition on_bc :: "('o broadcaster, abnormal, 'a) sem \<Rightarrow> ('o, 'a) store_op" where
  "on_bc m s = (case m (s_bc s) of (r, b) \<Rightarrow> (map_sum Abnormal id r, s\<lparr>s_bc := b\<rparr>))"

fun deliver_all :: "bool \<Rightarrow> nat \<Rightarrow> 'o wevent list \<Rightarrow> ('o broadcaster, abnormal, unit) sem" where
  "deliver_all held i [] b = (Inr (), b)"
| "deliver_all held i (ev # evs) b =
     (case deliver held i ev b of
        (Inl a, b') \<Rightarrow> (Inl a, b')
      | (Inr _, b') \<Rightarrow> deliver_all held i evs b')"

text \<open>The objects a watch from version 0 starts with; what does not read or decode is left out.\<close>

definition snapshot ::
  "'o config \<Rightarrow> string \<Rightarrow> string \<Rightarrow> bool \<Rightarrow> string \<Rightarrow> ('o, 'o list) store_op" where
  "snapshot cfg resource namespace single name =
     (if single then
        sbind (gets (\<lambda>s. objectPath (fs_cwd s) (Root cfg) resource namespace name)) (\<lambda>path.
        sbind (attempt (os_read_file path)) (\<lambda>r. case r of
          Inl _ \<Rightarrow> ret []
        | Inr data \<Rightarrow>
            (case codec_decode cfg data (Newer cfg) of Inl _ \<Rightarrow> ret [] | Inr obj \<Rightarrow> ret [obj])))
      else
        sbind (gets (\<lambda>s. resourceDir (fs_cwd s) (Root cfg) resource namespace)) (\<lambda>dir.
        sbind (attempt (walkObjects (\<lambda>e snap. snap) dir
                 (\<lambda>data snap. Inr (case codec_decode cfg data (Newer cfg) of
                                     Inl _ \<Rightarrow> snap | Inr obj \<Rightarrow> snap @ [obj])) [])) (\<lambda>r.
        ret (case r of Inl snap \<Rightarrow> snap | Inr snap \<Rightarrow> snap))))"

definition tooOld :: "u64 \<Rightarrow> u64 \<Rightarrow> string" where
  "tooOld startRV currentRV =
     ''too old resource version: '' @ format_uint startRV @ '' (current: '' @ format_uint currentRV @ '')''"

text \<open>\<open>Watch\<close> answers with the watcher; \<open>expired\<close> is the status of \<open>apierrors.NewResourceExpired\<close>.\<close>

definition Watch ::
  "'o config \<Rightarrow> (string \<Rightarrow> status) \<Rightarrow> string \<Rightarrow> 'o list_options \<Rightarrow> ('o, nat) store_op" where
  "Watch cfg expired key opts =
     sbind (if ResourceVersion opts \<noteq> [] then
              map_err (\<lambda>e. BadRequest (''invalid resource version: '' @ e))
                (of_sum (parse_rv cfg (ResourceVersion opts)))
            else ret 0) (\<lambda>startRV.
     case parsePrefix key of (resource, namespace, single, name) \<Rightarrow>
     let mk = matchesKey cfg (Recursive opts) namespace single name in
     sbind (on_bc (\<lambda>b. map_prod Inr id (newWatcher (Predicate opts) mk 100 b))) (\<lambda>w.
     sbind (gets counter_Current) (\<lambda>currentRV.
     let initialEnd = (SendInitialEvents opts = Some True);
         subscribe = on_bc (\<lambda>b. (Inr w, subscribeLocked w b))
     in
     if startRV = 0 then
       sbind (snapshot cfg resource namespace single name) (\<lambda>snap.
       sbind (on_bc (deliver_all True w (map (WEvent Added) snap))) (\<lambda>_.
       sbind (if initialEnd then
                (case newInitialEndBookmark cfg currentRV of
                   Inl _ \<Rightarrow> ret ()
                 | Inr obj \<Rightarrow> on_bc (deliver True w (WEvent Bookmark obj)))
              else ret ()) (\<lambda>_.
       subscribe)))
     else if startRV < currentRV then
       sbind (gets (\<lambda>s. replayLocked startRV (s_bc s))) (\<lambda>r. case r of
         None \<Rightarrow>
           sbind (on_bc (stopWithError False w (StatusError (expired (tooOld startRV currentRV))))) (\<lambda>_.
           ret w)
       | Some replay \<Rightarrow>
           sbind (on_bc (deliver_all True w
                    (map (\<lambda>ev. WEvent (ev_type ev) (ev_obj ev))
                      (filter (\<lambda>ev. mk (ev_obj ev) \<and> Predicate opts (ev_obj ev) = Inr True) replay)))) (\<lambda>_.
           subscribe))
     else subscribe)))"

section \<open>Filling a watcher's channel\<close>

lemma deliver_all_room:
  "b_watchers b i = Some w \<Longrightarrow> live w \<Longrightarrow> length (w_ch w) + length evs \<le> w_buf w \<Longrightarrow>
    deliver_all held i evs b = (Inr (), upd_watcher i (\<lambda>w. w\<lparr>w_ch := w_ch w @ evs\<rparr>) b)"
proof (induction evs arbitrary: b w)
  case Nil
  then show ?case by (simp add: upd_watcher_def fun_upd_idem)
next
  case (Cons ev evs)
  let ?w = "w\<lparr>w_ch := w_ch w @ [ev]\<rparr>" and ?b = "upd_watcher i (\<lambda>w. w\<lparr>w_ch := w_ch w @ [ev]\<rparr>) b"
  have "deliver held i ev b = (Inr (), ?b)"
    using Cons.prems by (intro deliver_live) (auto simp: has_room_def)
  moreover have "deliver_all held i evs ?b =
      (Inr (), upd_watcher i (\<lambda>w. w\<lparr>w_ch := w_ch w @ evs\<rparr>) ?b)"
    using Cons.prems by (intro Cons.IH [of ?b ?w]) (auto simp: live_def)
  ultimately show ?case using Cons.prems(1) by (simp add: upd_watcher_def)
qed

text \<open>
  Beyond the buffer the watcher is stopped and its channel closed, and what follows either is
  dropped or is a send on the closed channel.
\<close>

definition dead :: "'o watcher option \<Rightarrow> bool" where
  "dead x \<longleftrightarrow> (\<exists>w. x = Some w \<and> w_stopped w \<and> w_closed w)"

lemma deliver_dead:
  "dead (b_watchers b i) \<Longrightarrow> deliver held i ev b = (r, b') \<Longrightarrow>
    r = Inl SendOnClosed \<or> r = Inr () \<and> b_watchers b' = b_watchers b"
  by (auto simp: dead_def deliver_def send_def Let_def split: list.splits bool.splits)

lemma deliver_all_dead:
  "dead (b_watchers b i) \<Longrightarrow> deliver_all held i evs b = (r, b') \<Longrightarrow>
    r = Inl SendOnClosed \<or> r = Inr () \<and> dead (b_watchers b' i)"
proof (induction evs arbitrary: b)
  case (Cons ev evs)
  obtain q c where q: "deliver held i ev b = (q, c)" by fastforce
  from deliver_dead [OF Cons.prems(1) q] show ?case
  proof
    assume "q = Inr () \<and> b_watchers c = b_watchers b"
    with Cons.IH [of c] Cons.prems q show ?thesis by simp
  qed (use Cons.prems(2) q in simp)
qed simp

lemma deliver_all_overflow:
  "b_watchers b i = Some w \<Longrightarrow> live w \<Longrightarrow> \<not> w_onStop w \<Longrightarrow> w_buf w < length (w_ch w) + length evs \<Longrightarrow>
    length (w_ch w) \<le> w_buf w \<Longrightarrow> deliver_all held i evs b = (r, b') \<Longrightarrow>
    r = Inl SendOnClosed \<or> r = Inr () \<and> dead (b_watchers b' i)"
proof (induction evs arbitrary: b w)
  case (Cons ev evs)
  show ?case
  proof (cases "has_room w")
    case True
    let ?w = "w\<lparr>w_ch := w_ch w @ [ev]\<rparr>" and ?b = "upd_watcher i (\<lambda>w. w\<lparr>w_ch := w_ch w @ [ev]\<rparr>) b"
    have "deliver held i ev b = (Inr (), ?b)" using Cons.prems True by (intro deliver_live) auto
    moreover have "b_watchers ?b i = Some ?w" using Cons.prems(1) by simp
    ultimately show ?thesis
      using Cons.IH [of ?b ?w] Cons.prems True by (simp add: live_def has_room_def)
  next
    case False
    then obtain c where "deliver held i ev b = (Inr (), c)" "dead (b_watchers c i)"
      using Cons.prems(1-3)
      by (auto simp: deliver_def Stop_def live_def has_room_def Let_def dead_def)
    with deliver_all_dead [of c i held evs r b'] Cons.prems show ?thesis by simp
  qed
qed simp

section \<open>What a watch starts with\<close>

text \<open>The state after \<open>newWatcher\<close>, before anything is delivered.\<close>

definition fresh :: "'o list_options \<Rightarrow> ('o \<Rightarrow> bool) \<Rightarrow> 'o watcher" where
  "fresh opts mk =
     \<lparr>w_predicate = Predicate opts, w_matchesKey = mk, w_ch = [], w_buf = 100,
      w_stopped = False, w_closed = False, w_onStop = False\<rparr>"

definition registered :: "'o list_options \<Rightarrow> ('o \<Rightarrow> bool) \<Rightarrow> 'o broadcaster \<Rightarrow> 'o broadcaster" where
  "registered opts mk b = snd (newWatcher (Predicate opts) mk 100 b)"

lemma registered_simps [simp]:
  "b_ring (registered opts mk b) = b_ring b" "b_subs (registered opts mk b) = b_subs b"
  "b_watchers (registered opts mk b) = (b_watchers b)(b_next b \<mapsto> fresh opts mk)"
  "replayLocked v (registered opts mk b) = replayLocked v b"
  by (simp_all add: registered_def newWatcher_def fresh_def replayLocked_def split: list.splits)

lemma live_fresh [simp]: "live (fresh opts mk)" "w_ch (fresh opts mk) = []" "w_buf (fresh opts mk) = 100"
  "\<not> w_onStop (fresh opts mk)"
  by (simp_all add: fresh_def live_def)

lemma on_bc_Pair [simp]: "on_bc m s = (map_sum Abnormal id (fst (m (s_bc s))), s\<lparr>s_bc := snd (m (s_bc s))\<rparr>)"
  by (simp add: on_bc_def split: prod.splits)

abbreviation wire :: "'o event \<Rightarrow> 'o wevent" where
  "wire ev \<equiv> WEvent (ev_type ev) (ev_obj ev)"

text \<open>
  The watcher after a start that delivered \<open>evs\<close>: live, subscribed, with exactly those events in
  its channel, ready for the events to come.
\<close>

definition started_with ::
  "'o list_options \<Rightarrow> ('o \<Rightarrow> bool) \<Rightarrow> 'o wevent list \<Rightarrow> 'o broadcaster \<Rightarrow> 'o broadcaster" where
  "started_with opts mk evs b =
     subscribeLocked (b_next b)
       (upd_watcher (b_next b) (\<lambda>w. w\<lparr>w_ch := evs\<rparr>) (registered opts mk b))"

lemma started_with_simps:
  "b_watchers (started_with opts mk evs b) (b_next b) =
     Some ((fresh opts mk)\<lparr>w_ch := evs, w_onStop := True\<rparr>)"
  "b_next b \<in> set (b_subs (started_with opts mk evs b))"
  "b_ring (started_with opts mk evs b) = b_ring b"
  by (auto simp: started_with_def subscribeLocked_def)

text \<open>Once the initial events are known, a watch delivers them and subscribes.\<close>

definition deliver_then_subscribe ::
  "'o list_options \<Rightarrow> ('o \<Rightarrow> bool) \<Rightarrow> 'o wevent list \<Rightarrow> ('o, nat) store_op" where
  "deliver_then_subscribe opts mk evs s =
     (case deliver_all True (b_next (s_bc s)) evs (registered opts mk (s_bc s)) of
        (Inl a, c) \<Rightarrow> (Inl (Abnormal a), s\<lparr>s_bc := c\<rparr>)
      | (Inr _, c) \<Rightarrow> (Inr (b_next (s_bc s)), s\<lparr>s_bc := subscribeLocked (b_next (s_bc s)) c\<rparr>))"

lemma deliver_then_subscribe_room:
  assumes "length evs \<le> 100"
  shows "deliver_then_subscribe opts mk evs s =
    (Inr (b_next (s_bc s)), s\<lparr>s_bc := started_with opts mk evs (s_bc s)\<rparr>)"
proof -
  let ?b = "registered opts mk (s_bc s)" and ?i = "b_next (s_bc s)"
  have "deliver_all True ?i evs ?b = (Inr (), upd_watcher ?i (\<lambda>w. w\<lparr>w_ch := evs\<rparr>) ?b)"
    using deliver_all_room [of ?b ?i "fresh opts mk" evs True] assms by (simp add: upd_watcher_def)
  then show ?thesis by (simp add: deliver_then_subscribe_def started_with_def)
qed

text \<open>
  With more events than the channel holds, the watch panics, or hands out a watcher that is stopped and closed
  and nevertheless subscribed.
\<close>

definition broken_watch :: "(store_error + nat) \<times> 'o sstate \<Rightarrow> bool" where
  "broken_watch res \<longleftrightarrow> fst res = Inl (Abnormal SendOnClosed) \<or>
     (\<exists>i w. fst res = Inr i \<and> i \<in> set (b_subs (s_bc (snd res))) \<and>
        b_watchers (s_bc (snd res)) i = Some w \<and> w_stopped w \<and> w_closed w)"

lemma deliver_then_subscribe_overflow:
  assumes "100 < length evs"
  shows "broken_watch (deliver_then_subscribe opts mk evs s)"
proof -
  let ?b = "registered opts mk (s_bc s)" and ?i = "b_next (s_bc s)"
  obtain q c where d: "deliver_all True ?i evs ?b = (q, c)" by fastforce
  then have "q = Inl SendOnClosed \<or> q = Inr () \<and> dead (b_watchers c ?i)"
    using deliver_all_overflow [of ?b ?i "fresh opts mk" evs True q c] assms by simp
  with d show ?thesis
    by (auto simp: broken_watch_def deliver_then_subscribe_def subscribeLocked_def dead_def)
qed

lemma Watch_replay:
  assumes "parse_rv cfg (ResourceVersion opts) = Inr v" and "ResourceVersion opts \<noteq> []"
    and "v \<noteq> 0" and "v < c_rv s" and "replayLocked v (s_bc s) = Some evs"
    and "parsePrefix key = (resource, namespace, single, name)"
    and "mk = matchesKey cfg (Recursive opts) namespace single name"
    and "es = filter (\<lambda>ev. mk (ev_obj ev) \<and> Predicate opts (ev_obj ev) = Inr True) evs"
  shows "Watch cfg expired key opts s = deliver_then_subscribe opts mk (map wire es) s"
proof -
  let ?b = "registered opts mk (s_bc s)" and ?i = "b_next (s_bc s)"
  have nw: "newWatcher (Predicate opts) mk 100 (s_bc s) = (?i, ?b)"
    by (simp add: registered_def newWatcher_def)
  obtain q c where d: "deliver_all True ?i (map wire es) ?b = (q, c)" by fastforce
  then show ?thesis
    using assms(1-6) nw unfolding assms(7) [symmetric] assms(8)
    by (simp add: Watch_def Let_def counter_Current_def deliver_then_subscribe_def sbind_def
        map_err_def assms(7) [symmetric] del: parsePrefix.simps split: sum.splits)
qed

lemma Watch_refused:
  assumes "parse_rv cfg (ResourceVersion opts) = Inr v" and "ResourceVersion opts \<noteq> []"
    and "v \<noteq> 0" and "v < c_rv s" and "replayLocked v (s_bc s) = None"
    and "parsePrefix key = (resource, namespace, single, name)"
    and "mk = matchesKey cfg (Recursive opts) namespace single name"
    and "Watch cfg expired key opts s = (r, t)"
  shows "r = Inr (b_next (s_bc s)) \<and> b_subs (s_bc t) = b_subs (s_bc s) \<and>
    b_watchers (s_bc t) (b_next (s_bc s)) =
      Some ((fresh opts mk)\<lparr>w_ch := [WError (expired (tooOld v (c_rv s)))],
                            w_stopped := True, w_closed := True\<rparr>)"
proof -
  let ?b = "registered opts mk (s_bc s)" and ?i = "b_next (s_bc s)"
  have nw: "newWatcher (Predicate opts) mk 100 (s_bc s) = (?i, ?b)"
    by (simp add: registered_def newWatcher_def)
  have "live (fresh opts mk)" "w_ch (fresh opts mk) = []" by simp_all
  then show ?thesis
    using assms(1-6,8) nw unfolding assms(7) [symmetric]
    by (auto simp: Watch_def Let_def counter_Current_def sbind_def map_err_def assms(7) [symmetric]
        stopWithError_def send_def Stop_def errorStatus_def live_def simp del: parsePrefix.simps)
qed

section \<open>What the walk feeds to lists and snapshots\<close>

definition decodable :: "'o config \<Rightarrow> bytes list \<Rightarrow> 'o list" where
  "decodable cfg ds = concat (map (\<lambda>d. case codec_decode cfg d (Newer cfg) of Inl _ \<Rightarrow> [] | Inr x \<Rightarrow> [x]) ds)"

lemma fold_err_total: "fold_err (\<lambda>x a. Inr (f x a)) xs acc = Inr (fold f xs acc)"
  by (induction xs arbitrary: acc) simp_all

lemma fold_decodable:
  "fold (\<lambda>d snap. case codec_decode cfg d (Newer cfg) of Inl _ \<Rightarrow> snap | Inr x \<Rightarrow> snap @ [x]) ds acc =
   acc @ decodable cfg ds"
  by (induction ds arbitrary: acc) (simp_all add: decodable_def split: sum.splits)

text \<open>The contents of the object files below a directory, in path order.\<close>

definition stored_below :: "'x fs_state_scheme \<Rightarrow> path \<Rightarrow> bytes list" where
  "stored_below s dir =
     (case node_at (fs_root s) dir of
        Inr (Dir es) \<Rightarrow> map snd (object_files (entry_files es)) | _ \<Rightarrow> [])"

definition walkable :: "'x fs_state_scheme \<Rightarrow> path \<Rightarrow> bool" where
  "walkable s dir \<longleftrightarrow> dir_at (fs_root s) dir \<or> node_at (fs_root s) dir = Inl ENOENT"

lemma walk_stored:
  assumes "fs_faults s = []" and "walkable s dir"
  shows "walkObjects err dir fn acc s = (fold_err fn (stored_below s dir) acc, s)"
  using assms walkObjects_Dir [of s dir _ err fn acc] walkObjects_missing [of s dir err fn acc]
  by (auto simp: walkable_def dir_at_def stored_below_def split: sum.splits node.splits)

lemma file_at_append:
  "node_at n p = Inr (Dir es) \<Longrightarrow> file_at n (p @ q) = file_at (Dir es) q"
  by (simp add: file_at_def node_at_append)

lemma file_below_dir:
  assumes "file_at n (p @ q) = Some b" and "q \<noteq> []"
  shows "dir_at n p"
  using assms by (auto simp: file_at_def dir_at_def node_at_append neq_Nil_conv
      split: sum.splits node.splits)

text \<open>Exactly the object files below the directory are visited.\<close>

lemma stored_below_iff:
  assumes "wf_node (fs_root s)"
  shows "d \<in> set (stored_below s dir) \<longleftrightarrow>
    (\<exists>q. q \<noteq> [] \<and> object_name (last q) \<and> files s (dir @ q) = Some d)"
proof (cases "dir_at (fs_root s) dir")
  case True
  then obtain es where es: "node_at (fs_root s) dir = Inr (Dir es)"
    by (auto simp: dir_at_def split: sum.splits node.splits)
  with assms have "wf_node (Dir es)" by (rule node_at_wf)
  note files = set_tree_files(2) [OF this]
  have "d \<in> set (stored_below s dir) \<longleftrightarrow>
      (\<exists>q. (q, d) \<in> set (entry_files es) \<and> q \<noteq> [] \<and> object_name (last q))"
    using es by (auto simp: stored_below_def object_files_def image_iff)
  also have "\<dots> \<longleftrightarrow> (\<exists>q. q \<noteq> [] \<and> object_name (last q) \<and> files s (dir @ q) = Some d)"
    unfolding files file_at_append [OF es] by blast
  finally show ?thesis .
next
  case False
  then have "stored_below s dir = []"
    by (auto simp: stored_below_def dir_at_def split: sum.splits node.splits)
  with False show ?thesis by (auto dest: file_below_dir)
qed

lemma snapshot_dir:
  assumes "fs_faults s = []" and "walkable s (resourceDir (fs_cwd s) (Root cfg) resource namespace)"
  shows "snapshot cfg resource namespace False name s =
    (Inr (decodable cfg (stored_below s (resourceDir (fs_cwd s) (Root cfg) resource namespace))), s)"
  by (simp add: snapshot_def sbind_def attempt_def fold_err_total fold_decodable walk_stored [OF assms])

text \<open>
  What a watch from version 0 is to be given: an \<open>Added\<close> event for each stored object of the
  collection, and the bookmark that ends the list, if it is asked for and can be made.
\<close>

definition initial_events :: "'o config \<Rightarrow> 'o list_options \<Rightarrow> u64 \<Rightarrow> 'o list \<Rightarrow> 'o wevent list" where
  "initial_events cfg opts rv snap =
     map (WEvent Added) snap @
     (if SendInitialEvents opts = Some True
      then (case newInitialEndBookmark cfg rv of Inl _ \<Rightarrow> [] | Inr obj \<Rightarrow> [WEvent Bookmark obj])
      else [])"

definition from_zero :: "'o config \<Rightarrow> 'o list_options \<Rightarrow> bool" where
  "from_zero cfg opts \<longleftrightarrow> ResourceVersion opts = [] \<or> parse_rv cfg (ResourceVersion opts) = Inr 0"

lemma deliver_all_append:
  "deliver_all held i (xs @ ys) b =
     (case deliver_all held i xs b of (Inl a, c) \<Rightarrow> (Inl a, c) | (Inr _, c) \<Rightarrow> deliver_all held i ys c)"
  by (induction xs arbitrary: b) (auto split: prod.splits sum.splits)

lemma deliver_all_single: "deliver_all held i [ev] b = deliver held i ev b"
  by (auto split: prod.splits sum.splits)

lemma Watch_initial:
  assumes "from_zero cfg opts" and "fs_faults s = []"
    and "parsePrefix key = (resource, namespace, False, name)"
    and "dir = resourceDir (fs_cwd s) (Root cfg) resource namespace" and "walkable s dir"
    and "mk = matchesKey cfg (Recursive opts) namespace False name"
    and "snap = decodable cfg (stored_below s dir)"
  shows "Watch cfg expired key opts s = deliver_then_subscribe opts mk (initial_events cfg opts (c_rv s) snap) s"
proof -
  let ?b = "registered opts mk (s_bc s)" and ?i = "b_next (s_bc s)"
  let ?s = "s\<lparr>s_bc := ?b\<rparr>"
  have nw: "newWatcher (Predicate opts) mk 100 (s_bc s) = (?i, ?b)"
    by (simp add: registered_def newWatcher_def)
  have sn: "snapshot cfg resource namespace False name ?s = (Inr snap, ?s)"
    using snapshot_dir [of ?s cfg resource namespace name] assms(2,4,5,7)
    by (simp add: walkable_def stored_below_def)
  obtain q c where d: "deliver_all True ?i (map (WEvent Added) snap) ?b = (q, c)" by fastforce
  have "(if ResourceVersion opts \<noteq> []
      then map_err (\<lambda>e. BadRequest (''invalid resource version: '' @ e)) (of_sum (parse_rv cfg (ResourceVersion opts)))
      else ret 0) s = (Inr 0, s)"
    using assms(1) by (auto simp: from_zero_def map_err_def)
  then show ?thesis
    using assms(3) nw d sn unfolding assms(6) [symmetric]
    by (simp add: Watch_def Let_def counter_Current_def sbind_def assms(6) [symmetric] deliver_then_subscribe_def
        initial_events_def deliver_all_append deliver_all_single
        del: parsePrefix.simps deliver_all.simps(2) split: sum.splits prod.splits)
qed

section \<open>What a list holds\<close>

definition assignable :: "('o, 'l) list_api \<Rightarrow> elem_type \<Rightarrow> 'o \<Rightarrow> bool" where
  "assignable api et obj \<longleftrightarrow> (et = InterfaceElem \<or> et = StructElem (GoType api obj))"

definition listable :: "'o config \<Rightarrow> ('o, 'l) list_api \<Rightarrow> 'o list_options \<Rightarrow> elem_type \<Rightarrow> bytes \<Rightarrow> bool" where
  "listable cfg api opts et d \<longleftrightarrow>
     (case codec_decode cfg d (Newer cfg) of
        Inl _ \<Rightarrow> False
      | Inr obj \<Rightarrow> assignable api et obj \<and> (case Predicate opts obj of Inl _ \<Rightarrow> False | Inr _ \<Rightarrow> True))"

definition matching :: "'o list_options \<Rightarrow> 'o \<Rightarrow> bool" where
  "matching opts obj \<longleftrightarrow> Predicate opts obj = Inr True"

lemma fold_addMatching:
  "\<forall>d \<in> set ds. listable cfg api opts et d \<Longrightarrow>
    fold_err (addMatching cfg api opts) ds (et, xs) =
      Inr (et, xs @ filter (matching opts) (decodable cfg ds))"
proof (induction ds arbitrary: xs)
  case (Cons d ds)
  from Cons.prems obtain obj b where o: "codec_decode cfg d (Newer cfg) = Inr obj"
    "Predicate opts obj = Inr b" "assignable api et obj"
    by (auto simp: listable_def split: sum.splits)
  have "addMatching cfg api opts d (et, xs) = Inr (et, xs @ filter (matching opts) [obj])"
    using o by (cases et) (auto simp: addMatching_def appendItem_def assignable_def matching_def)
  with Cons o(1) show ?case by (simp add: decodable_def)
qed (simp add: decodable_def)

lemma GetList_dir:
  assumes "fs_faults s = []" and "Recursive opts"
    and "parsePrefix key = (resource, namespace, False, name)"
    and "dir = resourceDir (fs_cwd s) (Root cfg) resource namespace" and "walkable s dir"
    and "GetItemsPtr api l = Inr (RPtr (Some (RSlice et xs)))"
    and "\<forall>d \<in> set (stored_below s dir). listable cfg api opts et d"
  shows "GetList cfg api key opts l s =
    (map_sum UpdateListErr id
       (UpdateList api
          (SetItems api l (xs @ filter (matching opts) (decodable cfg (stored_below s dir)))) (c_rv s)), s)"
  using assms(1-6) walk_stored [OF assms(1,5)] fold_addMatching [OF assms(7)]
  by (simp add: GetList_def sbind_def getListItemsValue_def conversionEnforcePtr_def
      counter_Current_def walk_stored map_err_def del: parsePrefix.simps split: sum.splits)

text \<open>A damaged object fails the whole list.\<close>

lemma fold_addMatching_bad:
  assumes "codec_decode cfg d (Newer cfg) = Inl e" and "\<forall>x \<in> set ds. listable cfg api opts et x"
  shows "fold_err (addMatching cfg api opts) (ds @ d # ds') (et, xs) = Inl (StoreErr (CodecErr e))"
  using assms fold_addMatching [OF assms(2)] by (simp add: fold_err_append addMatching_def)

lemma Count_dir:
  assumes "fs_faults s = []" and "parsePrefix key = (resource, namespace, False, name)"
    and "dir = resourceDir (fs_cwd s) (Root cfg) resource namespace" and "walkable s dir"
  shows "Count cfg key s = (Inr (int (length (stored_below s dir))), s)"
proof -
  have "fold (\<lambda>_ n. n + 1) xs acc = acc + int (length xs)" for xs :: "bytes list" and acc
    by (induction xs arbitrary: acc) simp_all
  with assms show ?thesis by (simp add: Count_def walk_stored fold_err_total del: parsePrefix.simps)
qed

lemma Stats_root:
  assumes "fs_faults s = []" and "walkable s (join_path (fs_cwd s) [Root cfg])"
    and "ds = stored_below s (join_path (fs_cwd s) [Root cfg])"
  shows "Stats cfg s =
    (Inr \<lparr>ObjectCount = int (length ds),
          EstimatedAverageObjectSizeBytes = int (sum_list (map length ds)) div int (length ds)\<rparr>, s)"
proof -
  have "fold_err (\<lambda>data (count, total). Inr (count + 1, total + int (length data))) xs (c, n) =
      (Inr (c + int (length xs), n + int (sum_list (map length xs))) :: os_error + int \<times> int)"
    for xs :: "bytes list" and c n
    by (induction xs arbitrary: c n) simp_all
  with assms show ?thesis by (simp add: Stats_def walk_stored)
qed

end
