(* ===== verification/Example.thy ===== *)
theory Example
  imports Store_Objects Store_Watch
begin

text \<open>
  A concrete instance of what the store takes as parameters, on which the hypotheses of the
  development's theorems are shown to hold: objects with the metadata the store looks at and a
  body, a line-based codec, the API machinery's versioner, and an empty disk.
\<close>

record item =
  i_namespace :: string
  i_name :: string
  i_uid :: string
  i_rv :: u64
  i_body :: string

abbreviation newline :: char where
  "newline \<equiv> CHR 0x0A"

definition item_fields :: "item \<Rightarrow> string list" where
  "item_fields x = [i_namespace x, i_name x, i_uid x, format_uint (i_rv x), i_body x]"

definition item_encode :: "item \<Rightarrow> string + bytes" where
  "item_encode x =
     (if list_all (\<lambda>f. newline \<notin> set f) (item_fields x) then Inr (join_on newline (item_fields x))
      else Inl ''field with a newline'')"

definition item_decode :: "bytes \<Rightarrow> item \<Rightarrow> string + item" where
  "item_decode b into =
     (case split_on newline b of
        [ns, n, u, v, body] \<Rightarrow>
          (case parse_uint v of
             Inl _ \<Rightarrow> Inl ''bad version''
           | Inr rv \<Rightarrow>
               Inr \<lparr>i_namespace = ns, i_name = n, i_uid = u, i_rv = rv, i_body = body\<rparr>)
      | _ \<Rightarrow> Inl ''bad object'')"

definition blank :: item where
  "blank = \<lparr>i_namespace = [], i_name = [], i_uid = [], i_rv = 0, i_body = []\<rparr>"

definition demo :: "item config" where
  "demo =
     \<lparr>Root = ''/data'', codec_encode = item_encode, codec_decode = item_decode, Newer = blank,
      accessor_ok = (\<lambda>_. True), get_uid = i_uid, set_uid = (\<lambda>x u. x\<lparr>i_uid := u\<rparr>),
      get_namespace = i_namespace, get_name = i_name,
      update_object = (\<lambda>x v. Inr (x\<lparr>i_rv := v\<rparr>)), object_rv = (\<lambda>x. Inr (i_rv x)),
      annotate_end = Inr, parse_rv = (\<lambda>s. map_sum (\<lambda>_. ''bad version'') id (parse_uint s))\<rparr>"

definition empty_disk :: "item sstate" where
  "empty_disk =
     \<lparr>fs_root = Dir [(''data'', Dir [])], fs_cwd = [], fs_faults = [], c_rv = 1, s_uid = 0,
      s_bc = newBroadcaster 1000\<rparr>"

definition web :: item where
  "web = \<lparr>i_namespace = ''default'', i_name = ''web'', i_uid = [], i_rv = 0, i_body = ''v1''\<rparr>"

text \<open>The codec is a codec: what it encodes it decodes.\<close>

lemma item_codec: "item_encode x = Inr d \<Longrightarrow> item_decode d into = Inr x"
proof -
  assume "item_encode x = Inr d"
  then have d: "d = join_on newline (item_fields x)" and "\<forall>f \<in> set (item_fields x). newline \<notin> set f"
    by (auto simp: item_encode_def list_all_iff split: if_splits)
  then have "split_on newline d = item_fields x"
    by (subst d, intro split_join) (auto simp: item_fields_def)
  then show ?thesis by (simp add: item_decode_def item_fields_def)
qed

lemma demo_simps [simp]:
  "Root demo = ''/data''" "codec_encode demo = item_encode" "codec_decode demo = item_decode"
  "Newer demo = blank" "accessor_ok demo x" "get_uid demo = i_uid"
  "update_object demo x v = Inr (x\<lparr>i_rv := v\<rparr>)"
  by (simp_all add: demo_def)

section \<open>A run\<close>

text \<open>The store is started on an empty disk and creates a pod.\<close>

abbreviation web_key :: string where
  "web_key \<equiv> ''/pods/default/web''"

abbreviation web_path :: path where
  "web_path \<equiv> [''data'', ''pods'', ''default'', ''web.json'']"

definition power_on :: "item sstate" where
  "power_on =
     \<lparr>fs_root = Dir [], fs_cwd = [], fs_faults = [], c_rv = 0, s_uid = 0, s_bc = newBroadcaster 0\<rparr>"

definition booted :: "item sstate" where
  "booted = snd (New demo False power_on)"

definition created :: "item sstate" where
  "created = snd (Create demo web_key web None booted)"

lemma split_result: "fst x = r \<Longrightarrow> x = (r, snd x)"
  by (cases x) simp

lemma booted_run: "New demo False power_on = (Inr (), booted)"
  unfolding booted_def by (rule split_result) code_simp

lemma created_run: "Create demo web_key web None booted = (Inr None, created)"
  unfolding created_def by (rule split_result) code_simp

lemma booted_facts:
  "fs_faults booted = []" "fs_cwd booted = []" "c_rv booted = 1" "s_uid booted = 0"
  "fs_root booted = Dir [(''data'', Dir [])]"
  by code_simp+

lemma created_facts:
  "fs_faults created = []" "fs_cwd created = []" "c_rv created = 2"
  "files created web_path = Some (join_on newline [''default'', ''web'', ''fsstorage-uid-1'', ''2'', ''v1''])"
  by code_simp+

lemma web_key_path: "key_path demo [] web_key = Inr web_path"
  by code_simp

lemma steady_no_faults: "fs_faults s = [] \<Longrightarrow> steady s"
  by (simp add: steady_def)

lemma booted_history: "history demo [] booted"
  using booted_run by (rule history.started) (simp_all add: steady_def power_on_def)

abbreviation created_log :: "item event list" where
  "created_log \<equiv> new_events (s_bc booted) (s_bc created)"

lemma created_history: "history demo created_log created"
proof -
  have "booted\<lparr>fs_faults := []\<rparr> = booted" using booted_facts(1) by (cases booted) simp
  then have "exec demo (ReqCreate web_key web None) (booted\<lparr>fs_faults := []\<rparr>) = (Inr None, created)"
    using created_run by simp
  from history.served [OF booted_history _ this] booted_facts show ?thesis by simp
qed

definition web2 :: item where
  "web2 = \<lparr>i_namespace = ''default'', i_name = ''web'', i_uid = ''fsstorage-uid-1'', i_rv = 2, i_body = ''v1''\<rparr>"

lemma created_event: "created_log = [\<lparr>ev_rv = 2, ev_type = Added, ev_obj = web2\<rparr>]"
  by code_simp

abbreviation web_data :: bytes where
  "web_data \<equiv> join_on newline [''default'', ''web'', ''fsstorage-uid-1'', ''2'', ''v1'']"

lemma created_root:
  "fs_root created =
     Dir [(''data'', Dir [(''.rv'', File ''2''),
       (''pods'', Dir [(''default'', Dir [(''web.json'', File web_data)])])])]"
  by code_simp

lemma created_healthy: "healthy demo web_path created"
proof -
  have "counter_file (Root demo) [] = [''data'', ''.rv'']" by code_simp
  moreover have "writable (fs_root created) web_path"
    unfolding created_root writable_code by (simp add: tmp_of_def upt_rec)
  ultimately show ?thesis
    unfolding healthy_def Let_def created_facts by (simp add: created_root tmp_of_def)
qed

lemma web_data_decode: "codec_decode demo web_data (Newer demo) = Inr web2"
proof -
  have "item_encode web2 = Inr web_data" by code_simp
  then show ?thesis by (simp only: item_codec demo_simps)
qed

text \<open>An update that changes the body and drops the UID.\<close>

definition edit :: "item update_func" where
  "edit cur v = Inr (cur\<lparr>i_body := ''v2'', i_uid := []\<rparr>, cur)"

definition always :: "string \<Rightarrow> item \<Rightarrow> string + unit" where
  "always key x = Inr ()"

definition edited :: "item sstate" where
  "edited = snd (GuaranteedUpdate demo web_key None False always edit created)"

abbreviation web_new :: item where
  "web_new \<equiv> web2\<lparr>i_body := ''v2'', i_uid := []\<rparr>"

lemma publish_quiet: "b_subs b = [] \<Longrightarrow> fst (publish ev b) = Inr ()"
  by (simp add: publish_def Let_def)

lemma created_no_subs: "b_subs (s_bc created) = []"
  by code_simp

lemma edited_run:
  "GuaranteedUpdate demo web_key None False always edit created = (Inr None, edited) \<and> fs_faults edited = []"
proof -
  have "\<exists>t. GuaranteedUpdate demo web_key None False always edit created = (Inr None, t) \<and> fs_faults t = []"
  proof (rule Update_ok)
    show "key_path demo (fs_cwd created) web_key = Inr web_path" by (simp only: created_facts web_key_path)
    show "files created web_path = Some web_data" by (rule created_facts)
    show "codec_encode demo web_new = Inr (join_on newline [''default'', ''web'', [], ''2'', ''v2''])"
      by code_simp
    show "codec_encode demo (kept_uid demo web2 (web_new\<lparr>i_rv := c_rv created + 1\<rparr>)) =
        Inr (join_on newline [''default'', ''web'', ''fsstorage-uid-1'', ''3'', ''v2''])"
      unfolding created_facts by code_simp
  qed (simp_all add: created_healthy web_data_decode [simplified] always_def edit_def spec_out_def
      publish_quiet created_no_subs)
  then show ?thesis by (auto simp: edited_def)
qed

lemma booted_healthy: "healthy demo web_path booted"
proof -
  have "counter_file (Root demo) [] = [''data'', ''.rv'']" by code_simp
  moreover have "writable (fs_root booted) web_path"
    unfolding booted_facts writable_code by (simp add: tmp_of_def upt_rec)
  ultimately show ?thesis
    unfolding healthy_def Let_def booted_facts by (simp add: tmp_of_def)
qed

definition deleted :: "item sstate" where
  "deleted = snd (Delete demo web_key None always None False created)"

lemma deleted_run: "Delete demo web_key None always None False created = (Inr None, deleted)"
  unfolding deleted_def by (rule split_result) code_simp

lemma deleted_facts: "fs_faults deleted = []"
  by code_simp

section \<open>Watching and listing\<close>

definition watch_from :: "string \<Rightarrow> item list_options" where
  "watch_from v =
     \<lparr>Predicate = (\<lambda>_. Inr True), Recursive = True, ResourceVersion = v, SendInitialEvents = Some True\<rparr>"

definition gone_status :: "string \<Rightarrow> status" where
  "gone_status msg = \<lparr>st_status = ''Failure'', st_message = msg, st_reason = ''Expired''\<rparr>"

abbreviation pods_prefix :: "string \<times> string \<times> bool \<times> string" where
  "pods_prefix \<equiv> (''pods'', [], False, [])"

lemma parse_pods: "parsePrefix ''/pods'' = pods_prefix"
  by code_simp

lemma pods_dir: "resourceDir [] (Root demo) ''pods'' [] = [''data'', ''pods'']"
  by code_simp

text \<open>A resource directory with any number of pods.\<close>

definition pod_file :: "nat \<Rightarrow> string" where
  "pod_file k = replicate (Suc k) (CHR ''p'') @ ''.json''"

definition crowded :: "nat \<Rightarrow> item sstate" where
  "crowded n = booted\<lparr>fs_root := Dir [(''data'', Dir [(''pods'', Dir (map (\<lambda>k. (pod_file k, File web_data)) [0..<n]))])]\<rparr>"

lemma pod_object_name: "object_name (pod_file k)"
  by (simp add: object_name_def pod_file_def has_suffix_iff has_prefix_def)

lemma entry_files_flat: "entry_files (map (\<lambda>k. (f k, File b)) ks) = map (\<lambda>k. ([f k], b)) ks"
  by (induction ks) simp_all

lemma crowded_stored: "stored_below (crowded n) [''data'', ''pods''] = replicate n web_data"
proof -
  have "map snd (object_files (entry_files (map (\<lambda>k. (pod_file k, File web_data)) [0..<n]))) =
      map (\<lambda>k. web_data) [0..<n]"
    unfolding entry_files_flat object_files_def
    by (simp add: filter_map comp_def pod_object_name del: join_on.simps)
  then show ?thesis
    by (simp add: crowded_def stored_below_def map_replicate_const del: join_on.simps)
qed

lemma crowded_decodable: "decodable demo (stored_below (crowded n) [''data'', ''pods'']) = replicate n web2"
  using web_data_decode
  by (simp add: crowded_stored decodable_def map_replicate del: join_on.simps)

lemma crowded_facts:
  "fs_cwd (crowded n) = []" "fs_faults (crowded n) = []" "c_rv (crowded n) = 1"
  "walkable (crowded n) [''data'', ''pods'']"
  by (simp_all add: crowded_def booted_facts walkable_def)

text \<open>List objects are a slice of items and a version.\<close>

definition item_list_api :: "(item, item list \<times> u64) list_api" where
  "item_list_api =
     \<lparr>GetItemsPtr = (\<lambda>l. Inr (RPtr (Some (RSlice (StructElem ''v1.Item'') (fst l))))),
      SetItems = (\<lambda>l xs. (xs, snd l)), UpdateList = (\<lambda>l v. Inr (fst l, v)), GoType = (\<lambda>_. ''v1.Item'')\<rparr>"

definition one_watcher :: "nat \<Rightarrow> item broadcaster" where
  "one_watcher room =
     subscribeLocked 0 (snd (newWatcher (\<lambda>_. Inr True) (\<lambda>_. True) room (newBroadcaster 1000)))"

definition web_added :: "item event" where
  "web_added = \<lparr>ev_rv = 2, ev_type = Added, ev_obj = web2\<rparr>"

lemma one_watcher_facts:
  "b_subs (one_watcher n) = [0]"
  "b_watchers (one_watcher n) 0 = Some \<lparr>w_predicate = (\<lambda>_. Inr True), w_matchesKey = (\<lambda>_. True), w_ch = [], w_buf = n,
     w_stopped = False, w_closed = False, w_onStop = True\<rparr>"
  by (simp_all add: one_watcher_def subscribeLocked_def newWatcher_def newBroadcaster_def)

text \<open>A watcher with the channel that \<open>Watch\<close> makes, after \<open>n\<close> events that nobody received.\<close>

definition fed :: "nat \<Rightarrow> item broadcaster" where
  "fed n = ((\<lambda>b. snd (publish web_added b)) ^^ n) (one_watcher 100)"

lemma fed_facts_le:
  "n \<le> 100 \<Longrightarrow> b_subs (fed n) = [0] \<and>
     b_watchers (fed n) 0 = Some \<lparr>w_predicate = (\<lambda>_. Inr True), w_matchesKey = (\<lambda>_. True),
       w_ch = replicate n (WEvent Added web2), w_buf = 100, w_stopped = False, w_closed = False, w_onStop = True\<rparr>"
proof (induction n)
  case 0
  then show ?case by (simp add: fed_def one_watcher_facts)
next
  case (Suc n)
  then have "ready_for web_added (fed n) 0" by (simp add: ready_for_def live_def has_room_def)
  with Suc have "fed (Suc n) = snd (publish web_added (fed n))" "\<forall>i \<in> set (b_subs (fed n)). ready_for web_added (fed n) i"
    by (simp_all add: fed_def)
  with Suc publish_ready [of "fed n" web_added] show ?case
    by (simp add: offer_def accepts_def web_added_def replicate_append_same)
qed

lemmas fed_facts = conjunct1 [OF fed_facts_le [OF order.refl]] conjunct2 [OF fed_facts_le [OF order.refl]]

end
