(* ===== verification/Interleaving.thy ===== *)
theory Interleaving
  imports Example
begin

text \<open>
  Concurrent writers of one store. A request holds the mutex of its object's path (\<open>keyMuMap\<close>, here by the name \<open>k\<close>
  of the path) from its first file access to its return; the version counter and the broadcaster have mutexes of their own, so
  drawing a version and publishing an event are atomic, but requests for other keys run in between.
  The step relation interleaves the requests at exactly these points.
\<close>

section \<open>Worlds\<close>

text \<open>Where the request that holds a key's mutex is.\<close>

datatype pc = Locked | Drawn u64 | Published

record 'o world =
  w_store :: "'o sstate"
  w_keyMu :: "string \<Rightarrow> pc option"
  w_log :: "(string \<times> 'o event) list"

text \<open>
  \<open>work\<close> is everything a request does to the files, the UID counter and its own objects, a failed
  draw of a version, and the clients' opening and stopping of watches: neither the version counter
  nor the ring changes. \<open>publish\<close> may come back with a deadlock; the event is in the ring then, too.
  A request may give up and unlock at any point. The version counter is not about to wrap.
\<close>

inductive wstep :: "'o config \<Rightarrow> 'o world \<Rightarrow> 'o world \<Rightarrow> bool" for cfg where
  lock: "w_keyMu W k = None \<Longrightarrow> wstep cfg W (W\<lparr>w_keyMu := (w_keyMu W)(k \<mapsto> Locked)\<rparr>)"
| work: "c_rv s = c_rv (w_store W) \<Longrightarrow> b_ring (s_bc s) = b_ring (s_bc (w_store W)) \<Longrightarrow>
    b_capacity (s_bc s) = b_capacity (s_bc (w_store W)) \<Longrightarrow> wstep cfg W (W\<lparr>w_store := s\<rparr>)"
| draw: "w_keyMu W k = Some Locked \<Longrightarrow> c_rv (w_store W) + 1 \<noteq> 0 \<Longrightarrow>
    nextRV cfg (w_store W) = (Inr rv, s) \<Longrightarrow>
    wstep cfg W (W\<lparr>w_store := s, w_keyMu := (w_keyMu W)(k \<mapsto> Drawn rv)\<rparr>)"
| publish: "w_keyMu W k = Some (Drawn rv) \<Longrightarrow> ev_rv ev = rv \<Longrightarrow> publishEvent ev (w_store W) = (r, s) \<Longrightarrow>
    wstep cfg W (W\<lparr>w_store := s, w_keyMu := (w_keyMu W)(k \<mapsto> Published), w_log := w_log W @ [(k, ev)]\<rparr>)"
| unlock: "wstep cfg W (W\<lparr>w_keyMu := (w_keyMu W)(k := None)\<rparr>)"

abbreviation wsteps :: "'o config \<Rightarrow> 'o world \<Rightarrow> 'o world \<Rightarrow> bool" where
  "wsteps cfg \<equiv> (wstep cfg)\<^sup>*\<^sup>*"

definition started :: "'o sstate \<Rightarrow> 'o world" where
  "started s = \<lparr>w_store = s, w_keyMu = (\<lambda>_. None), w_log = []\<rparr>"

inductive_cases wstepE: "wstep cfg W W'"

section \<open>The invariant\<close>

definition of_key :: "string \<Rightarrow> (string \<times> 'o event) list \<Rightarrow> 'o event list" where
  "of_key k log = map snd (filter (\<lambda>e. fst e = k) log)"

definition log_versions :: "'o world \<Rightarrow> u64 set" where
  "log_versions W = ev_rv ` snd ` set (w_log W)"

text \<open>
  A drawn version is used by nobody else, and lies after all events of its own key; published
  versions are distinct, and increase per key; the ring is the end of the log.
\<close>

definition world_ok :: "'o world \<Rightarrow> bool" where
  "world_ok W \<longleftrightarrow>
     ring_holds (map snd (w_log W)) (s_bc (w_store W)) \<and>
     (\<forall>v \<in> log_versions W. v \<le> c_rv (w_store W)) \<and>
     distinct (map (ev_rv \<circ> snd) (w_log W)) \<and>
     (\<forall>k. rv_sorted (of_key k (w_log W))) \<and>
     (\<forall>k rv. w_keyMu W k = Some (Drawn rv) \<longrightarrow>
        rv \<le> c_rv (w_store W) \<and> rv \<notin> log_versions W \<and> (\<forall>e \<in> set (of_key k (w_log W)). ev_rv e < rv)) \<and>
     (\<forall>k k' rv. w_keyMu W k = Some (Drawn rv) \<and> w_keyMu W k' = Some (Drawn rv) \<longrightarrow> k = k')"

lemma of_key_snoc: "of_key k (log @ [(k', e)]) = of_key k log @ (if k' = k then [e] else [])"
  by (simp add: of_key_def)

lemma of_key_versions: "e \<in> set (of_key k (w_log W)) \<Longrightarrow> ev_rv e \<in> log_versions W"
  by (force simp: of_key_def log_versions_def)

lemma nextRV_store:
  assumes "nextRV cfg s = (Inr rv, t)"
  shows "rv = c_rv s + 1" "c_rv t = rv" "s_bc t = s_bc s"
proof -
  from assms have n: "counter_Next (Root cfg) s = (Inr rv, t)"
    by (auto simp: nextRV_def map_err_def split: prod.splits sum.splits)
  show "rv = c_rv s + 1" "c_rv t = rv" using counter_Next_Inr [OF n] by simp_all
  from counter_Next_Inr(4) [OF n] show "s_bc t = s_bc s" by (cases s; cases t) simp
qed

lemma publishEvent_store:
  assumes "publishEvent ev s = (r, t)"
  shows "c_rv t = c_rv s" "s_bc t = snd (publish ev (s_bc s))"
  using memory_frame(7,8) [of ev s] assms by simp_all

lemma world_ok_step:
  assumes "wstep cfg W W'" and "world_ok W"
  shows "world_ok W'"
  using assms(1)
proof cases
  case (work s)
  with assms(2) show ?thesis by (simp add: world_ok_def log_versions_def ring_holds_def)
next
  case (draw k rv s)
  note n = nextRV_store [OF draw(4)]
  have "c_rv (w_store W) < rv" using draw(3) n(1) less_inc by metis
  moreover from this have "v \<le> rv" if "v \<le> c_rv (w_store W)" for v using that by simp
  moreover have "v < rv" if "v \<in> log_versions W" for v
    using that assms(2) \<open>c_rv (w_store W) < rv\<close> by (fastforce simp: world_ok_def)
  moreover have "w_keyMu W k' \<noteq> Some (Drawn rv)" for k'
    using assms(2) \<open>c_rv (w_store W) < rv\<close> by (fastforce simp: world_ok_def)
  ultimately show ?thesis using draw(1) n assms(2) of_key_versions [of _ _ W]
    by (auto simp: world_ok_def log_versions_def dest: leD)
next
  case (publish k rv ev r s)
  note n = publishEvent_store [OF publish(4)]
  let ?W = "W\<lparr>w_store := s, w_keyMu := (w_keyMu W)(k \<mapsto> Published), w_log := w_log W @ [(k, ev)]\<rparr>"
  from assms(2) publish(2) have d: "rv \<le> c_rv (w_store W)" "rv \<notin> log_versions W"
    "\<forall>e \<in> set (of_key k (w_log W)). ev_rv e < rv" by (simp_all add: world_ok_def)
  have "log_versions ?W = insert rv (log_versions W)" using publish(3) by (simp add: log_versions_def)
  moreover have "w_keyMu W k' \<noteq> Some (Drawn rv)" if "k' \<noteq> k" for k'
    using that assms(2) publish(2) unfolding world_ok_def by blast
  moreover have "distinct (map (ev_rv \<circ> snd) (w_log ?W))"
    using d(2) assms(2) publish(3) by (auto simp: world_ok_def log_versions_def)
  moreover have "ring_holds (map snd (w_log ?W)) (s_bc s)"
    using assms(2) blog.append_log [of "map snd (w_log W)" "s_bc (w_store W)" ev] by (simp add: n(2) world_ok_def)
  ultimately have "world_ok ?W" using d assms(2) n(1) publish(3)
    by (auto simp: world_ok_def of_key_snoc sorted_wrt_append)
  with publish(1) show ?thesis by simp
qed (use assms(2) in \<open>auto simp: world_ok_def log_versions_def split: if_splits\<close>)

lemma world_ok_steps: "wsteps cfg W W' \<Longrightarrow> world_ok W \<Longrightarrow> world_ok W'"
  by (induction rule: rtranclp_induct) (auto intro: world_ok_step)

lemma started_ok: "b_ring (s_bc s) = [] \<Longrightarrow> 0 < b_capacity (s_bc s) \<Longrightarrow> world_ok (started s)"
  by (simp add: world_ok_def started_def ring_holds_def last_events_def log_versions_def of_key_def)

lemma capacity_steps: "wsteps cfg W W' \<Longrightarrow> b_capacity (s_bc (w_store W')) = b_capacity (s_bc (w_store W))"
  by (induction rule: rtranclp_induct)
    (auto elim!: wstepE simp: nextRV_store(3) publishEvent_store(2) publish_ring)

section \<open>Requests are schedules\<close>

text \<open>
  A computation of the holder of key \<open>k\<close> at point \<open>p\<close> is a schedule: it is a sequence of steps that
  leaves the other keys alone and publishes at most one event, for its key.
\<close>

definition scheduled :: "'o config \<Rightarrow> string \<Rightarrow> pc \<Rightarrow> 'o world \<Rightarrow> 'o sstate \<Rightarrow> bool" where
  "scheduled cfg k p W t \<longleftrightarrow>
     (w_keyMu W k = Some p \<longrightarrow> (p = Locked \<longrightarrow> c_rv (w_store W) + 1 \<noteq> 0) \<longrightarrow>
        (\<exists>W'. wsteps cfg W W' \<and> w_store W' = t \<and> (\<forall>k'. k' \<noteq> k \<longrightarrow> w_keyMu W' k' = w_keyMu W k') \<and>
           (w_log W' = w_log W \<or> (p \<noteq> Published \<and> (\<exists>ev. w_log W' = w_log W @ [(k, ev)])))))"

definition schedule :: "'o config \<Rightarrow> string \<Rightarrow> pc \<Rightarrow> ('o sstate, 'e, 'a) sem \<Rightarrow> bool" where
  "schedule cfg k p m \<longleftrightarrow> (\<forall>W. scheduled cfg k p W (snd (m (w_store W))))"

lemma quiet_store:
  "quiet m \<Longrightarrow> c_rv (snd (m s)) = c_rv s" "quiet m \<Longrightarrow> s_bc (snd (m s)) = s_bc s"
  by (simp_all add: quiet_def)

lemma schedule_quiet:
  fixes cfg :: "'a config"
  assumes "quiet m"
  shows "schedule cfg k p m"
  unfolding schedule_def scheduled_def
proof (intro allI impI)
  fix W :: "'a world"
  let ?t = "snd (m (w_store W))"
  have "wstep cfg W (W\<lparr>w_store := ?t\<rparr>)" using quiet_store [OF assms] by (intro work) simp_all
  then show "\<exists>W'. wsteps cfg W W' \<and> w_store W' = ?t \<and> (\<forall>k'. k' \<noteq> k \<longrightarrow> w_keyMu W' k' = w_keyMu W k') \<and>
      (w_log W' = w_log W \<or> (p \<noteq> Published \<and> (\<exists>ev. w_log W' = w_log W @ [(k, ev)])))"
    by (intro exI [of _ "W\<lparr>w_store := ?t\<rparr>"]) auto
qed

lemma scheduled_after:
  assumes "wstep cfg W U" and "scheduled cfg k p' U t" and "w_keyMu U k = Some p'"
    and "p' = Locked \<Longrightarrow> c_rv (w_store U) + 1 \<noteq> 0"
    and "\<And>k'. k' \<noteq> k \<Longrightarrow> w_keyMu U k' = w_keyMu W k'"
    and "w_log U = w_log W \<and> (p = Published \<longrightarrow> p' = Published) \<or>
      p' = Published \<and> p \<noteq> Published \<and> (\<exists>ev. w_log U = w_log W @ [(k, ev)])"
  shows "scheduled cfg k p W t"
proof -
  from assms(2-4) obtain W' where "wsteps cfg U W'" "w_store W' = t"
    "\<And>k'. k' \<noteq> k \<Longrightarrow> w_keyMu W' k' = w_keyMu U k'"
    "w_log W' = w_log U \<or> (p' \<noteq> Published \<and> (\<exists>ev. w_log W' = w_log U @ [(k, ev)]))"
    by (auto simp: scheduled_def)
  with assms(1,5,6) converse_rtranclp_into_rtranclp [of "wstep cfg" W U W'] show ?thesis
    unfolding scheduled_def by (intro impI exI [of _ W']) auto
qed

lemma schedule_sbind:
  fixes cfg :: "'a config"
  assumes "quiet m" and "\<And>a. schedule cfg k p (f a)"
  shows "schedule cfg k p (sbind m f)"
  unfolding schedule_def
proof
  fix W :: "'a world"
  obtain q u where q: "m (w_store W) = (q, u)" by fastforce
  have same: "c_rv u = c_rv (w_store W)" "s_bc u = s_bc (w_store W)"
    using quiet_store [OF assms(1), of "w_store W"] q by simp_all
  have w: "wstep cfg W (W\<lparr>w_store := u\<rparr>)" using same by (intro work) simp_all
  show "scheduled cfg k p W (snd (sbind m f (w_store W)))"
  proof (cases q)
    case (Inl e)
    have "scheduled cfg k p W (snd (m (w_store W)))"
      using schedule_quiet [OF assms(1)] by (simp add: schedule_def)
    with q Inl show ?thesis by simp
  next
    case (Inr a)
    have "scheduled cfg k p (W\<lparr>w_store := u\<rparr>) (snd (f a u))"
      using assms(2) [of a] unfolding schedule_def by (auto dest: spec [of _ "W\<lparr>w_store := u\<rparr>"])
    from scheduled_after [OF w this] q Inr same(1) show ?thesis by (auto simp: scheduled_def)
  qed
qed

lemma schedule_next:
  fixes cfg :: "'a config"
  assumes "\<And>rv. schedule cfg k (Drawn rv) (f rv)"
  shows "schedule cfg k Locked (sbind (nextRV cfg) f)"
  unfolding schedule_def
proof
  fix W :: "'a world"
  obtain q u where q: "nextRV cfg (w_store W) = (q, u)" by fastforce
  show "scheduled cfg k Locked W (snd (sbind (nextRV cfg) f (w_store W)))"
  proof (cases q)
    case (Inl e)
    with q obtain e' where n: "counter_Next (Root cfg) (w_store W) = (Inl e', u)"
      by (auto simp: nextRV_def map_err_def split: prod.splits sum.splits)
    from counter_Next_Inl(3) [OF n] have "s_bc u = s_bc (w_store W)" by (cases "w_store W"; cases u) simp
    with counter_Next_Inl(1) [OF n] have w: "wstep cfg W (W\<lparr>w_store := u\<rparr>)" by (intro work) simp_all
    then have "scheduled cfg k Locked W u"
      unfolding scheduled_def by (intro impI exI [of _ "W\<lparr>w_store := u\<rparr>"]) auto
    with q Inl show ?thesis by simp
  next
    case (Inr rv)
    let ?U = "W\<lparr>w_store := u, w_keyMu := (w_keyMu W)(k \<mapsto> Drawn rv)\<rparr>"
    have f: "scheduled cfg k (Drawn rv) ?U (snd (f rv u))"
      using assms [of rv] unfolding schedule_def by (auto dest: spec [of _ ?U])
    have "scheduled cfg k Locked W (snd (f rv u))"
      if "w_keyMu W k = Some Locked" "c_rv (w_store W) + 1 \<noteq> 0"
    proof -
      have "wstep cfg W ?U" using that q Inr by (intro draw) simp_all
      from scheduled_after [OF this f] show ?thesis by simp
    qed
    then have "scheduled cfg k Locked W (snd (f rv u))" by (auto simp: scheduled_def)
    with q Inr show ?thesis by simp
  qed
qed

lemma schedule_publish:
  fixes cfg :: "'a config"
  assumes "ev_rv ev = rv" and "\<And>a. quiet (f a)"
  shows "schedule cfg k (Drawn rv) (sbind (publishEvent ev) f)"
  unfolding schedule_def
proof
  fix W :: "'a world"
  obtain q u where q: "publishEvent ev (w_store W) = (q, u)" by fastforce
  let ?U = "W\<lparr>w_store := u, w_keyMu := (w_keyMu W)(k \<mapsto> Published), w_log := w_log W @ [(k, ev)]\<rparr>"
  let ?t = "snd (sbind (publishEvent ev) f (w_store W))"
  have f: "scheduled cfg k Published ?U ?t"
  proof (cases q)
    case (Inl e)
    with q show ?thesis by (auto simp: scheduled_def)
  next
    case (Inr a)
    from schedule_quiet [OF assms(2) [of a], of cfg k Published] q Inr show ?thesis
      unfolding schedule_def by (auto dest: spec [of _ ?U])
  qed
  have "scheduled cfg k (Drawn rv) W ?t" if "w_keyMu W k = Some (Drawn rv)"
  proof -
    have "wstep cfg W ?U" using that q assms(1) by (intro publish) simp_all
    from scheduled_after [OF this f] show ?thesis by simp
  qed
  then show "scheduled cfg k (Drawn rv) W ?t" by (auto simp: scheduled_def)
qed

lemma schedule_case:
  "schedule cfg k p m \<Longrightarrow> schedule cfg k p n \<Longrightarrow> schedule cfg k p (if b then m else n)"
  "(\<And>e. schedule cfg k p (f e)) \<Longrightarrow> (\<And>a. schedule cfg k p (g a)) \<Longrightarrow>
    schedule cfg k p (case x of Inl e \<Rightarrow> f e | Inr a \<Rightarrow> g a)"
  "(\<And>a c. schedule cfg k p (h a c)) \<Longrightarrow> schedule cfg k p (case y of (a, c) \<Rightarrow> h a c)"
  by (cases x; cases y; simp)+

lemmas schedule_leaf = quiet_basic(1,2) [THEN schedule_quiet] quiet_helpers [THEN schedule_quiet]

lemmas schedule_rules = schedule_next schedule_publish schedule_sbind schedule_case schedule_leaf
  evolve_case(2,4,5) evolve_intros

lemma exec_schedule: "schedule cfg k Locked (exec cfg req)"
proof (cases req)
  case (ReqCreate key obj out)
  then show ?thesis by (simp only: exec.simps Create_def) (intro schedule_rules; simp)
next
  case (ReqGet key ign ptr)
  then show ?thesis by (simp only: exec.simps Get_def) (intro schedule_rules)
next
  case (ReqDelete key out pre val ign)
  then show ?thesis by (simp only: exec.simps Delete_def Let_def) (intro schedule_rules; simp)
next
  case (ReqUpdate key dst ign pre upd)
  then show ?thesis by (simp only: exec.simps GuaranteedUpdate_def Let_def) (intro schedule_rules; simp)
qed

text \<open>
  What a request does when it runs alone is a sequence of steps of this system that locks and unlocks a path and adds
  at most one event for it.
\<close>

lemma exec_steps:
  assumes "w_keyMu W k = None" and "c_rv (w_store W) + 1 \<noteq> 0" and "exec cfg req (w_store W) = (r, t)"
  shows "\<exists>W'. wsteps cfg W W' \<and> w_store W' = t \<and> w_keyMu W' = w_keyMu W \<and>
    (w_log W' = w_log W \<or> (\<exists>ev. w_log W' = w_log W @ [(k, ev)]))"
proof -
  let ?U = "W\<lparr>w_keyMu := (w_keyMu W)(k \<mapsto> Locked)\<rparr>"
  have "scheduled cfg k Locked ?U t"
    using exec_schedule [of cfg k req] assms(3) unfolding schedule_def by (auto dest: spec [of _ ?U])
  with assms(2) obtain V where V: "wsteps cfg ?U V" "w_store V = t" "\<And>k'. k' \<noteq> k \<Longrightarrow> w_keyMu V k' = w_keyMu W k'"
    "w_log V = w_log W \<or> (\<exists>ev. w_log V = w_log W @ [(k, ev)])"
    by (auto simp: scheduled_def)
  let ?W' = "V\<lparr>w_keyMu := (w_keyMu V)(k := None)\<rparr>"
  have "wstep cfg W ?U" using assms(1) by (rule lock)
  moreover have "wstep cfg V ?W'" by (rule unlock)
  ultimately have "wsteps cfg W ?W'" using V(1) by simp
  moreover have "w_keyMu ?W' = w_keyMu W" using V(3) assms(1) by auto
  ultimately show ?thesis using V(2,4) by (intro exI [of _ ?W']) auto
qed

lemma no_wrap:
  fixes v :: u64
  assumes "unat v + 3 < 2 ^ 64"
  shows "v + 1 \<noteq> 0" "v + 1 + 1 \<noteq> 0" "v + 1 + 1 + 1 \<noteq> 0"
proof -
  have "unat (v + of_nat n) = unat v + n" if "n \<le> 3" for n
    using assms that by (simp add: unat_word_ariths unat_of_nat)
  from this [of 1] this [of 2] this [of 3] show "v + 1 \<noteq> 0" "v + 1 + 1 \<noteq> 0" "v + 1 + 1 + 1 \<noteq> 0"
    by (auto simp: add.assoc)
qed

text \<open>Two writers: the one that drew its version first publishes last.\<close>

lemma overtaking:
  assumes "nextRV cfg s = (Inr a, s1)" and "nextRV cfg s1 = (Inr b, s2)" and "unat (c_rv s) + 3 < 2 ^ 64"
    and "k \<noteq> k'" and "ev_rv e = a" and "ev_rv e' = b"
  shows "\<exists>W W'. wsteps cfg (started s) W \<and> wsteps cfg W W' \<and> w_log W = [(k', e')] \<and>
    w_log W' = [(k', e'), (k, e)]"
proof -
  note n = no_wrap [OF assms(3)] and r = nextRV_store [OF assms(1)]
  obtain q t where t: "publishEvent e' s2 = (q, t)" by fastforce
  obtain q' t' where t': "publishEvent e t = (q', t')" by fastforce
  let ?W0 = "\<lparr>w_store = s, w_keyMu = [k \<mapsto> Locked], w_log = []\<rparr>"
  let ?W1 = "\<lparr>w_store = s1, w_keyMu = [k \<mapsto> Drawn a], w_log = []\<rparr>"
  let ?W2 = "\<lparr>w_store = s1, w_keyMu = [k \<mapsto> Drawn a, k' \<mapsto> Locked], w_log = []\<rparr>"
  let ?W3 = "\<lparr>w_store = s2, w_keyMu = [k \<mapsto> Drawn a, k' \<mapsto> Drawn b], w_log = []\<rparr>"
  let ?W4 = "\<lparr>w_store = t, w_keyMu = [k \<mapsto> Drawn a, k' \<mapsto> Published], w_log = [(k', e')]\<rparr>"
  let ?W5 = "\<lparr>w_store = t', w_keyMu = [k \<mapsto> Published, k' \<mapsto> Published], w_log = [(k', e'), (k, e)]\<rparr>"
  have "wstep cfg (started s) ?W0" using lock [of "started s" k cfg] by (simp add: started_def)
  moreover have "wstep cfg ?W0 ?W1" using draw [of ?W0 k cfg a s1] assms(1) n(1) by simp
  moreover have "wstep cfg ?W1 ?W2" using lock [of ?W1 k' cfg] assms(4) by simp
  moreover have "wstep cfg ?W2 ?W3" using draw [of ?W2 k' cfg b s2] assms(2) n(2) r by simp
  moreover have "wstep cfg ?W3 ?W4" using publish [of ?W3 k' b e' q t cfg] t assms(6) by simp
  ultimately have "wsteps cfg (started s) ?W4" by (meson rtranclp.rtrancl_into_rtrancl rtranclp.rtrancl_refl)
  moreover have "wstep cfg ?W4 ?W5"
    using publish [of ?W4 k a e q' t' cfg] t' assms(4,5) by (simp add: fun_upd_twist)
  ultimately show ?thesis by (metis r_into_rtranclp world.select_convs(3))
qed

lemma New_broadcaster: "New cfg h s = (Inr (), t) \<Longrightarrow> s_bc t = newBroadcaster 1000"
  by (auto simp: New_def sbind_Inr_iff split: if_splits)

lemma booted_ring: "b_ring (s_bc booted) = []" "b_capacity (s_bc booted) = 1000"
  using New_broadcaster [OF booted_run] by (simp_all add: newBroadcaster_def)

definition web_event :: "u64 \<Rightarrow> item event" where
  "web_event v = \<lparr>ev_rv = v, ev_type = Modified, ev_obj = web\<rparr>"

section \<open>Properties\<close>

text \<open>
  C24: Concurrent writers. However the requests of different keys interleave, no version is published
  twice, none is published that the counter has not handed out, the events of each key are
  published in the order of their versions, and the ring holds the last events published.
\<close>

theorem concurrent_versions:
  assumes "b_ring (s_bc s) = []" and "0 < b_capacity (s_bc s)" and "wsteps cfg (started s) W"
  shows "distinct (map (ev_rv \<circ> snd) (w_log W)) \<and> (\<forall>(k, e) \<in> set (w_log W). ev_rv e \<le> c_rv (w_store W)) \<and>
    (\<forall>k. rv_sorted (of_key k (w_log W))) \<and>
    b_ring (s_bc (w_store W)) = last_events (b_capacity (s_bc (w_store W))) (map snd (w_log W))"
proof -
  from world_ok_steps [OF assms(3) started_ok [OF assms(1,2)]] show ?thesis
    by (auto simp: world_ok_def log_versions_def ring_holds_def)
qed

theorem concurrent_versions_witness:
  "\<exists>W. wsteps demo (started booted) W \<and> rv_sorted (of_key ''/pods/default/web'' (w_log W)) \<and> w_store W = created"
proof -
  obtain W where W: "wsteps demo (started booted) W" "w_store W = created"
    using exec_steps [of "started booted" web_key demo "ReqCreate web_key web None" "Inr None" created]
      created_run booted_facts by (auto simp: started_def)
  with concurrent_versions [of booted demo W] booted_ring show ?thesis by auto
qed

text \<open>
  C25: A resumed watch can miss an event. If two writers of different keys draw their versions and the
  later one publishes first, a client that has seen everything published so far resumes from the
  higher version, is granted the replay, and is never sent the event with the lower one.
\<close>

theorem overtaken_event_is_lost:
  assumes "nextRV cfg s = (Inr a, s1)" and "nextRV cfg s1 = (Inr b, s2)" and "unat (c_rv s) + 3 < 2 ^ 64"
    and "b_ring (s_bc s) = []" and "2 \<le> b_capacity (s_bc s)"
    and "k \<noteq> k'" and "ev_rv e = a" and "ev_rv e' = b"
  shows "\<exists>W W'. wsteps cfg (started s) W \<and> wsteps cfg W W' \<and> w_log W = [(k', e')] \<and>
    w_log W' = [(k', e'), (k, e)] \<and> replayLocked (ev_rv e') (s_bc (w_store W')) = Some []"
proof -
  obtain W W' where W: "wsteps cfg (started s) W" "wsteps cfg W W'" "w_log W = [(k', e')]"
    "w_log W' = [(k', e'), (k, e)]" using overtaking [OF assms(1-3,6-8)] by blast
  from assms(5) have "world_ok (started s)" by (intro started_ok [OF assms(4)]) simp
  moreover have steps: "wsteps cfg (started s) W'" using W(1,2) by simp
  ultimately have "world_ok W'" using world_ok_steps by blast
  with W(4) have "ring_holds [e', e] (s_bc (w_store W'))" by (simp add: world_ok_def)
  moreover have "2 \<le> b_capacity (s_bc (w_store W'))" using capacity_steps [OF steps] assms(5) by (simp add: started_def)
  ultimately have ring: "b_ring (s_bc (w_store W')) = [e', e]" by (simp add: ring_holds_def last_events_def)
  have "a = c_rv s + 1" "b = a + 1" using nextRV_store [OF assms(1)] nextRV_store [OF assms(2)] by simp_all
  with no_wrap [OF assms(3)] less_inc [of a] less_inc [of b] have "a < b" "b < b + 1" by simp_all
  then have "replayLocked (ev_rv e') (s_bc (w_store W')) = Some []"
    using assms(7,8) by (auto simp: replayLocked_def ring)
  with W show ?thesis by blast
qed

theorem overtaken_event_is_lost_witness:
  "\<exists>W W'. wsteps demo (started booted) W \<and> wsteps demo W W' \<and> w_log W = [(''/pods/default/b'', web_event 3)] \<and>
    w_log W' = [(''/pods/default/b'', web_event 3), (''/pods/default/a'', web_event 2)] \<and>
    replayLocked 3 (s_bc (w_store W')) = Some []"
proof -
  let ?s1 = "snd (nextRV demo booted)"
  have "nextRV demo booted = (Inr 2, ?s1)" by (rule split_result) code_simp
  moreover have "nextRV demo ?s1 = (Inr 3, snd (nextRV demo ?s1))" by (rule split_result) code_simp
  ultimately show ?thesis
    using overtaken_event_is_lost [of demo booted 2 ?s1 3 _ "''/pods/default/a''" "''/pods/default/b''"
        "web_event 2" "web_event 3"] booted_facts booted_ring
    by (simp add: web_event_def)
qed

end
