(* ===== verification/Pods.thy ===== *)
theory Pods
  imports Go_Strings
begin

text \<open>
  The parts of the Kubernetes API types that the kubelet and the server's strategies read and
  write, and the formatting of Go's \<open>fmt\<close> that their messages use. Go maps are association lists
  with distinct keys: the order of the list is the order in which a \<open>range\<close> loop happens to visit
  the entries, and no property depends on it. Times are nanoseconds, 0 is the zero time.
\<close>

section \<open>Formatting\<close>

definition hex_digit :: "nat \<Rightarrow> char" where
  "hex_digit d = char_of (if d < 10 then 48 + d else 87 + d)"

text \<open>
  \<open>%q\<close>: double quotes, with Go's escapes for the ASCII characters that have one. Bytes of multi-byte
  characters stand for themselves.
\<close>

definition quote_char :: "char \<Rightarrow> string" where
  "quote_char c =
     (let n = of_char c :: nat
      in if c = CHR 0x22 \<or> c = CHR 0x5C then [CHR 0x5C, c]
         else if n = 7 then [CHR 0x5C, CHR ''a''] else if n = 8 then [CHR 0x5C, CHR ''b'']
         else if n = 9 then [CHR 0x5C, CHR ''t''] else if n = 10 then [CHR 0x5C, CHR ''n'']
         else if n = 11 then [CHR 0x5C, CHR ''v''] else if n = 12 then [CHR 0x5C, CHR ''f'']
         else if n = 13 then [CHR 0x5C, CHR ''r'']
         else if n < 32 \<or> n = 127 then [CHR 0x5C, CHR ''x'', hex_digit (n div 16), hex_digit (n mod 16)]
         else [c])"

definition quote :: "string \<Rightarrow> string" where
  "quote s = CHR 0x22 # concat (map quote_char s) @ [CHR 0x22]"

section \<open>Pods\<close>

type_synonym time = int

text \<open>References to a key of a ConfigMap or Secret: name, key, whether it is optional.\<close>

datatype env_source = ConfigMapKeyRef string string "bool option" | SecretKeyRef string string "bool option" | OtherSource

record env_var =
  e_name :: string
  e_value :: string
  e_valueFrom :: "env_source option"

text \<open>\<open>envFrom\<close>: a prefix and the reference to a ConfigMap or Secret, if there is one.\<close>

datatype env_ref = ConfigMapRef string "bool option" | SecretRef string "bool option" | NoRef

record env_from =
  ef_prefix :: string
  ef_ref :: env_ref

record volume_mount =
  vm_name :: string
  vm_mountPath :: string

datatype volume_source = ConfigMapVolume string "bool option" | SecretVolume string "bool option" | OtherVolume

record volume =
  v_name :: string
  v_source :: volume_source

record container =
  c_name :: string
  c_image :: string
  c_command :: "string list"
  c_args :: "string list"
  c_env :: "env_var list"
  c_envFrom :: "env_from list"
  c_workingDir :: string
  c_pullPolicy :: string
  c_volumeMounts :: "volume_mount list"

datatype phase = NoPhase | Pending | Running | Succeeded | Failed

datatype container_state =
    NoState
  | Waiting string
  | RunningSince time
  | Terminated int string time time string

record container_status =
  cs_name :: string
  cs_image :: string
  cs_imageID :: string
  cs_containerID :: string
  cs_ready :: bool
  cs_restartCount :: int
  cs_state :: container_state

record pod_status =
  ps_phase :: phase
  ps_reason :: string
  ps_message :: string
  ps_hostIP :: string
  ps_podIP :: string
  ps_startTime :: "time option"
  ps_containerStatuses :: "container_status list"

definition empty_status :: pod_status where
  "empty_status =
     \<lparr>ps_phase = NoPhase, ps_reason = [], ps_message = [], ps_hostIP = [], ps_podIP = [],
      ps_startTime = None, ps_containerStatuses = []\<rparr>"

record pod =
  p_uid :: string
  p_namespace :: string
  p_name :: string
  p_resourceVersion :: string
  p_labels :: "(string \<times> string) list"
  p_creationTimestamp :: time
  p_deletionTimestamp :: "time option"
  p_deletionGrace :: "int option"
  p_containers :: "container list"
  p_volumes :: "volume list"
  p_nodeName :: string
  p_gracePeriod :: "int option"
  p_status :: pod_status

text \<open>The metadata of the other kinds, as \<open>metav1.ObjectMeta\<close> is embedded in them.\<close>

record object_meta =
  om_name :: string
  om_namespace :: string
  om_labels :: "(string \<times> string) list"
  om_creationTimestamp :: time

record configmap = object_meta +
  cm_data :: "(string \<times> string) list"
  cm_binaryData :: "(string \<times> bytes) list"

record secret = object_meta +
  sec_type :: string
  sec_data :: "(string \<times> bytes) list"
  sec_stringData :: "(string \<times> string) list"

text \<open>Events (\<open>corev1.Event\<close>): the fields of the object they are about, and three timestamps.\<close>

record kevent = object_meta +
  ke_kind :: string
  ke_objectNamespace :: string
  ke_objectName :: string
  ke_objectUID :: string
  ke_apiVersion :: string
  ke_objectVersion :: string
  ke_fieldPath :: string
  ke_reason :: string
  ke_message :: string
  ke_type :: string
  ke_firstTimestamp :: time
  ke_lastTimestamp :: time
  ke_eventTime :: time
  ke_count :: nat
  ke_component :: string
  ke_host :: string
  ke_controller :: string
  ke_instance :: string

text \<open>What the API client returns for a get: an error with its text, \<open>IsNotFound\<close> or not.\<close>

datatype get_error = IsNotFound string | OtherError string

fun error_text :: "get_error \<Rightarrow> string" where
  "error_text (IsNotFound m) = m"
| "error_text (OtherError m) = m"

record kube_client =
  get_configmap :: "string \<Rightarrow> string \<Rightarrow> get_error + configmap"
  get_secret :: "string \<Rightarrow> string \<Rightarrow> get_error + secret"

end
