(* ===== verification/Projection.thy ===== *)
theory Projection
  imports Pods Filesystem
begin

text \<open>
  \<open>internal/kubelet/projection.go\<close>: the expansion of a container's environment from ConfigMaps and
  Secrets, and the host directories that ConfigMap and Secret volumes are written to. Errors are
  the texts the code builds, since they end up in the pod's status.
\<close>

section \<open>Environment\<close>

definition sortedStringKeys :: "(string \<times> 'v) list \<Rightarrow> string list" where
  "sortedStringKeys m = sort (map fst m)"

definition sortedBytesKeys :: "(string \<times> bytes) list \<Rightarrow> string list" where
  "sortedBytesKeys m = sort (map fst m)"

definition is_optional :: "bool option \<Rightarrow> bool" where
  "is_optional b \<longleftrightarrow> b = Some True"

definition env_entry :: "string \<Rightarrow> string \<Rightarrow> string" where
  "env_entry k v = k @ ''='' @ v"

text \<open>The result of a get that may be missing: \<open>None\<close> is the \<open>continue\<close> of the loop.\<close>

definition optional_get :: "bool option \<Rightarrow> (string \<Rightarrow> string) \<Rightarrow> get_error + 'a \<Rightarrow> string + 'a option" where
  "optional_get opt msg r =
     (case r of
        Inr x \<Rightarrow> Inr (Some x)
      | Inl (IsNotFound m) \<Rightarrow> if is_optional opt then Inr None else Inl (msg m)
      | Inl (OtherError m) \<Rightarrow> Inl (msg m))"

definition expand :: "string \<Rightarrow> string list \<Rightarrow> (string \<times> string) list \<Rightarrow> string list" where
  "expand pfx ks m = map (\<lambda>k. env_entry (pfx @ k) (the (map_of m k))) ks"

definition env_from_entries :: "kube_client \<Rightarrow> string \<Rightarrow> env_from \<Rightarrow> string + string list" where
  "env_from_entries kube ns ef =
     (case ef_ref ef of
        ConfigMapRef name opt \<Rightarrow>
          map_sum id (case_option [] (\<lambda>cm. expand (ef_prefix ef) (sortedStringKeys (cm_data cm)) (cm_data cm)))
            (optional_get opt (\<lambda>m. ''envFrom configMap '' @ quote name @ '': '' @ m)
              (get_configmap kube ns name))
      | SecretRef name opt \<Rightarrow>
          map_sum id (case_option [] (\<lambda>s. expand (ef_prefix ef) (sortedBytesKeys (sec_data s)) (sec_data s)))
            (optional_get opt (\<lambda>m. ''envFrom secret '' @ quote name @ '': '' @ m) (get_secret kube ns name))
      | NoRef \<Rightarrow> Inr [])"

text \<open>A key reference into the data that was got: a missing key is an error unless optional.\<close>

definition key_entry ::
  "string \<Rightarrow> string \<Rightarrow> string \<Rightarrow> string \<Rightarrow> bool option \<Rightarrow> (string \<times> string) list option \<Rightarrow> string + string list" where
  "key_entry kind var name key opt found =
     (case found of
        None \<Rightarrow> Inr []
      | Some m \<Rightarrow>
          (case map_of m key of
             Some v \<Rightarrow> Inr [env_entry var v]
           | None \<Rightarrow>
               if is_optional opt then Inr []
               else Inl (''env '' @ quote var @ '': '' @ kind @ '' '' @ quote name @ '' has no key '' @ quote key)))"

definition env_var_entries :: "kube_client \<Rightarrow> string \<Rightarrow> env_var \<Rightarrow> string + string list" where
  "env_var_entries kube ns e =
     (case e_valueFrom e of
        None \<Rightarrow> Inr [env_entry (e_name e) (e_value e)]
      | Some (ConfigMapKeyRef name key opt) \<Rightarrow>
          (case optional_get opt
                  (\<lambda>m. ''env '' @ quote (e_name e) @ '' from configMap '' @ quote name @ '': '' @ m)
                  (get_configmap kube ns name) of
             Inl m \<Rightarrow> Inl m
           | Inr cm \<Rightarrow> key_entry ''configMap'' (e_name e) name key opt (map_option cm_data cm))
      | Some (SecretKeyRef name key opt) \<Rightarrow>
          (case optional_get opt
                  (\<lambda>m. ''env '' @ quote (e_name e) @ '' from secret '' @ quote name @ '': '' @ m)
                  (get_secret kube ns name) of
             Inl m \<Rightarrow> Inl m
           | Inr s \<Rightarrow> key_entry ''secret'' (e_name e) name key opt (map_option sec_data s))
      | Some OtherSource \<Rightarrow> Inr [])"

text \<open>The two loops: append what each source gives, return at the first error.\<close>

fun append_all :: "('a \<Rightarrow> string + string list) \<Rightarrow> 'a list \<Rightarrow> string list \<Rightarrow> string + string list" where
  "append_all f [] out = Inr out"
| "append_all f (x # xs) out =
     (case f x of Inl e \<Rightarrow> Inl e | Inr ys \<Rightarrow> append_all f xs (out @ ys))"

definition resolveEnv :: "kube_client \<Rightarrow> string \<Rightarrow> container \<Rightarrow> string + string list" where
  "resolveEnv kube ns c =
     (case append_all (env_from_entries kube ns) (c_envFrom c) [] of
        Inl e \<Rightarrow> Inl e
      | Inr out \<Rightarrow> append_all (env_var_entries kube ns) (c_env c) out)"

section \<open>Volumes\<close>

record host_mount =
  hm_source :: path
  hm_target :: string
  hm_readOnly :: bool

definition volumeHostDir :: "path \<Rightarrow> string \<Rightarrow> pod \<Rightarrow> string \<Rightarrow> path" where
  "volumeHostDir cwd volumeRoot pod volName = join_path cwd [volumeRoot, p_uid pod, volName]"

definition PodVolumeRoot :: "path \<Rightarrow> string \<Rightarrow> string \<Rightarrow> path" where
  "PodVolumeRoot cwd volumeRoot podUID = join_path cwd [volumeRoot, podUID]"

text \<open>\<open>filepath.Base\<close>.\<close>

definition path_base :: "string \<Rightarrow> string" where
  "path_base s =
     (if s = [] then ''.''
      else
        let t = trim_right (CHR ''/'') s
        in if t = [] then ''/'' else last (split_on (CHR ''/'') t))"

text \<open>\<open>os.ReadDir\<close>, names only, and \<open>os.WriteFile\<close> (create or truncate, write, close).\<close>

definition os_read_dir :: "path \<Rightarrow> ('x fs_state_scheme, os_error, string list) sem" where
  "os_read_dir p =
     query (\<lambda>n. case node_at n p of
                  Inl e \<Rightarrow> Inl e | Inr (File b) \<Rightarrow> Inl ENOTDIR | Inr (Dir es) \<Rightarrow> Inr (map fst es))"

definition os_write_file :: "path \<Rightarrow> bytes \<Rightarrow> ('x fs_state_scheme, os_error, unit) sem" where
  "os_write_file p b = sbind (os_create p) (\<lambda>_. sbind (f_write p b) (\<lambda>_. f_close))"

text \<open>\<open>filepath.Join(dir, name)\<close> for a directory that is already resolved.\<close>

definition join_below :: "path \<Rightarrow> string \<Rightarrow> path" where
  "join_below dir name = clean_from dir (split_on (CHR ''/'') name)"

text \<open>
  The text of an error of the operating system is a parameter. The command line makes the volume
  root absolute, so the paths in messages are absolute.
\<close>

type_synonym os_text = "os_error \<Rightarrow> string"

definition ensureDir :: "os_text \<Rightarrow> path \<Rightarrow> ('x fs_state_scheme, string, unit) sem" where
  "ensureDir text dir =
     map_err (\<lambda>e. ''mkdir '' @ CHR ''/'' # join_on (CHR ''/'') dir @ '': '' @ text e) (os_mkdir_all dir)"

fun remove_stale :: "path \<Rightarrow> string list \<Rightarrow> string list \<Rightarrow> ('x fs_state_scheme, string, unit) sem" where
  "remove_stale dir keep [] = ret ()"
| "remove_stale dir keep (e # es) =
     sbind (if e \<in> set keep then ret () else sbind (attempt (os_remove (join_below dir e))) (\<lambda>_. ret ())) (\<lambda>_.
     remove_stale dir keep es)"

fun write_keys :: "os_text \<Rightarrow> path \<Rightarrow> (string \<times> bytes) list \<Rightarrow> ('x fs_state_scheme, string, unit) sem" where
  "write_keys text dir [] = ret ()"
| "write_keys text dir ((k, b) # fs) =
     (if path_base k \<noteq> k then throw (''invalid key '' @ quote k @ '' (must not contain path separators)'')
      else
        sbind (map_err (\<lambda>e. ''write '' @ k @ '': '' @ text e) (os_write_file (join_below dir k) b)) (\<lambda>_.
        write_keys text dir fs))"

definition writeKeyFiles :: "os_text \<Rightarrow> path \<Rightarrow> (string \<times> bytes) list \<Rightarrow> ('x fs_state_scheme, string, unit) sem" where
  "writeKeyFiles text dir kvs =
     sbind (ensureDir text dir) (\<lambda>_.
     sbind (attempt (os_read_dir dir)) (\<lambda>r.
     sbind (remove_stale dir (map fst kvs) (case r of Inl _ \<Rightarrow> [] | Inr entries \<Rightarrow> entries)) (\<lambda>_.
     write_keys text dir kvs)))"

text \<open>The files of a ConfigMap: its data, overridden by its binary data.\<close>

definition configmap_files :: "configmap \<Rightarrow> (string \<times> bytes) list" where
  "configmap_files cm =
     filter (\<lambda>(k, v). k \<notin> fst ` set (cm_binaryData cm)) (cm_data cm) @ cm_binaryData cm"

definition materialiseConfigMap ::
  "os_text \<Rightarrow> kube_client \<Rightarrow> pod \<Rightarrow> string \<Rightarrow> string \<Rightarrow> bool option \<Rightarrow> string \<Rightarrow> ('x fs_state_scheme, string, path) sem" where
  "materialiseConfigMap text kube pod vol name opt volumeRoot =
     sbind (gets (\<lambda>s. volumeHostDir (fs_cwd s) volumeRoot pod vol)) (\<lambda>src.
     sbind (of_sum (optional_get opt
              (\<lambda>m. ''volume '' @ quote vol @ '' configMap '' @ quote name @ '': '' @ m)
              (get_configmap kube (p_namespace pod) name))) (\<lambda>found. case found of
       None \<Rightarrow> sbind (ensureDir text src) (\<lambda>_. ret src)
     | Some cm \<Rightarrow> sbind (writeKeyFiles text src (configmap_files cm)) (\<lambda>_. ret src)))"

definition materialiseSecret ::
  "os_text \<Rightarrow> kube_client \<Rightarrow> pod \<Rightarrow> string \<Rightarrow> string \<Rightarrow> bool option \<Rightarrow> string \<Rightarrow> ('x fs_state_scheme, string, path) sem" where
  "materialiseSecret text kube pod vol name opt volumeRoot =
     sbind (gets (\<lambda>s. volumeHostDir (fs_cwd s) volumeRoot pod vol)) (\<lambda>src.
     sbind (of_sum (optional_get opt
              (\<lambda>m. ''volume '' @ quote vol @ '' secret '' @ quote name @ '': '' @ m)
              (get_secret kube (p_namespace pod) name))) (\<lambda>found. case found of
       None \<Rightarrow> sbind (ensureDir text src) (\<lambda>_. ret src)
     | Some s \<Rightarrow> sbind (writeKeyFiles text src (sec_data s)) (\<lambda>_. ret src)))"

text \<open>\<open>volIndex\<close>: the last volume of a name wins.\<close>

definition vol_index :: "pod \<Rightarrow> string \<Rightarrow> volume option" where
  "vol_index pod n = map_of (rev (map (\<lambda>v. (v_name v, v)) (p_volumes pod))) n"

fun project_mounts ::
  "os_text \<Rightarrow> kube_client \<Rightarrow> pod \<Rightarrow> string \<Rightarrow> volume_mount list \<Rightarrow> ('x fs_state_scheme, string, host_mount list) sem" where
  "project_mounts text kube pod volumeRoot [] = ret []"
| "project_mounts text kube pod volumeRoot (vm # vms) =
     (case vol_index pod (vm_name vm) of
        None \<Rightarrow> throw (''volumeMount '' @ quote (vm_name vm) @ '' has no matching pod.spec.volumes entry'')
      | Some v \<Rightarrow>
          (case v_source v of
             OtherVolume \<Rightarrow> project_mounts text kube pod volumeRoot vms
           | src \<Rightarrow>
               sbind (case src of
                        SecretVolume name opt \<Rightarrow> materialiseSecret text kube pod (v_name v) name opt volumeRoot
                      | ConfigMapVolume name opt \<Rightarrow> materialiseConfigMap text kube pod (v_name v) name opt volumeRoot
                      | OtherVolume \<Rightarrow> ret []) (\<lambda>dir.
               sbind (project_mounts text kube pod volumeRoot vms) (\<lambda>rest.
               ret (\<lparr>hm_source = dir, hm_target = vm_mountPath vm, hm_readOnly = True\<rparr> # rest)))))"

definition projectVolumes ::
  "os_text \<Rightarrow> kube_client \<Rightarrow> pod \<Rightarrow> container \<Rightarrow> string \<Rightarrow> ('x fs_state_scheme, string, host_mount list) sem" where
  "projectVolumes text kube pod c volumeRoot = project_mounts text kube pod volumeRoot (c_volumeMounts c)"

section \<open>Environment: what comes out\<close>

lemma append_all_Inr:
  "append_all f xs out = Inr r \<longleftrightarrow>
     (\<exists>yss. list_all2 (\<lambda>x ys. f x = Inr ys) xs yss \<and> r = out @ concat yss)"
proof (induction f xs out rule: append_all.induct)
  case (2 f x xs out)
  show ?case
  proof (cases "f x")
    case (Inr ys)
    with 2 show ?thesis by (auto simp: list_all2_Cons1)
  qed (auto simp: list_all2_Cons1)
qed auto

lemma resolveEnv_Inr:
  "resolveEnv kube ns c = Inr out \<longleftrightarrow>
     (\<exists>from vars. list_all2 (\<lambda>ef ys. env_from_entries kube ns ef = Inr ys) (c_envFrom c) from \<and>
        list_all2 (\<lambda>e ys. env_var_entries kube ns e = Inr ys) (c_env c) vars \<and>
        out = concat from @ concat vars)"
  by (auto simp: resolveEnv_def append_all_Inr split: sum.splits) (metis append_all_Inr append_Nil sum.inject(2) sum.distinct(1))+

lemma set_expand:
  assumes "distinct (map fst m)"
  shows "set (expand pfx (sortedStringKeys m) m) = {env_entry (pfx @ k) v | k v. (k, v) \<in> set m}"
    and "sortedBytesKeys m = sortedStringKeys m"
  using assms by (force simp: expand_def sortedStringKeys_def image_iff, simp add: sortedBytesKeys_def sortedStringKeys_def)

text \<open>Every entry of a variable is an assignment to its name; the last assignment to a name counts.\<close>

definition env_key :: "string \<Rightarrow> string" where
  "env_key s = takeWhile (\<lambda>c. c \<noteq> CHR ''='') s"

definition env_lookup :: "string list \<Rightarrow> string \<Rightarrow> string option" where
  "env_lookup out n = map_option (drop (length n + 1)) (find (\<lambda>s. env_key s = n) (rev out))"

lemma env_var_entries_key:
  "env_var_entries kube ns e = Inr ys \<Longrightarrow> y \<in> set ys \<Longrightarrow> \<exists>v. y = env_entry (e_name e) v"
  by (auto simp: env_var_entries_def key_entry_def split: option.splits env_source.splits sum.splits if_splits)

lemma env_key_entry: "CHR ''='' \<notin> set n \<Longrightarrow> env_key (env_entry n v) = n"
proof -
  assume "CHR ''='' \<notin> set n"
  then have "\<forall>c \<in> set n. c \<noteq> CHR ''=''" by metis
  then show ?thesis by (simp add: env_key_def env_entry_def)
qed

lemma find_append: "find P (xs @ ys) = (case find P xs of None \<Rightarrow> find P ys | Some x \<Rightarrow> Some x)"
  by (induction xs) auto

lemma env_lookup_last:
  assumes "\<forall>y \<in> set ys. env_key y \<noteq> n" and "CHR ''='' \<notin> set n"
  shows "env_lookup (xs @ env_entry n v # ys) n = Some v"
proof -
  have "find (\<lambda>s. env_key s = n) (rev ys) = None" using assms(1) by (simp add: find_None_iff)
  then have "find (\<lambda>s. env_key s = n) (rev (xs @ env_entry n v # ys)) = Some (env_entry n v)"
    using assms(2) by (simp add: find_append env_key_entry)
  then show ?thesis by (simp add: env_lookup_def env_entry_def)
qed

lemma explicit_entry_last:
  assumes "resolveEnv kube ns c = Inr out" and "c_env c = pre @ e # post"
    and "env_var_entries kube ns e = Inr [env_entry (e_name e) v]"
    and "\<forall>e' \<in> set (e # post). CHR ''='' \<notin> set (e_name e')" and "e_name e \<notin> e_name ` set post"
  shows "env_lookup out (e_name e) = Some v"
proof -
  from assms(1,2) obtain froms vars where out: "out = concat froms @ concat vars"
    and all2: "list_all2 (\<lambda>e ys. env_var_entries kube ns e = Inr ys) (pre @ e # post) vars"
    by (auto simp: resolveEnv_Inr)
  from all2 obtain vs1 ys vs2 where vars: "vars = vs1 @ ys # vs2" and "env_var_entries kube ns e = Inr ys"
    and post: "list_all2 (\<lambda>e ys. env_var_entries kube ns e = Inr ys) post vs2"
    by (auto simp: list_all2_append1 list_all2_Cons1)
  with assms(3) have ys: "ys = [env_entry (e_name e) v]" by simp
  have "env_key y \<noteq> e_name e" if "y \<in> set (concat vs2)" for y
  proof -
    from that obtain zs where zs: "zs \<in> set vs2" "y \<in> set zs" by auto
    then obtain i where "i < length vs2" "zs = vs2 ! i" by (auto simp: in_set_conv_nth)
    with post have "post ! i \<in> set post" "env_var_entries kube ns (post ! i) = Inr zs"
      by (auto simp: list_all2_conv_all_nth)
    then obtain e' where e': "e' \<in> set post" "env_var_entries kube ns e' = Inr zs" by blast
    with env_var_entries_key zs(2) obtain w where "y = env_entry (e_name e') w" by blast
    moreover have "e_name e' \<noteq> e_name e" using e'(1) assms(5) by (metis image_eqI)
    ultimately show ?thesis using e' assms(4) by (simp add: env_key_entry)
  qed
  then show ?thesis
    using env_lookup_last [of "concat vs2" "e_name e" "concat froms @ concat vs1" v] assms(4) by (simp add: out vars ys)
qed

section \<open>Volumes: where they are written\<close>

lemma join_below_plain: "plain_seg k \<Longrightarrow> join_below dir k = dir @ [k]"
  using clean_from_plain [of "[k]" dir] by (simp add: join_below_def plain_seg_def)

lemma path_base_id:
  assumes "path_base k = k"
  shows "k \<noteq> [] \<and> (k = ''/'' \<or> CHR ''/'' \<notin> set k)"
proof -
  have ne: "k \<noteq> []" using assms by (auto simp: path_base_def)
  show ?thesis
  proof (cases "trim_right (CHR ''/'') k = []")
    case True
    with assms ne show ?thesis by (auto simp: path_base_def)
  next
    case False
    with assms ne have "k = last (split_on (CHR ''/'') (trim_right (CHR ''/'') k))"
      by (auto simp: path_base_def Let_def)
    then have "CHR ''/'' \<notin> set k" by (metis last_in_set split_on_no_sep split_on_not_Nil)
    with ne show ?thesis by simp
  qed
qed

text \<open>
  A key that passes the check names a file of the directory, or it is \<open>.\<close>, \<open>..\<close> or the slash,
  which stand for the directory or its parent and cannot be written as files.
\<close>

lemma checked_key:
  assumes "path_base k = k"
  shows "join_below dir k = dir @ [k] \<or> join_below dir k = dir \<or> join_below dir k = butlast dir"
  using path_base_id [OF assms]
  by (auto simp: join_below_def clean_from_def clean_step_def split: if_splits)

text \<open>With no fault ahead: each loop does what it says.\<close>

lemma remove_file_ok:
  assumes "fs_faults s = []" and "files s p = Some b" and "p \<noteq> []"
  shows "\<exists>n. os_remove p s = (Inr (), s\<lparr>fs_root := n\<rparr>) \<and> file_at n = (files s)(p := None) \<and>
    dir_at n = dir_at (fs_root s)"
proof -
  from del_at_ok [OF assms(2,3)] assms(2) obtain n where n: "remove_at p (fs_root s) = Inr n"
    by (auto simp: remove_at_def file_at_def split: sum.splits node.splits)
  with assms(1) have "os_remove p s = (Inr (), s\<lparr>fs_root := n\<rparr>)"
    by (simp add: os_remove_def change_no_fault)
  moreover have "dir_at n = dir_at (fs_root s)" using dirs_remove(1) [OF n assms(2)] by (simp add: fun_eq_iff)
  ultimately show ?thesis using files_remove [OF n] by blast
qed

lemma remove_stale_ok:
  "fs_faults s = [] \<Longrightarrow> \<forall>e \<in> set es. plain_seg e \<and> files s (dir @ [e]) \<noteq> None \<Longrightarrow> distinct es \<Longrightarrow>
    \<exists>n. remove_stale dir keep es s = (Inr (), s\<lparr>fs_root := n\<rparr>) \<and> dir_at n = dir_at (fs_root s) \<and>
      file_at n = (\<lambda>p. if \<exists>e \<in> set es - set keep. p = dir @ [e] then None else files s p)"
proof (induction es arbitrary: s)
  case Nil
  then show ?case by (intro exI [of _ "fs_root s"]) simp
next
  case (Cons e es)
  show ?case
  proof (cases "e \<in> set keep")
    case True
    with Cons show ?thesis by (auto simp: insert_Diff_if)
  next
    case False
    from Cons.prems obtain b where b: "files s (dir @ [e])  = Some b" and pl: "plain_seg e" by auto
    from remove_file_ok [OF Cons.prems(1) b] obtain m
      where m: "os_remove (dir @ [e]) s = (Inr (), s\<lparr>fs_root := m\<rparr>)"
        "file_at m = (files s)(dir @ [e] := None)" "dir_at m = dir_at (fs_root s)" by auto
    have "\<forall>x \<in> set es. plain_seg x \<and> files (s\<lparr>fs_root := m\<rparr>) (dir @ [x]) \<noteq> None"
      using Cons.prems(2,3) m(2) by auto
    then have "\<exists>n. remove_stale dir keep es (s\<lparr>fs_root := m\<rparr>) = (Inr (), s\<lparr>fs_root := n\<rparr>) \<and>
        dir_at n = dir_at m \<and>
        file_at n = (\<lambda>p. if \<exists>e \<in> set es - set keep. p = dir @ [e] then None else file_at m p)"
      using Cons.IH [of "s\<lparr>fs_root := m\<rparr>"] Cons.prems(1,3) by (simp cong: if_cong)
    then obtain n where n: "remove_stale dir keep es (s\<lparr>fs_root := m\<rparr>) = (Inr (), s\<lparr>fs_root := n\<rparr>)"
        "dir_at n = dir_at m"
        "file_at n = (\<lambda>p. if \<exists>e \<in> set es - set keep. p = dir @ [e] then None else file_at m p)" by blast
    have "remove_stale dir keep (e # es) s = (Inr (), s\<lparr>fs_root := n\<rparr>)"
      using False m(1) n(1) pl by (simp add: join_below_plain sbind_def attempt_def)
    moreover have "file_at n = (\<lambda>p. if \<exists>x \<in> set (e # es) - set keep. p = dir @ [x] then None else files s p)"
      using n(3) m(2) False by (auto simp: fun_eq_iff)
    ultimately show ?thesis using n(2) m(3) by auto
  qed
qed

lemma write_file_ok:
  assumes "fs_faults s = []" and "dir_at (fs_root s) dir" and "\<not> dir_at (fs_root s) (dir @ [k])"
  shows "\<exists>n. os_write_file (dir @ [k]) b s = (Inr (), s\<lparr>fs_root := n\<rparr>) \<and> dir_at n = dir_at (fs_root s) \<and>
    file_at n = (files s)(dir @ [k] \<mapsto> b)"
proof -
  let ?p = "dir @ [k]"
  from put_file_ok [of "fs_root s" ?p "[]"] assms(2,3) obtain m where m: "put_file ?p [] (fs_root s) = Inr m"
    by auto
  have dm: "dir_at m = dir_at (fs_root s)" using dirs_put_file [OF m] by (simp add: fun_eq_iff)
  with put_file_ok [of m ?p b] assms(2,3) obtain n where n: "put_file ?p b m = Inr n" by auto
  have "os_write_file ?p b s = (Inr (), s\<lparr>fs_root := n\<rparr>)"
    using assms(1) m n
    by (simp add: os_write_file_def os_create_def f_write_def f_close_def change_no_fault sbind_def)
  moreover have "dir_at n = dir_at (fs_root s)" using dirs_put_file [OF n] dm by (simp add: fun_eq_iff)
  moreover have "file_at n = (files s)(?p \<mapsto> b)"
    using files_put_file [OF n] files_put_file [OF m] by (simp add: fun_eq_iff)
  ultimately show ?thesis by blast
qed

lemma plain_base: "plain_seg k \<Longrightarrow> path_base k = k"
  by (cases k rule: rev_cases) (auto simp: path_base_def plain_seg_def Let_def trim_right_id)

lemma write_keys_ok:
  "fs_faults s = [] \<Longrightarrow> dir_at (fs_root s) dir \<Longrightarrow>
    \<forall>k \<in> fst ` set kvs. plain_seg k \<and> \<not> dir_at (fs_root s) (dir @ [k]) \<Longrightarrow>
    \<exists>n. write_keys text dir kvs s = (Inr (), s\<lparr>fs_root := n\<rparr>) \<and> dir_at n = dir_at (fs_root s) \<and>
      file_at n = (files s) ++ map_of (rev (map (\<lambda>(k, b). (dir @ [k], b)) kvs))"
proof (induction kvs arbitrary: s)
  case Nil
  then show ?case by (intro exI [of _ "fs_root s"]) simp
next
  case (Cons kv kvs)
  obtain k b where kv: "kv = (k, b)" by fastforce
  with Cons.prems(3) have pl: "plain_seg k" and nd: "\<not> dir_at (fs_root s) (dir @ [k])" by auto
  from write_file_ok [OF Cons.prems(1,2) nd] obtain m
    where m: "os_write_file (dir @ [k]) b s = (Inr (), s\<lparr>fs_root := m\<rparr>)"
      "dir_at m = dir_at (fs_root s)" "file_at m = (files s)(dir @ [k] \<mapsto> b)" by blast
  have "\<exists>n. write_keys text dir kvs (s\<lparr>fs_root := m\<rparr>) = (Inr (), s\<lparr>fs_root := n\<rparr>) \<and>
      dir_at n = dir_at m \<and> file_at n = file_at m ++ map_of (rev (map (\<lambda>(k, b). (dir @ [k], b)) kvs))"
    using Cons.IH [of "s\<lparr>fs_root := m\<rparr>"] Cons.prems m(2) by simp
  then obtain n where n: "write_keys text dir kvs (s\<lparr>fs_root := m\<rparr>) = (Inr (), s\<lparr>fs_root := n\<rparr>)"
      "dir_at n = dir_at m"
      "file_at n = file_at m ++ map_of (rev (map (\<lambda>(k, b). (dir @ [k], b)) kvs))" by blast
  have "write_keys text dir (kv # kvs) s = (Inr (), s\<lparr>fs_root := n\<rparr>)"
    using m(1) n(1) pl by (simp add: kv plain_base join_below_plain sbind_def map_err_def)
  with n m show ?case by (intro exI [of _ n]) (simp add: kv map_add_upd)
qed

lemma dir_entries:
  assumes "dir_at n dir" and "wf_node n" and "\<And>k. \<not> dir_at n (dir @ [k])"
  obtains es where "node_at n dir = Inr (Dir es)" "distinct (map fst es)"
    "\<And>k. k \<in> set (map fst es) \<longleftrightarrow> file_at n (dir @ [k]) \<noteq> None"
proof -
  from assms(1) obtain es where es: "node_at n dir = Inr (Dir es)"
    by (auto simp: dir_at_def split: sum.splits node.splits)
  have wf: "wf_node (Dir es)" using node_at_wf [OF assms(2) es] .
  have "k \<in> set (map fst es) \<longleftrightarrow> file_at n (dir @ [k]) \<noteq> None" for k
    using assms(3) [of k] es map_of_eq_None_iff [of es k]
    by (auto simp: file_at_def dir_at_def node_at_append split: option.splits node.splits)
  with that [of es] es distinct_sorted_keys [of es] wf show thesis by auto
qed

lemma map_of_snoc_path:
  "map_of (rev (map (\<lambda>(k, b). (dir @ [k], b)) kvs)) (dir @ [k]) = map_of (rev kvs) k"
  "\<nexists>k. p = dir @ [k] \<Longrightarrow> map_of (rev (map (\<lambda>(k, b). (dir @ [k], b)) kvs)) p = None"
  by (induction kvs) (auto simp: map_add_def split: option.splits)

lemma writeKeyFiles_mirror:
  assumes "fs_faults s = []" and "wf_node (fs_root s)" and "\<And>q. prefix q dir \<Longrightarrow> files s q = None"
    and "\<And>k. \<not> dir_at (fs_root s) (dir @ [k])" and "\<And>k. files s (dir @ [k]) \<noteq> None \<Longrightarrow> plain_seg k"
    and "distinct (map fst kvs)" and "\<forall>k \<in> fst ` set kvs. plain_seg k"
  shows "\<exists>t. writeKeyFiles text dir kvs s = (Inr (), t) \<and> (\<forall>k. files t (dir @ [k]) = map_of kvs k) \<and>
    (\<forall>p. (\<nexists>k. p = dir @ [k]) \<longrightarrow> files t p = files s p)"
proof -
  from mkdirs_ok [of dir "fs_root s"] assms(3) obtain n where n: "mkdirs_at dir (fs_root s) = Inr n"
    "dir_at n dir" and nd: "\<forall>q. dir_at n q \<longleftrightarrow> dir_at (fs_root s) q \<or> prefix q dir" by auto
  have fn: "file_at n = files s" using file_at_mkdirs [OF n(1)] by (simp add: fun_eq_iff)
  have sub: "\<not> dir_at n (dir @ [k])" for k using nd assms(4) by (auto simp: prefix_def)
  let ?s1 = "s\<lparr>fs_root := n\<rparr>"
  have mk: "ensureDir text dir s = (Inr (), ?s1)"
    using n(1) assms(1) by (simp add: ensureDir_def os_mkdir_all_def change_no_fault)
  obtain es where es: "node_at n dir = Inr (Dir es)" "distinct (map fst es)"
    and names: "\<And>k. k \<in> set (map fst es) \<longleftrightarrow> file_at n (dir @ [k]) \<noteq> None"
    using dir_entries [OF n(2) wf_mkdirs_at [OF n(1) assms(2)] sub] by metis
  have rd: "os_read_dir dir ?s1 = (Inr (map fst es), ?s1)"
    using es(1) assms(1) by (simp add: os_read_dir_def query_no_fault)
  have "\<forall>e \<in> set (map fst es). plain_seg e \<and> files ?s1 (dir @ [e]) \<noteq> None"
    using names assms(5) fn by auto
  from remove_stale_ok [OF _ this es(2), of "map fst kvs"] assms(1) obtain m
    where m: "remove_stale dir (map fst kvs) (map fst es) ?s1 = (Inr (), s\<lparr>fs_root := m\<rparr>)"
      "dir_at m = dir_at n"
      "file_at m = (\<lambda>p. if \<exists>e \<in> set (map fst es) - set (map fst kvs). p = dir @ [e] then None else file_at n p)"
    by (auto cong: if_cong)
  let ?s2 = "s\<lparr>fs_root := m\<rparr>"
  have "\<exists>t. write_keys text dir kvs ?s2 = (Inr (), ?s2\<lparr>fs_root := t\<rparr>) \<and> dir_at t = dir_at (fs_root ?s2) \<and>
      file_at t = files ?s2 ++ map_of (rev (map (\<lambda>(k, b). (dir @ [k], b)) kvs))"
    using assms(1,7) m(2) n(2) sub by (intro write_keys_ok) auto
  then obtain t where t: "write_keys text dir kvs ?s2 = (Inr (), s\<lparr>fs_root := t\<rparr>)"
    "file_at t = file_at m ++ map_of (rev (map (\<lambda>(k, b). (dir @ [k], b)) kvs))" by auto
  have "writeKeyFiles text dir kvs s = (Inr (), s\<lparr>fs_root := t\<rparr>)"
    using mk rd m(1) t(1) by (simp add: writeKeyFiles_def sbind_def attempt_def)
  moreover have "file_at t (dir @ [k]) = map_of kvs k" for k
  proof -
    have same: "map_of (rev kvs) k = map_of kvs k" 
      using assms(6) map_of_inject_set [of "rev kvs" kvs] by (simp add: rev_map [symmetric])
    show ?thesis
    proof (cases "map_of kvs k")
      case None
      then have "k \<notin> set (map fst kvs)" by (auto simp: map_of_eq_None_iff)
      then have "file_at m (dir @ [k]) = None" using m(3) names [of k] by auto
      with None same t(2) show ?thesis by (simp add: map_add_def map_of_snoc_path)
    qed (use same t(2) in \<open>simp add: map_add_def map_of_snoc_path\<close>)
  qed
  moreover have "file_at t p = files s p" if "\<nexists>k. p = dir @ [k]" for p
    using t(2) m(3) that map_of_snoc_path(2) [OF that, of kvs] by (auto simp: map_add_def fn)
  ultimately show ?thesis by (intro exI [of _ "s\<lparr>fs_root := t\<rparr>"]) simp
qed

lemma map_of_configmap_files:
  "map_of (configmap_files cm) = map_of (cm_data cm) ++ map_of (cm_binaryData cm)"
proof
  fix k
  have "map_of (filter (\<lambda>(k, v). k \<notin> B) m) k = (if k \<in> B then None else map_of m k)"
    for m :: "(string \<times> string) list" and B
    by (induction m) auto
  from this [of "fst ` set (cm_binaryData cm)"]
  have "map_of (filter (\<lambda>(k, v). k \<notin> fst ` set (cm_binaryData cm)) (cm_data cm)) k =
      (if k \<in> fst ` set (cm_binaryData cm) then None else map_of (cm_data cm) k)" .
  moreover have "k \<in> fst ` set (cm_binaryData cm) \<longleftrightarrow> map_of (cm_binaryData cm) k \<noteq> None"
    by (simp add: map_of_eq_None_iff)
  ultimately show "map_of (configmap_files cm) k = (map_of (cm_data cm) ++ map_of (cm_binaryData cm)) k"
    by (simp add: configmap_files_def map_add_def split: option.splits)
qed

lemma configmap_files_keys:
  "distinct (map fst (cm_data cm)) \<Longrightarrow> distinct (map fst (cm_binaryData cm)) \<Longrightarrow> distinct (map fst (configmap_files cm))"
  "fst ` set (configmap_files cm) \<subseteq> fst ` set (cm_data cm) \<union> fst ` set (cm_binaryData cm)"
  by (force simp: configmap_files_def distinct_map_filter)+

end
