(* ===== verification/Translate.thy ===== *)
theory Translate
  imports Projection
begin

text \<open>
  \<open>internal/kubelet/translate.go\<close>: from a pod's specification to the containers Docker is asked for,
  and from what Docker reports to the pod's status.
\<close>

section \<open>Names, labels, pull policy\<close>

definition ContainerName :: "string \<Rightarrow> string \<Rightarrow> string" where
  "ContainerName uid containerName = ''klite_'' @ uid @ ''_'' @ containerName"

definition PodLabelsFor :: "pod \<Rightarrow> string \<Rightarrow> (string \<times> string) list" where
  "PodLabelsFor pod containerName =
     [(''io.k8s.pod.uid'', p_uid pod), (''io.k8s.pod.namespace'', p_namespace pod),
      (''io.k8s.pod.name'', p_name pod), (''io.k8s.container.name'', containerName),
      (''io.k8s.managed-by'', ''kubelet-lite'')]"

text \<open>The first and the last position of a byte, or -1.\<close>

fun index_from :: "int \<Rightarrow> string \<Rightarrow> char \<Rightarrow> int" where
  "index_from i [] b = -1"
| "index_from i (c # cs) b = (if c = b then i else index_from (i + 1) cs b)"

definition indexOf :: "string \<Rightarrow> char \<Rightarrow> int" where
  "indexOf s b = index_from 0 s b"

fun last_from :: "int \<Rightarrow> string \<Rightarrow> char \<Rightarrow> int" where
  "last_from i [] b = -1"
| "last_from i (c # cs) b = (if c = b then i else last_from (i - 1) cs b)"

definition lastIndexOf :: "string \<Rightarrow> char \<Rightarrow> int" where
  "lastIndexOf s b = last_from (int (length s) - 1) (rev s) b"

definition isLatestOrUntagged :: "string \<Rightarrow> bool" where
  "isLatestOrUntagged img0 =
     (let i = indexOf img0 (CHR ''@'');
          img = (if 0 \<le> i then take (nat i) img0 else img0);
          slash = lastIndexOf img (CHR ''/'');
          colon = lastIndexOf img (CHR '':'')
      in if colon \<le> slash then True else drop (nat (colon + 1)) img = ''latest'')"

definition ResolvePullPolicy :: "string \<Rightarrow> string \<Rightarrow> string" where
  "ResolvePullPolicy p img =
     (if p \<noteq> [] then p
      else if isLatestOrUntagged img then ''Always''
      else ''IfNotPresent'')"

section \<open>Container specifications\<close>

record container_spec =
  Image :: string
  Cmd :: "string list"
  Entrypoint :: "string list"
  Env :: "string list"
  WorkingDir :: string
  Labels :: "(string \<times> string) list"
  PullPolicy :: string
  ContainerNm :: string
  Mounts :: "host_mount list"
  NetworkMode :: string

text \<open>Without a client, variables with a \<open>valueFrom\<close> are skipped.\<close>

definition plain_env :: "container \<Rightarrow> string list" where
  "plain_env c = map (\<lambda>e. env_entry (e_name e) (e_value e)) (filter (\<lambda>e. e_valueFrom e = None) (c_env c))"

definition in_container :: "string \<Rightarrow> string \<Rightarrow> string" where
  "in_container name m = ''container '' @ quote name @ '': '' @ m"

definition container_inputs ::
  "os_text \<Rightarrow> kube_client option \<Rightarrow> pod \<Rightarrow> string \<Rightarrow> container \<Rightarrow>
     ('x fs_state_scheme, string, string list \<times> host_mount list) sem" where
  "container_inputs text kube pod volumeRoot c =
     (case kube of
        None \<Rightarrow> ret (plain_env c, [])
      | Some k \<Rightarrow>
          map_err (in_container (c_name c))
            (sbind (of_sum (resolveEnv k (p_namespace pod) c)) (\<lambda>env.
             sbind (projectVolumes text k pod c volumeRoot) (\<lambda>mounts. ret (env, mounts)))))"

definition make_spec :: "pod \<Rightarrow> string \<Rightarrow> bool \<Rightarrow> container \<Rightarrow> string list \<times> host_mount list \<Rightarrow> container_spec" where
  "make_spec pod sandboxName first c inputs =
     \<lparr>Image = c_image c, Cmd = c_args c, Entrypoint = c_command c, Env = fst inputs,
      WorkingDir = c_workingDir c, Labels = PodLabelsFor pod (c_name c),
      PullPolicy = ResolvePullPolicy (c_pullPolicy c) (c_image c), ContainerNm = c_name c,
      Mounts = snd inputs, NetworkMode = (if first then [] else ''container:'' @ sandboxName)\<rparr>"

fun specs_loop ::
  "os_text \<Rightarrow> kube_client option \<Rightarrow> pod \<Rightarrow> string \<Rightarrow> string \<Rightarrow> bool \<Rightarrow> container list \<Rightarrow>
     ('x fs_state_scheme, string, container_spec list) sem" where
  "specs_loop text kube pod volumeRoot sandboxName first [] = ret []"
| "specs_loop text kube pod volumeRoot sandboxName first (c # cs) =
     sbind (container_inputs text kube pod volumeRoot c) (\<lambda>inputs.
     sbind (specs_loop text kube pod volumeRoot sandboxName False cs) (\<lambda>specs.
     ret (make_spec pod sandboxName first c inputs # specs)))"

definition ContainerSpecsFromPod ::
  "os_text \<Rightarrow> kube_client option \<Rightarrow> pod \<Rightarrow> string \<Rightarrow> ('x fs_state_scheme, string, container_spec list) sem" where
  "ContainerSpecsFromPod text kube pod volumeRoot =
     (case p_containers pod of
        [] \<Rightarrow> throw (''pod '' @ p_namespace pod @ ''/'' @ p_name pod @ '' has zero containers'')
      | c # _ \<Rightarrow>
          specs_loop text kube pod volumeRoot (ContainerName (p_uid pod) (c_name c)) True (p_containers pod))"

section \<open>Pod status\<close>

record container_view =
  cv_id :: string
  cv_image :: string
  cv_imageID :: string
  cv_running :: bool
  cv_startedAt :: time
  cv_finishedAt :: time
  cv_exitCode :: int
  cv_oomKilled :: bool

text \<open>Conversion of an \<open>int\<close> to \<open>int32\<close>.\<close>

definition int32 :: "int \<Rightarrow> int" where
  "int32 i = sint (word_of_int i :: 32 word)"

definition docker_id :: "container_view \<Rightarrow> string" where
  "docker_id v = ''docker://'' @ cv_id v"

definition failed_view :: "container_view \<Rightarrow> bool" where
  "failed_view v \<longleftrightarrow> cv_exitCode v \<noteq> 0 \<or> cv_oomKilled v"

definition fail_text :: "string \<Rightarrow> container_view \<Rightarrow> string" where
  "fail_text name v =
     (if cv_oomKilled v
      then ''container '' @ quote name @ '' OOMKilled (exit code '' @ format_int (cv_exitCode v) @ '')''
      else ''container '' @ quote name @ '' exited with code '' @ format_int (cv_exitCode v))"

definition container_status_of :: "time \<Rightarrow> container \<Rightarrow> container_view option \<Rightarrow> container_status" where
  "container_status_of now c view =
     (case view of
        None \<Rightarrow>
          \<lparr>cs_name = c_name c, cs_image = c_image c, cs_imageID = [], cs_containerID = [], cs_ready = False,
           cs_restartCount = 0, cs_state = Waiting ''ContainerCreating''\<rparr>
      | Some v \<Rightarrow>
          \<lparr>cs_name = c_name c, cs_image = cv_image v, cs_imageID = cv_imageID v,
           cs_containerID = docker_id v, cs_ready = cv_running v, cs_restartCount = 0,
           cs_state =
             (if cv_running v then RunningSince (if cv_startedAt v = 0 then now else cv_startedAt v)
              else Terminated (int32 (cv_exitCode v))
                     (if cv_oomKilled v then ''OOMKilled'' else if cv_exitCode v \<noteq> 0 then ''Error'' else ''Completed'')
                     (cv_startedAt v) (if cv_finishedAt v = 0 then now else cv_finishedAt v) (docker_id v))\<rparr>)"

text \<open>The variables of the loop.\<close>

record tally =
  anyMissing :: bool
  anyRunning :: bool
  anyFailed :: bool
  allTerminated :: bool
  earliestStart :: time
  failMessage :: string
  statuses :: "container_status list"

definition earlier :: "time \<Rightarrow> time \<Rightarrow> time" where
  "earlier t cur = (if cur = 0 \<or> t < cur then t else cur)"

definition tally_step :: "time \<Rightarrow> (string \<times> container_view) list \<Rightarrow> container \<Rightarrow> tally \<Rightarrow> tally" where
  "tally_step now views c acc =
     (let view = map_of views (c_name c);
          acc = acc\<lparr>statuses := statuses acc @ [container_status_of now c view]\<rparr>
      in case view of
           None \<Rightarrow> acc\<lparr>anyMissing := True, allTerminated := False\<rparr>
         | Some v \<Rightarrow>
             if cv_running v then
               acc\<lparr>anyRunning := True, allTerminated := False,
                   earliestStart := earlier (if cv_startedAt v = 0 then now else cv_startedAt v) (earliestStart acc)\<rparr>
             else
               let acc = (if failed_view v
                          then acc\<lparr>anyFailed := True, failMessage := fail_text (c_name c) v\<rparr> else acc)
               in if cv_startedAt v \<noteq> 0
                  then acc\<lparr>earliestStart := earlier (cv_startedAt v) (earliestStart acc)\<rparr> else acc)"

definition phase_of :: "tally \<Rightarrow> phase" where
  "phase_of a =
     (if anyFailed a then Failed
      else if anyMissing a then Pending
      else if anyRunning a then Running
      else if allTerminated a then Succeeded
      else Pending)"

definition PodStatusFromViews :: "time \<Rightarrow> pod \<Rightarrow> (string \<times> container_view) list \<Rightarrow> pod_status" where
  "PodStatusFromViews now pod views =
     (let a = fold (tally_step now views) (p_containers pod)
                \<lparr>anyMissing = False, anyRunning = False, anyFailed = False, allTerminated = True,
                 earliestStart = 0, failMessage = [], statuses = []\<rparr>
      in empty_status\<lparr>ps_hostIP := ''127.0.0.1'', ps_podIP := ''10.0.0.1'', ps_phase := phase_of a,
           ps_message := (if anyFailed a then failMessage a else []),
           ps_startTime := (if earliestStart a \<noteq> 0 then Some (earliestStart a) else None),
           ps_containerStatuses := statuses a\<rparr>)"

definition FailedPodStatus :: "string \<Rightarrow> pod_status" where
  "FailedPodStatus message =
     empty_status\<lparr>ps_phase := Failed, ps_reason := ''KubeletLite'', ps_message := message,
       ps_hostIP := ''127.0.0.1''\<rparr>"

section \<open>Lemmas\<close>

lemma takeWhile_sep: "c \<notin> set p \<Longrightarrow> takeWhile (\<lambda>x. x \<noteq> c) (p @ c # q) = p"
  by (induction p) auto

lemma ContainerName_inject:
  assumes "CHR ''_'' \<notin> set uid" and "CHR ''_'' \<notin> set uid'"
  shows "ContainerName uid n = ContainerName uid' n' \<longleftrightarrow> uid = uid' \<and> n = n'"
proof
  assume "ContainerName uid n = ContainerName uid' n'"
  then have e: "uid @ CHR ''_'' # n = uid' @ CHR ''_'' # n'" by (simp add: ContainerName_def)
  from arg_cong [OF e, of "takeWhile (\<lambda>x. x \<noteq> CHR ''_'')"] assms have "uid = uid'"
    by (simp add: takeWhile_sep)
  with e show "uid = uid' \<and> n = n'" by simp
qed simp

lemma index_from_none: "b \<notin> set s \<Longrightarrow> index_from i s b = -1"
  by (induction s arbitrary: i) auto

lemma index_from_first: "b \<notin> set p \<Longrightarrow> index_from i (p @ b # q) b = i + int (length p)"
  by (induction p arbitrary: i) auto

lemma last_from_none: "b \<notin> set s \<Longrightarrow> last_from i s b = -1"
  by (induction s arbitrary: i) auto

lemma last_from_first: "b \<notin> set p \<Longrightarrow> last_from i (p @ b # q) b = i - int (length p)"
  by (induction p arbitrary: i) auto

lemma indexOf_simps:
  "b \<notin> set s \<Longrightarrow> indexOf s b = -1"
  "b \<notin> set p \<Longrightarrow> indexOf (p @ b # q) b = int (length p)"
  by (simp_all add: indexOf_def index_from_none index_from_first)

lemma lastIndexOf_simps:
  "b \<notin> set s \<Longrightarrow> lastIndexOf s b = -1"
  "b \<notin> set q \<Longrightarrow> lastIndexOf (p @ b # q) b = int (length p)"
  by (simp_all add: lastIndexOf_def last_from_none last_from_first)

lemma lastIndexOf_less: "lastIndexOf s b < int (length s)"
proof (cases "b \<in> set s")
  case True
  then obtain p q where "s = p @ b # q" "b \<notin> set q" by (meson split_list_last)
  then show ?thesis by (simp add: lastIndexOf_simps)
qed (simp add: lastIndexOf_simps)

lemma lastIndexOf_append: "b \<notin> set q \<Longrightarrow> lastIndexOf (p @ q) b = lastIndexOf p b"
proof (cases "b \<in> set p")
  case True
  then obtain p1 p2 where "p = p1 @ b # p2" "b \<notin> set p2" by (meson split_list_last)
  moreover assume "b \<notin> set q"
  ultimately show ?thesis using lastIndexOf_simps(2) [of b "p2 @ q" p1] by (simp add: lastIndexOf_simps)
qed (simp add: lastIndexOf_simps)

text \<open>A tag is what follows a colon in the last path element; a digest does not count.\<close>

lemma isLatestOrUntagged_tagged:
  assumes "CHR ''@'' \<notin> set (r @ tag)" and "CHR '':'' \<notin> set tag" and "CHR ''/'' \<notin> set tag"
  shows "isLatestOrUntagged (r @ '':'' @ tag) \<longleftrightarrow> tag = ''latest''"
proof -
  have "lastIndexOf (r @ CHR '':'' # tag) (CHR ''/'') < int (length r)"
    using lastIndexOf_append [of "CHR ''/''" "CHR '':'' # tag" r] lastIndexOf_less [of r "CHR ''/''"] assms(3)
    by simp
  then show ?thesis
    using assms indexOf_simps(1) [of "CHR ''@''" "r @ CHR '':'' # tag"]
      lastIndexOf_simps(2) [of "CHR '':''" tag r]
    by (simp add: isLatestOrUntagged_def Let_def nat_add_distrib)
qed

lemma isLatestOrUntagged_untagged:
  assumes "CHR ''@'' \<notin> set (d @ n)" and "CHR '':'' \<notin> set n"
  shows "isLatestOrUntagged (d @ ''/'' @ n)" and "isLatestOrUntagged n"
proof -
  have c: "lastIndexOf (d @ CHR ''/'' # n) (CHR '':'') < int (length d)"
    using lastIndexOf_append [of "CHR '':''" "CHR ''/'' # n" d] lastIndexOf_less [of d "CHR '':''"] assms(2)
    by simp
  have "int (length d) \<le> lastIndexOf (d @ CHR ''/'' # n) (CHR ''/'')"
  proof (cases "CHR ''/'' \<in> set n")
    case True
    then obtain n1 n2 where "n = n1 @ CHR ''/'' # n2" "CHR ''/'' \<notin> set n2" by (meson split_list_last)
    then show ?thesis using lastIndexOf_simps(2) [of "CHR ''/''" n2 "d @ CHR ''/'' # n1"] by simp
  qed (simp add: lastIndexOf_simps)
  with c show "isLatestOrUntagged (d @ ''/'' @ n)"
    using assms(1) indexOf_simps(1) [of "CHR ''@''" "d @ CHR ''/'' # n"]
    by (simp add: isLatestOrUntagged_def Let_def)
  show "isLatestOrUntagged n"
    using assms lastIndexOf_simps(1) [of "CHR '':''" n] lastIndexOf_less
    by (cases "CHR ''/'' \<in> set n")
      (auto simp: isLatestOrUntagged_def Let_def indexOf_simps lastIndexOf_simps dest!: split_list_last)
qed

lemma isLatestOrUntagged_digest:
  assumes "CHR ''@'' \<notin> set r"
  shows "isLatestOrUntagged (r @ ''@'' @ digest) = isLatestOrUntagged r"
  using assms indexOf_simps(2) [of "CHR ''@''" r digest] indexOf_simps(1) [of "CHR ''@''" r]
  by (simp add: isLatestOrUntagged_def Let_def)

text \<open>The specifications follow the containers one by one.\<close>

lemma specs_loop_Inr:
  "specs_loop text kube pod volumeRoot sandbox first cs s = (Inr specs, t) \<Longrightarrow>
    length specs = length cs \<and>
    (\<forall>i < length cs. \<exists>inputs. specs ! i = make_spec pod sandbox (first \<and> i = 0) (cs ! i) inputs)"
proof (induction cs arbitrary: first specs s)
  case (Cons c cs)
  then obtain inputs u specs' where inp: "specs = make_spec pod sandbox first c inputs # specs'"
    and rest: "specs_loop text kube pod volumeRoot sandbox False cs u = (Inr specs', t)"
    by (auto simp: sbind_Inr_iff)
  from Cons.IH [OF rest] inp show ?case
    by (cases inputs) (auto simp: nth_Cons' less_Suc_eq_0_disj)
qed simp

text \<open>What a container contributes to the status.\<close>

definition missing :: "(string \<times> container_view) list \<Rightarrow> container \<Rightarrow> bool" where
  "missing views c \<longleftrightarrow> map_of views (c_name c) = None"

definition is_running :: "(string \<times> container_view) list \<Rightarrow> container \<Rightarrow> bool" where
  "is_running views c \<longleftrightarrow> (\<exists>v. map_of views (c_name c) = Some v \<and> cv_running v)"

definition has_failed :: "(string \<times> container_view) list \<Rightarrow> container \<Rightarrow> bool" where
  "has_failed views c \<longleftrightarrow> (\<exists>v. map_of views (c_name c) = Some v \<and> \<not> cv_running v \<and> failed_view v)"

definition start_of :: "time \<Rightarrow> (string \<times> container_view) list \<Rightarrow> container \<Rightarrow> time" where
  "start_of now views c =
     (case map_of views (c_name c) of
        None \<Rightarrow> 0
      | Some v \<Rightarrow> if cv_running v \<and> cv_startedAt v = 0 then now else cv_startedAt v)"

lemma tally_step_fields:
  "anyMissing (tally_step now views c a) \<longleftrightarrow> anyMissing a \<or> missing views c"
  "anyRunning (tally_step now views c a) \<longleftrightarrow> anyRunning a \<or> is_running views c"
  "anyFailed (tally_step now views c a) \<longleftrightarrow> anyFailed a \<or> has_failed views c"
  "allTerminated (tally_step now views c a) \<longleftrightarrow> allTerminated a \<and> \<not> missing views c \<and> \<not> is_running views c"
  "statuses (tally_step now views c a) = statuses a @ [container_status_of now c (map_of views (c_name c))]"
  "now \<noteq> 0 \<Longrightarrow> earliestStart (tally_step now views c a) =
     (if start_of now views c = 0 then earliestStart a else earlier (start_of now views c) (earliestStart a))"
  by (auto simp: tally_step_def Let_def missing_def is_running_def has_failed_def start_of_def
      split: option.splits)

lemma fold_tally:
  "anyMissing (fold (tally_step now views) cs a) \<longleftrightarrow> anyMissing a \<or> (\<exists>c \<in> set cs. missing views c)"
  "anyRunning (fold (tally_step now views) cs a) \<longleftrightarrow> anyRunning a \<or> (\<exists>c \<in> set cs. is_running views c)"
  "anyFailed (fold (tally_step now views) cs a) \<longleftrightarrow> anyFailed a \<or> (\<exists>c \<in> set cs. has_failed views c)"
  "allTerminated (fold (tally_step now views) cs a) \<longleftrightarrow>
     allTerminated a \<and> (\<forall>c \<in> set cs. \<not> missing views c \<and> \<not> is_running views c)"
  "statuses (fold (tally_step now views) cs a) =
     statuses a @ map (\<lambda>c. container_status_of now c (map_of views (c_name c))) cs"
  by (induction cs arbitrary: a) (auto simp: tally_step_fields)

definition starts :: "time \<Rightarrow> (string \<times> container_view) list \<Rightarrow> container list \<Rightarrow> time set" where
  "starts now views cs = start_of now views ` set cs - {0}"

lemma fold_earliest:
  assumes "now \<noteq> 0" and "\<And>c. 0 \<le> start_of now views c"
  shows "0 \<le> earliestStart a \<Longrightarrow>
    earliestStart (fold (tally_step now views) cs a) =
      (let S = starts now views cs \<union> ({earliestStart a} - {0}) in if S = {} then 0 else Min S)"
proof (induction cs arbitrary: a)
  case Nil
  then show ?case by (auto simp: starts_def Let_def)
next
  case (Cons c cs)
  let ?x = "start_of now views c" and ?e = "earliestStart a"
  let ?a = "tally_step now views c a"
  have e: "earliestStart ?a = (if ?x = 0 then ?e else earlier ?x ?e)"
    using assms(1) by (rule tally_step_fields)
  have x: "0 \<le> ?x" by (rule assms(2))
  with e Cons.prems have nn: "0 \<le> earliestStart ?a" by (auto simp: earlier_def)
  let ?S = "starts now views cs"
  have fin: "finite ?S" by (simp add: starts_def)
  have S: "starts now views (c # cs) = ?S \<union> ({?x} - {0})" by (auto simp: starts_def)
  have "earliestStart (fold (tally_step now views) (c # cs) a) =
      (let S = ?S \<union> ({earliestStart ?a} - {0}) in if S = {} then 0 else Min S)"
    using Cons.IH [OF nn] by simp
  also have "\<dots> = (let S = starts now views (c # cs) \<union> ({?e} - {0}) in if S = {} then 0 else Min S)"
    unfolding S e using x Cons.prems fin
    by (cases "?S = {}") (auto simp: Let_def earlier_def Min_insert2 min_def)
  finally show ?case .
qed

text \<open>The status of a pod, field by field.\<close>

lemma PodStatusFromViews_fields:
  "ps_phase (PodStatusFromViews now pod views) =
     (if \<exists>c \<in> set (p_containers pod). has_failed views c then Failed
      else if \<exists>c \<in> set (p_containers pod). missing views c then Pending
      else if \<exists>c \<in> set (p_containers pod). is_running views c then Running
      else Succeeded)"
  "ps_containerStatuses (PodStatusFromViews now pod views) =
     map (\<lambda>c. container_status_of now c (map_of views (c_name c))) (p_containers pod)"
  "now \<noteq> 0 \<Longrightarrow> (\<And>c. 0 \<le> start_of now views c) \<Longrightarrow>
     ps_startTime (PodStatusFromViews now pod views) =
       (let S = starts now views (p_containers pod) in if S = {} then None else Some (Min S))"
proof -
  let ?a = "\<lparr>anyMissing = False, anyRunning = False, anyFailed = False, allTerminated = True,
      earliestStart = 0, failMessage = [], statuses = []\<rparr>"
  show "ps_phase (PodStatusFromViews now pod views) =
     (if \<exists>c \<in> set (p_containers pod). has_failed views c then Failed
      else if \<exists>c \<in> set (p_containers pod). missing views c then Pending
      else if \<exists>c \<in> set (p_containers pod). is_running views c then Running
      else Succeeded)"
    by (simp add: PodStatusFromViews_def Let_def phase_of_def fold_tally)
  show "ps_containerStatuses (PodStatusFromViews now pod views) =
     map (\<lambda>c. container_status_of now c (map_of views (c_name c))) (p_containers pod)"
    by (simp add: PodStatusFromViews_def Let_def fold_tally)
  assume n: "now \<noteq> 0" "\<And>c. 0 \<le> start_of now views c"
  let ?S = "starts now views (p_containers pod)"
  have "Min ?S \<noteq> 0" if "?S \<noteq> {}"
    using that Min_in [of ?S] by (auto simp: starts_def)
  with fold_earliest [OF n, of ?a "p_containers pod"]
  show "ps_startTime (PodStatusFromViews now pod views) =
       (let S = starts now views (p_containers pod) in if S = {} then None else Some (Min S))"
    by (auto simp: PodStatusFromViews_def Let_def)
qed

end
