(* ===== verification/Docker.thy ===== *)
theory Docker
  imports Translate "HOL-Library.AList"
begin

text \<open>
  \<open>internal/kubelet/docker.go\<close>: the wrapper of the Docker SDK that the reconciler and the log server
  call. The SDK's client is a parameter, a record of operations on the state of the daemon; so is
  \<open>stdcopy.StdCopy\<close>, which takes the frames of the multiplexed log stream apart. The lemmas show
  that a limited log stream carries exactly the first bytes of the frames, whatever their sizes,
  and which starting point \<open>sinceSeconds\<close> asks for.
\<close>

section \<open>The SDK\<close>

datatype cli_error = CliNotFound string | CliError string

fun cli_text :: "cli_error \<Rightarrow> string" where
  "cli_text (CliNotFound m) = m"
| "cli_text (CliError m) = m"

fun is_not_found :: "cli_error \<Rightarrow> bool" where
  "is_not_found (CliNotFound m) = True"
| "is_not_found (CliError m) = False"

record docker_config =
  dc_Image :: string
  dc_Env :: "string list"
  dc_Labels :: "(string \<times> string) list"
  dc_WorkingDir :: string
  dc_Cmd :: "string list"
  dc_Entrypoint :: "string list"

record bind_mount =
  bm_Type :: string
  bm_Source :: path
  bm_Target :: string
  bm_ReadOnly :: bool

record host_config =
  hc_RestartPolicy :: string
  hc_NetworkMode :: string
  hc_Mounts :: "bind_mount list"

text \<open>Time stamps of the daemon are RFC 3339 texts; \<open>None\<close> stands for a text that does not parse.\<close>

record docker_state =
  ds_Running :: bool
  ds_ExitCode :: int
  ds_OOMKilled :: bool
  ds_StartedAt :: "time option"
  ds_FinishedAt :: "time option"

record inspect =
  in_ID :: string
  in_ConfigImage :: string
  in_Image :: string
  in_State :: "docker_state option"

record listed =
  li_Labels :: "(string \<times> string) list"
  li_Names :: "string list"

record docker_logs_options =
  dl_ShowStdout :: bool
  dl_ShowStderr :: bool
  dl_Follow :: bool
  dl_Timestamps :: bool
  dl_Tail :: string
  dl_Since :: "time option"

text \<open>A pull returns the lines of its progress stream and the error the scanner ended with.\<close>

record ('d, 'r) docker_cli =
  ImageInspect :: "string \<Rightarrow> ('d, cli_error, unit) sem"
  ImagePull :: "string \<Rightarrow> ('d, cli_error, string list \<times> string option) sem"
  ContainerCreate :: "docker_config \<Rightarrow> host_config \<Rightarrow> string \<Rightarrow> ('d, cli_error, string) sem"
  ContainerStart :: "string \<Rightarrow> ('d, cli_error, unit) sem"
  ContainerRemove :: "string \<Rightarrow> ('d, cli_error, unit) sem"
  ContainerInspect :: "string \<Rightarrow> ('d, cli_error, inspect) sem"
  ContainerStop :: "string \<Rightarrow> int \<Rightarrow> ('d, cli_error, unit) sem"
  ContainerLogs :: "string \<Rightarrow> docker_logs_options \<Rightarrow> ('d, cli_error, 'r) sem"
  ContainerList :: "string \<Rightarrow> ('d, cli_error, listed list) sem"

section \<open>Images\<close>

definition imageExists :: "('d, 'r) docker_cli \<Rightarrow> string \<Rightarrow> ('d, string, bool) sem" where
  "imageExists cli ref =
     sbind (attempt (ImageInspect cli ref)) (\<lambda>r. case r of
       Inr _ \<Rightarrow> ret True
     | Inl e \<Rightarrow> if is_not_found e then ret False else throw (cli_text e))"

definition pull :: "('d, 'r) docker_cli \<Rightarrow> string \<Rightarrow> ('d, string, unit) sem" where
  "pull cli ref =
     sbind (map_err (\<lambda>e. ''ImagePull('' @ ref @ ''): '' @ cli_text e) (ImagePull cli ref)) (\<lambda>(lines, err).
     case err of Some e \<Rightarrow> throw (''read pull stream: '' @ e) | None \<Rightarrow> ret ())"

definition EnsurePulled :: "('d, 'r) docker_cli \<Rightarrow> string \<Rightarrow> string \<Rightarrow> ('d, string, unit) sem" where
  "EnsurePulled cli ref policy =
     (if policy = ''Never'' then
        sbind (imageExists cli ref) (\<lambda>exists.
        if \<not> exists then throw (''image '' @ quote ref @ '' not present and pullPolicy=Never'') else ret ())
      else if policy = ''IfNotPresent'' then
        sbind (imageExists cli ref) (\<lambda>exists. if exists then ret () else pull cli ref)
      else if policy = ''Always'' \<or> policy = [] then pull cli ref
      else throw (''unknown imagePullPolicy '' @ quote policy))"

section \<open>Containers\<close>

definition bind_of :: "host_mount \<Rightarrow> bind_mount" where
  "bind_of m =
     \<lparr>bm_Type = ''bind'', bm_Source = hm_source m, bm_Target = hm_target m, bm_ReadOnly = hm_readOnly m\<rparr>"

definition CreateAndStart ::
  "('d, 'r) docker_cli \<Rightarrow> string \<Rightarrow> container_spec \<Rightarrow> ('d, string, string) sem" where
  "CreateAndStart cli name spec =
     (let cfg = \<lparr>dc_Image = Image spec, dc_Env = Env spec, dc_Labels = Labels spec,
                 dc_WorkingDir = WorkingDir spec,
                 dc_Cmd = (if 0 < length (Cmd spec) then Cmd spec else []),
                 dc_Entrypoint = (if 0 < length (Entrypoint spec) then Entrypoint spec else [])\<rparr>;
          host = \<lparr>hc_RestartPolicy = ''no'',
                  hc_NetworkMode = (if NetworkMode spec \<noteq> [] then NetworkMode spec else []),
                  hc_Mounts = map bind_of (Mounts spec)\<rparr>
      in sbind (map_err (\<lambda>e. ''ContainerCreate('' @ name @ ''): '' @ cli_text e)
                  (ContainerCreate cli cfg host name)) (\<lambda>id.
         sbind (attempt (ContainerStart cli id)) (\<lambda>r. case r of
           Inl e \<Rightarrow>
             sbind (attempt (ContainerRemove cli id)) (\<lambda>_.
             throw (''ContainerStart('' @ name @ ''): '' @ cli_text e))
         | Inr _ \<Rightarrow> ret id)))"

definition zero_view :: container_view where
  "zero_view =
     \<lparr>cv_id = [], cv_image = [], cv_imageID = [], cv_running = False, cv_startedAt = 0,
      cv_finishedAt = 0, cv_exitCode = 0, cv_oomKilled = False\<rparr>"

text \<open>\<open>None\<close> is the result \<open>ContainerView{}, false\<close>.\<close>

definition Inspect :: "('d, 'r) docker_cli \<Rightarrow> string \<Rightarrow> ('d, string, container_view option) sem" where
  "Inspect cli name =
     sbind (attempt (ContainerInspect cli name)) (\<lambda>r. case r of
       Inl e \<Rightarrow> if is_not_found e then ret None else throw (cli_text e)
     | Inr insp \<Rightarrow>
         let v = zero_view\<lparr>cv_id := in_ID insp, cv_image := in_ConfigImage insp, cv_imageID := in_Image insp\<rparr>
         in ret (Some
              (case in_State insp of
                 None \<Rightarrow> v
               | Some st \<Rightarrow>
                   v\<lparr>cv_running := ds_Running st, cv_exitCode := ds_ExitCode st, cv_oomKilled := ds_OOMKilled st,
                     cv_startedAt := (case ds_StartedAt st of Some t \<Rightarrow> t | None \<Rightarrow> 0),
                     cv_finishedAt := (case ds_FinishedAt st of Some t \<Rightarrow> t | None \<Rightarrow> 0)\<rparr>)))"

text \<open>A duration is a number of nanoseconds; \<open>int(d.Seconds())\<close> drops the fraction of a second.\<close>

definition whole_seconds :: "int \<Rightarrow> int" where
  "whole_seconds d = (if d < 0 then - ((- d) div 1000000000) else d div 1000000000)"

definition StopContainer :: "('d, 'r) docker_cli \<Rightarrow> string \<Rightarrow> int \<Rightarrow> ('d, string, unit) sem" where
  "StopContainer cli name gracePeriod =
     sbind (attempt (ContainerStop cli name (whole_seconds gracePeriod))) (\<lambda>r. case r of
       Inl e \<Rightarrow> if is_not_found e then ret () else throw (cli_text e)
     | Inr _ \<Rightarrow> ret ())"

definition Remove :: "('d, 'r) docker_cli \<Rightarrow> string \<Rightarrow> ('d, string, unit) sem" where
  "Remove cli name =
     sbind (attempt (ContainerRemove cli name)) (\<lambda>r. case r of
       Inl e \<Rightarrow> if \<not> is_not_found e then throw (cli_text e) else ret ()
     | Inr _ \<Rightarrow> ret ())"

record managed_container =
  mc_UID :: string
  mc_ContainerName :: string
  mc_DockerName :: string

definition label_of :: "string \<Rightarrow> listed \<Rightarrow> string" where
  "label_of k c = (case map_of (li_Labels c) k of Some v \<Rightarrow> v | None \<Rightarrow> [])"

definition ListManagedContainers :: "('d, 'r) docker_cli \<Rightarrow> ('d, string, managed_container list) sem" where
  "ListManagedContainers cli =
     sbind (map_err (\<lambda>e. ''ContainerList: '' @ cli_text e) (ContainerList cli ''io.k8s.pod.uid'')) (\<lambda>containers.
     ret (map (\<lambda>c. \<lparr>mc_UID = label_of ''io.k8s.pod.uid'' c,
                    mc_ContainerName = label_of ''io.k8s.container.name'' c,
                    mc_DockerName = (case li_Names c of [] \<Rightarrow> [] | n # _ \<Rightarrow> trim_prefix n ''/'')\<rparr>)
           (filter (\<lambda>c. label_of ''io.k8s.pod.uid'' c \<noteq> []) containers)))"

section \<open>Logs\<close>

record log_options =
  lo_Container :: string
  lo_Follow :: bool
  lo_Timestamps :: bool
  lo_TailLines :: "int option"
  lo_SinceSeconds :: "int option"
  lo_LimitBytes :: "int option"

datatype io_error = ErrClosedPipe | ErrLimitReached | ErrOther string

text \<open>
  The pipe between the goroutine that takes the stream apart and the consumer: the bytes that went
  through, how many more the consumer takes before it closes its end (\<open>None\<close>: all), and how the
  writing end was closed (\<open>Some None\<close> is an end of file).
\<close>

record pipe =
  pi_data :: bytes
  pi_room :: "nat option"
  pi_closed :: "io_error option option"

definition pipe_Write :: "bytes \<Rightarrow> pipe \<Rightarrow> (nat \<times> io_error option) \<times> pipe" where
  "pipe_Write p w =
     (case pi_room w of
        None \<Rightarrow> ((length p, None), w\<lparr>pi_data := pi_data w @ p\<rparr>)
      | Some k \<Rightarrow>
          if length p \<le> k then ((length p, None), w\<lparr>pi_data := pi_data w @ p, pi_room := Some (k - length p)\<rparr>)
          else ((k, Some ErrClosedPipe), w\<lparr>pi_data := pi_data w @ take k p, pi_room := Some 0\<rparr>))"

text \<open>\<open>limitWriter\<close>: the pipe and the bytes that are left; and the two writers \<open>Logs\<close> chooses from.\<close>

record limitWriter =
  lw_w :: pipe
  lw_n :: int

definition limitWriter_Write :: "bytes \<Rightarrow> limitWriter \<Rightarrow> (nat \<times> io_error option) \<times> limitWriter" where
  "limitWriter_Write p l =
     (if lw_n l \<le> 0 then ((0, Some ErrLimitReached), l)
      else
        let p = (if int (length p) > lw_n l then take (nat (lw_n l)) p else p)
        in case pipe_Write p (lw_w l) of ((n, err), w) \<Rightarrow>
             let l = l\<lparr>lw_w := w, lw_n := lw_n l - int n\<rparr>;
                 err = (if err = None \<and> lw_n l \<le> 0 then Some ErrLimitReached else err)
             in ((n, err), l))"

datatype log_writer = PipeWriter pipe | LimitWriter limitWriter

fun log_write :: "bytes \<Rightarrow> log_writer \<Rightarrow> (nat \<times> io_error option) \<times> log_writer" where
  "log_write p (PipeWriter w) = map_prod id PipeWriter (pipe_Write p w)"
| "log_write p (LimitWriter l) = map_prod id LimitWriter (limitWriter_Write p l)"

fun pipe_of :: "log_writer \<Rightarrow> pipe" where
  "pipe_of (PipeWriter w) = w"
| "pipe_of (LimitWriter l) = lw_w l"

text \<open>\<open>StdCopy\<close> copies a stream to a writer and returns the error that ended it.\<close>

type_synonym 'r std_copy =
  "(bytes \<Rightarrow> log_writer \<Rightarrow> (nat \<times> io_error option) \<times> log_writer) \<Rightarrow> 'r \<Rightarrow> log_writer \<Rightarrow> io_error option \<times> log_writer"

text \<open>The goroutine.\<close>

definition logs_pump :: "'r std_copy \<Rightarrow> log_options \<Rightarrow> 'r \<Rightarrow> pipe \<Rightarrow> pipe" where
  "logs_pump stdcopy opts rc pw =
     (let w = (case lo_LimitBytes opts of
                 Some n \<Rightarrow> if 0 < n then LimitWriter \<lparr>lw_w = pw, lw_n = n\<rparr> else PipeWriter pw
               | None \<Rightarrow> PipeWriter pw)
      in case stdcopy log_write rc w of (err, w) \<Rightarrow>
           (case err of
              Some e \<Rightarrow>
                if e \<noteq> ErrClosedPipe \<and> e \<noteq> ErrLimitReached then (pipe_of w)\<lparr>pi_closed := Some (Some e)\<rparr>
                else (pipe_of w)\<lparr>pi_closed := Some None\<rparr>
            | None \<Rightarrow> (pipe_of w)\<lparr>pi_closed := Some None\<rparr>))"

text \<open>\<open>time.Duration\<close> arithmetic wraps at 64 bits.\<close>

definition int64 :: "int \<Rightarrow> int" where
  "int64 i = sint (word_of_int i :: 64 word)"

definition logs_since :: "time \<Rightarrow> int option \<Rightarrow> time option" where
  "logs_since now sinceSeconds =
     (case sinceSeconds of
        Some s \<Rightarrow> if 0 < s then Some (now + int64 (int64 (- s) * 1000000000)) else None
      | None \<Rightarrow> None)"

definition docker_log_options :: "time \<Rightarrow> log_options \<Rightarrow> docker_logs_options" where
  "docker_log_options now opts =
     \<lparr>dl_ShowStdout = True, dl_ShowStderr = True, dl_Follow = lo_Follow opts,
      dl_Timestamps = lo_Timestamps opts,
      dl_Tail = (case lo_TailLines opts of Some n \<Rightarrow> format_int n | None \<Rightarrow> []),
      dl_Since = logs_since now (lo_SinceSeconds opts)\<rparr>"

datatype log_error = ContainerNotFound | LogError string

definition new_pipe :: "nat option \<Rightarrow> pipe" where
  "new_pipe room = \<lparr>pi_data = [], pi_room = room, pi_closed = None\<rparr>"

text \<open>\<open>room\<close> is what the consumer of the result is going to read.\<close>

definition Logs ::
  "('d, 'r) docker_cli \<Rightarrow> 'r std_copy \<Rightarrow> time \<Rightarrow> nat option \<Rightarrow> string \<Rightarrow> log_options \<Rightarrow> ('d, log_error, pipe) sem" where
  "Logs cli stdcopy now room name opts =
     sbind (map_err (\<lambda>e. if is_not_found e then ContainerNotFound
                          else LogError (''ContainerLogs('' @ name @ ''): '' @ cli_text e))
              (ContainerLogs cli name (docker_log_options now opts))) (\<lambda>rc.
     ret (logs_pump stdcopy opts rc (new_pipe room)))"

section \<open>What the log stream carries\<close>

text \<open>
  What \<open>StdCopy\<close> documents: it writes the payload of each frame, in order, stops at the first error
  of the writer, and otherwise ends with the error the stream ended with.
\<close>

fun write_frames ::
  "(bytes \<Rightarrow> 'w \<Rightarrow> (nat \<times> io_error option) \<times> 'w) \<Rightarrow> bytes list \<Rightarrow> io_error option \<Rightarrow> 'w \<Rightarrow> io_error option \<times> 'w" where
  "write_frames wr [] fin w = (fin, w)"
| "write_frames wr (p # ps) fin w =
     (case wr p w of
        ((n, Some e), w) \<Rightarrow> (Some e, w)
      | ((n, None), w) \<Rightarrow> if n \<noteq> length p then (Some (ErrOther ''short write''), w) else write_frames wr ps fin w)"

definition copies :: "'r std_copy \<Rightarrow> 'r \<Rightarrow> bytes list \<Rightarrow> io_error option \<Rightarrow> bool" where
  "copies stdcopy rc frames fin \<longleftrightarrow> (\<forall>w. stdcopy log_write rc w = write_frames log_write frames fin w)"

text \<open>What a consumer that reads \<open>room\<close> bytes sees of a stream.\<close>

definition cap :: "nat option \<Rightarrow> 'a list \<Rightarrow> 'a list" where
  "cap room xs = (case room of None \<Rightarrow> xs | Some k \<Rightarrow> take k xs)"

lemma frames_direct:
  "write_frames log_write fs fin (PipeWriter w) = (e, w') \<Longrightarrow>
     pi_data (pipe_of w') = pi_data w @ cap (pi_room w) (concat fs) \<and>
     (pi_room w = None \<longrightarrow> e = fin)"
proof (induction fs arbitrary: w)
  case (Cons p ps)
  show ?case
  proof (cases "pi_room w")
    case None
    with Cons show ?thesis by (auto simp: pipe_Write_def cap_def)
  next
    case (Some k)
    with Cons.prems Cons.IH [of "w\<lparr>pi_data := pi_data w @ p, pi_room := Some (k - length p)\<rparr>"] show ?thesis
      by (auto simp: pipe_Write_def cap_def split: if_splits)
  qed
qed (auto simp: cap_def split: option.split)

lemma limit_write:
  assumes "0 < n" and "pipe_Write (take (nat n) p) w = ((m, err), w')"
  shows "log_write p (LimitWriter \<lparr>lw_w = w, lw_n = n\<rparr>) =
    ((m, if err = None \<and> n \<le> int m then Some ErrLimitReached else err), LimitWriter \<lparr>lw_w = w', lw_n = n - int m\<rparr>)"
proof -
  define q where "q = (if int (length p) > n then take (nat n) p else p)"
  have "q = take (nat n) p" by (auto simp: q_def)
  with assms have q: "pipe_Write q w = ((m, err), w')" by simp
  have "limitWriter_Write p \<lparr>lw_w = w, lw_n = n\<rparr> =
      ((m, if err = None \<and> n \<le> int m then Some ErrLimitReached else err), \<lparr>lw_w = w', lw_n = n - int m\<rparr>)"
    unfolding limitWriter_Write_def Let_def limitWriter.simps q_def [symmetric] using assms(1) q by simp
  then show ?thesis by simp
qed

lemma frames_limited:
  "0 < n \<Longrightarrow> write_frames log_write fs fin (LimitWriter \<lparr>lw_w = w, lw_n = n\<rparr>) = (e, w') \<Longrightarrow>
     pi_data (pipe_of w') = pi_data w @ cap (pi_room w) (take (nat n) (concat fs)) \<and>
     (pi_room w = None \<longrightarrow> e = (if n \<le> int (length (concat fs)) then Some ErrLimitReached else fin))"
proof (induction fs arbitrary: w n)
  case Nil
  then show ?case by (auto simp: cap_def split: option.split)
next
  case (Cons p ps)
  let ?p = "take (nat n) p"
  have len: "n \<le> int (length ?p) \<longleftrightarrow> n \<le> int (length p)" using Cons.prems(1) by auto
  obtain m err u where pw: "pipe_Write ?p w = ((m, err), u)" by (metis surj_pair)
  note step = limit_write [OF Cons.prems(1) pw]
  show ?case
  proof (cases "err = None \<and> \<not> n \<le> int m")
    case False
    with Cons.prems(2) step have "w' = LimitWriter \<lparr>lw_w = u, lw_n = n - int m\<rparr>"
      and "e = (if err = None then Some ErrLimitReached else err)" by (auto split: if_splits)
    with pw False Cons.prems(1) show ?thesis
      by (cases "pi_room w") (auto simp: pipe_Write_def cap_def min_def split: if_splits)
  next
    case True
    with pw have m: "m = length ?p" by (auto simp: pipe_Write_def split: option.splits if_splits)
    with True len have "\<not> n \<le> int (length p)" and m: "m = length p" "?p = p" by auto
    with Cons.prems(2) step True
    have "write_frames log_write ps fin (LimitWriter \<lparr>lw_w = u, lw_n = n - int (length p)\<rparr>) = (e, w')" by simp
    from Cons.IH [OF _ this] True pw m show ?thesis
      by (cases "pi_room w") (auto simp: pipe_Write_def cap_def min_def nat_diff_distrib' split: if_splits)
  qed
qed

text \<open>The limit of the options: positive or none.\<close>

definition byte_limit :: "log_options \<Rightarrow> nat option" where
  "byte_limit opts = (case lo_LimitBytes opts of Some n \<Rightarrow> if 0 < n then Some (nat n) else None | None \<Rightarrow> None)"

lemma logs_pump_data:
  assumes "copies stdcopy rc frames fin"
  shows "pi_data (logs_pump stdcopy opts rc (new_pipe room)) = cap room (cap (byte_limit opts) (concat frames))"
proof -
  let ?w = "case lo_LimitBytes opts of
      Some n \<Rightarrow> if 0 < n then LimitWriter \<lparr>lw_w = new_pipe room, lw_n = n\<rparr> else PipeWriter (new_pipe room)
    | None \<Rightarrow> PipeWriter (new_pipe room)"
  obtain e w' where run: "write_frames log_write frames fin ?w = (e, w')" by fastforce
  have "pi_data (pipe_of w') = cap room (cap (byte_limit opts) (concat frames))"
  proof (cases "byte_limit opts")
    case None
    then have "?w = PipeWriter (new_pipe room)" by (auto simp: byte_limit_def split: option.splits)
    with frames_direct run None show ?thesis by (force simp: new_pipe_def cap_def)
  next
    case (Some k)
    then obtain n where n: "lo_LimitBytes opts = Some n" "0 < n" "k = nat n"
      by (auto simp: byte_limit_def split: option.splits if_splits)
    with frames_limited [OF n(2), of frames fin "new_pipe room" e w'] run Some show ?thesis
      by (simp add: new_pipe_def cap_def)
  qed
  moreover have "pi_data (logs_pump stdcopy opts rc (new_pipe room)) = pi_data (pipe_of w')"
    using assms run by (auto simp: logs_pump_def copies_def split: option.splits)
  ultimately show ?thesis by simp
qed

lemma logs_pump_closed:
  assumes "copies stdcopy rc frames fin"
  shows "pi_closed (logs_pump stdcopy opts rc (new_pipe None)) =
    Some (case byte_limit opts of
            Some k \<Rightarrow> if k \<le> length (concat frames) then None
                     else if fin = Some ErrClosedPipe \<or> fin = Some ErrLimitReached then None else fin
          | None \<Rightarrow> if fin = Some ErrClosedPipe \<or> fin = Some ErrLimitReached then None else fin)"
proof -
  let ?w = "case lo_LimitBytes opts of
      Some n \<Rightarrow> if 0 < n then LimitWriter \<lparr>lw_w = new_pipe None, lw_n = n\<rparr> else PipeWriter (new_pipe None)
    | None \<Rightarrow> PipeWriter (new_pipe None)"
  obtain e w' where run: "write_frames log_write frames fin ?w = (e, w')" by fastforce
  have e: "e = (case byte_limit opts of
      Some k \<Rightarrow> if k \<le> length (concat frames) then Some ErrLimitReached else fin | None \<Rightarrow> fin)"
  proof (cases "byte_limit opts")
    case None
    then have "?w = PipeWriter (new_pipe None)" by (auto simp: byte_limit_def split: option.splits)
    with frames_direct run None show ?thesis by (force simp: new_pipe_def)
  next
    case (Some k)
    then obtain n where n: "lo_LimitBytes opts = Some n" "0 < n" "k = nat n"
      by (auto simp: byte_limit_def split: option.splits if_splits)
    with frames_limited [OF n(2), of frames fin "new_pipe None" e w'] run Some show ?thesis
      by (simp add: new_pipe_def nat_le_iff)
  qed
  then have "pi_closed (logs_pump stdcopy opts rc (new_pipe None)) =
      Some (if e = Some ErrClosedPipe \<or> e = Some ErrLimitReached then None else e)"
    using assms run by (auto simp: logs_pump_def copies_def split: option.splits)
  with e show ?thesis by (auto split: option.splits)
qed

text \<open>
  64 bits of nanoseconds hold 9223372036 seconds: up to that \<open>sinceSeconds\<close> asks for the right
  moment, above it the product wraps around.
\<close>

lemma int64_id: "- (2 ^ 63) \<le> i \<Longrightarrow> i < 2 ^ 63 \<Longrightarrow> int64 i = i"
  using signed_take_bit_int_eq_self [of 63 i] by (simp add: int64_def signed_of_int)

lemma logs_since_exact:
  assumes "0 < s" and "s \<le> 9223372036"
  shows "logs_since now (Some s) = Some (now - s * 1000000000)"
  using assms int64_id [of "- s"] int64_id [of "- s * 1000000000"] by (simp add: logs_since_def)

section \<open>Properties\<close>

text \<open>
  Bounds of \<open>sinceSeconds\<close>. Up to 9223372036 seconds the daemon is asked for exactly that much of
  the past; one second more wraps the 64-bit duration around, and the daemon is asked for the log
  from a moment in the future on, centuries away.
\<close>

theorem since_seconds_bounds:
  "(\<forall>s. 0 < s \<and> s \<le> 9223372036 \<longrightarrow>
      dl_Since (docker_log_options now (opts\<lparr>lo_SinceSeconds := Some s\<rparr>)) = Some (now - s * 1000000000)) \<and>
   dl_Since (docker_log_options now (opts\<lparr>lo_SinceSeconds := Some 9223372037\<rparr>)) =
     Some (now + 9223372036709551616)"
  by (auto simp: docker_log_options_def logs_since_exact) (simp add: logs_since_def int64_def)

theorem since_seconds_bounds_witness:
  "dl_Since (docker_log_options 100000000000 \<lparr>lo_Container = [], lo_Follow = False, lo_Timestamps = False,
      lo_TailLines = None, lo_SinceSeconds = Some 60, lo_LimitBytes = None\<rparr>) = Some 40000000000"
  using since_seconds_bounds [of 100000000000 "\<lparr>lo_Container = [], lo_Follow = False, lo_Timestamps = False,
      lo_TailLines = None, lo_SinceSeconds = None, lo_LimitBytes = None\<rparr>"] by auto

end
