(* ===== verification/Kubelet_Example.thy ===== *)
theory Kubelet_Example
  imports Docker
begin

text \<open>
  A small Docker daemon and a pod, for evaluating the kubelet's definitions on concrete inputs: the
  daemon keeps its containers by name, with the name as their ID.
\<close>

record box =
  bx_config :: docker_config
  bx_running :: bool
  bx_exit :: int

type_synonym daemon = "(string \<times> box) list"

definition on_box :: "string \<Rightarrow> (box \<Rightarrow> 'a \<times> daemon) \<Rightarrow> daemon \<Rightarrow> (cli_error + 'a) \<times> daemon" where
  "on_box name f d =
     (case map_of d name of
        None \<Rightarrow> (Inl (CliNotFound ''No such container''), d)
      | Some b \<Rightarrow> (case f b of (x, d') \<Rightarrow> (Inr x, d')))"

definition inspect_box :: "string \<Rightarrow> box \<Rightarrow> inspect" where
  "inspect_box name b =
     \<lparr>in_ID = name, in_ConfigImage = dc_Image (bx_config b), in_Image = ''sha256:1'',
      in_State = Some \<lparr>ds_Running = bx_running b, ds_ExitCode = bx_exit b, ds_OOMKilled = False,
                       ds_StartedAt = Some 7, ds_FinishedAt = None\<rparr>\<rparr>"

definition demo_cli :: "(daemon, bytes list) docker_cli" where
  "demo_cli =
     \<lparr>ImageInspect = \<lambda>ref. throw (CliNotFound ''No such image''),
      ImagePull = \<lambda>ref. ret ([''done''], None),
      ContainerCreate = \<lambda>cfg host name d.
        if map_of d name = None
        then (Inr name, d @ [(name, \<lparr>bx_config = cfg, bx_running = False, bx_exit = 0\<rparr>)])
        else (Inl (CliError ''Conflict''), d),
      ContainerStart = \<lambda>name d. on_box name (\<lambda>b. ((), AList.update name (b\<lparr>bx_running := True\<rparr>) d)) d,
      ContainerRemove = \<lambda>name d. on_box name (\<lambda>b. ((), AList.delete name d)) d,
      ContainerInspect = \<lambda>name d. on_box name (\<lambda>b. (inspect_box name b, d)) d,
      ContainerStop = \<lambda>name secs d. on_box name (\<lambda>b. ((), AList.update name (b\<lparr>bx_running := False\<rparr>) d)) d,
      ContainerLogs = \<lambda>name opts d. on_box name (\<lambda>b. ([''abc'', ''def''], d)) d,
      ContainerList = \<lambda>label d.
        (Inr (map (\<lambda>name. \<lparr>li_Labels = dc_Labels (bx_config (the (map_of d name))), li_Names = [CHR ''/'' # name]\<rparr>)
               (remdups (map fst d))), d)\<rparr>"

definition demo_container :: "string \<Rightarrow> container" where
  "demo_container name =
     \<lparr>c_name = name, c_image = ''nginx:1.25'', c_command = [], c_args = [], c_env = [], c_envFrom = [],
      c_workingDir = [], c_pullPolicy = [], c_volumeMounts = []\<rparr>"

definition demo_pod :: pod where
  "demo_pod =
     \<lparr>p_uid = ''u1'', p_namespace = ''default'', p_name = ''web'', p_resourceVersion = ''1'',
      p_labels = [(''app'', ''web'')], p_creationTimestamp = 1000000000, p_deletionTimestamp = None,
      p_deletionGrace = None, p_containers = [demo_container ''app'', demo_container ''log''],
      p_volumes = [], p_nodeName = [], p_gracePeriod = None, p_status = empty_status\<rparr>"

definition demo_copy :: "bytes list std_copy" where
  "demo_copy wr rc w = write_frames wr rc None w"

text \<open>The daemon with the pod's first container.\<close>

definition demo_daemon :: daemon where
  "demo_daemon =
     [(''klite_u1_app'',
       \<lparr>bx_config = \<lparr>dc_Image = ''nginx:1.25'', dc_Env = [], dc_Labels = PodLabelsFor demo_pod ''app'',
                     dc_WorkingDir = [], dc_Cmd = [], dc_Entrypoint = []\<rparr>,
        bx_running = True, bx_exit = 0\<rparr>)]"

lemma demo_copies: "copies demo_copy frames frames None"
  by (simp add: copies_def demo_copy_def)

end
