(* ===== verification/Runtime.thy ===== *)
theory Runtime
  imports Kubelet_Example
begin

text \<open>
  The interface \<open>DockerRuntime\<close> of \<open>internal/kubelet/docker.go\<close> that the reconciler depends on, its
  implementation by the wrapper of the SDK, and the contracts of both. The locale
  \<open>container_runtime\<close> says what the reconciler relies on: which containers there are after each call,
  whether the call succeeds or fails. The locale \<open>docker_daemon\<close> says the same of the SDK, as far as
  Docker documents it, and gives the contract of the wrapper.
\<close>

section \<open>The interface\<close>

record 'd docker_runtime =
  rt_EnsurePulled :: "string \<Rightarrow> string \<Rightarrow> ('d, string, unit) sem"
  rt_CreateAndStart :: "string \<Rightarrow> container_spec \<Rightarrow> ('d, string, string) sem"
  rt_Inspect :: "string \<Rightarrow> ('d, string, container_view option) sem"
  rt_Stop :: "string \<Rightarrow> int \<Rightarrow> ('d, string, unit) sem"
  rt_Remove :: "string \<Rightarrow> ('d, string, unit) sem"
  rt_ListManagedContainers :: "('d, string, managed_container list) sem"

definition dockerRT :: "('d, 'r) docker_cli \<Rightarrow> 'd docker_runtime" where
  "dockerRT cli =
     \<lparr>rt_EnsurePulled = EnsurePulled cli, rt_CreateAndStart = CreateAndStart cli, rt_Inspect = Inspect cli,
      rt_Stop = StopContainer cli, rt_Remove = Remove cli, rt_ListManagedContainers = ListManagedContainers cli\<rparr>"

section \<open>What the reconciler relies on\<close>

definition uid_label :: "(string \<times> string) list \<Rightarrow> string" where
  "uid_label ls = (case map_of ls ''io.k8s.pod.uid'' of Some u \<Rightarrow> u | None \<Rightarrow> [])"

text \<open>
  \<open>boxes d n\<close> is the container named \<open>n\<close>: its \<open>io.k8s.pod.uid\<close> label (empty without one) and what an
  inspection shows of it. Every call may fail; a failed start may leave a container of the name
  behind. The laws take the string a call is given for the name of a container. Docker would also take it for
  an ID or the beginning of one; names the kubelet makes start with \<open>klite_\<close> and are neither.
\<close>

locale container_runtime =
  fixes rt :: "'d docker_runtime" and boxes :: "'d \<Rightarrow> string \<Rightarrow> (string \<times> container_view) option"
  assumes inspect_sees: "rt_Inspect rt n d = (r, d') \<Longrightarrow> d' = d \<and> (\<forall>x. r = Inr x \<longrightarrow> x = map_option snd (boxes d n))"
    and pull_keeps: "rt_EnsurePulled rt ref policy d = (r1, d') \<Longrightarrow> boxes d' = boxes d"
    and create_adds: "rt_CreateAndStart rt n spec d = (Inr i, d') \<Longrightarrow>
      boxes d n = None \<and> (\<exists>v. boxes d' = (boxes d)(n \<mapsto> (uid_label (Labels spec), v)))"
    and create_fails: "rt_CreateAndStart rt n spec d = (Inl e, d') \<Longrightarrow> m \<noteq> n \<Longrightarrow> boxes d' m = boxes d m"
    and stop_keeps: "rt_Stop rt n g d = (r1, d') \<Longrightarrow>
      (\<forall>m. map_option fst (boxes d' m) = map_option fst (boxes d m)) \<and> (\<forall>m. m \<noteq> n \<longrightarrow> boxes d' m = boxes d m)"
    and stop_stops: "rt_Stop rt n g d = (Inr (), d') \<Longrightarrow> boxes d' n = Some (u, v) \<Longrightarrow> \<not> cv_running v"
    and remove_removes: "rt_Remove rt n d = (Inr (), d') \<Longrightarrow> boxes d' = (boxes d)(n := None)"
    and remove_fails: "rt_Remove rt n d = (Inl e, d') \<Longrightarrow> boxes d' = boxes d"
    and list_lists: "rt_ListManagedContainers rt d = (r2, d') \<Longrightarrow> d' = d \<and>
      (\<forall>ms. r2 = Inr ms \<longrightarrow>
        (\<lambda>m. (mc_UID m, mc_DockerName m)) ` set ms = {(u, n). u \<noteq> [] \<and> (\<exists>v. boxes d n = Some (u, v))})"

section \<open>The SDK\<close>

text \<open>
  \<open>box d n\<close>: labels and inspection of the container named \<open>n\<close>. A created container is addressed by
  the ID the creation returned.
\<close>

locale docker_daemon =
  fixes cli :: "('d, 'r) docker_cli" and box :: "'d \<Rightarrow> string \<Rightarrow> ((string \<times> string) list \<times> inspect) option"
  assumes image_inspect: "ImageInspect cli ref d = (r1, d') \<Longrightarrow> box d' = box d"
    and image_pull: "ImagePull cli ref d = (r2, d') \<Longrightarrow> box d' = box d"
    and inspect_missing: "box d n = None \<Longrightarrow> ContainerInspect cli n d = (r3, d') \<Longrightarrow> d' = d \<and> (\<exists>e. r3 = Inl e)"
    and inspect_present: "box d n = Some (ls, x) \<Longrightarrow> ContainerInspect cli n d = (r3, d') \<Longrightarrow>
      d' = d \<and> (r3 = Inr x \<or> (\<exists>m. r3 = Inl (CliError m)))"
    and create_conflict: "ContainerCreate cli cfg host n d = (Inr i, d1) \<Longrightarrow> box d n = None"
    and create_error: "ContainerCreate cli cfg host n d = (Inl e, d1) \<Longrightarrow> box d1 = box d"
    and create_start: "ContainerCreate cli cfg host n d = (Inr i, d1) \<Longrightarrow> ContainerStart cli i d1 = (Inr (), d2) \<Longrightarrow>
      \<exists>x. box d2 = (box d)(n \<mapsto> (dc_Labels cfg, x))"
    and start_error: "ContainerCreate cli cfg host n d = (Inr i, d1) \<Longrightarrow> ContainerStart cli i d1 = (Inl e, d2) \<Longrightarrow>
      ContainerRemove cli i d2 = (r4, d3) \<Longrightarrow> m \<noteq> n \<Longrightarrow> box d3 m = box d m"
    and stop_missing: "box d n = None \<Longrightarrow> ContainerStop cli n secs d = (r5, d') \<Longrightarrow> box d' = box d"
    and stop_present: "box d n = Some (ls, x) \<Longrightarrow> ContainerStop cli n secs d = (r5, d') \<Longrightarrow>
      \<exists>y. box d' = (box d)(n \<mapsto> (ls, y)) \<and>
        (case r5 of Inr _ \<Rightarrow> (\<forall>st. in_State y = Some st \<longrightarrow> \<not> ds_Running st) | Inl e \<Rightarrow> \<not> is_not_found e)"
    and remove_missing: "box d n = None \<Longrightarrow> ContainerRemove cli n d = (r6, d') \<Longrightarrow> box d' = box d"
    and remove_present: "box d n = Some y \<Longrightarrow> ContainerRemove cli n d = (r6, d') \<Longrightarrow>
      (case r6 of Inr _ \<Rightarrow> box d' = (box d)(n := None) | Inl e \<Rightarrow> \<not> is_not_found e \<and> box d' = box d)"
    and list_labelled: "ContainerList cli label d = (r7, d') \<Longrightarrow> d' = d \<and>
      (\<forall>cs. r7 = Inr cs \<longrightarrow>
        (\<forall>c \<in> set cs. \<exists>n ns x. li_Names c = (CHR ''/'' # n) # ns \<and> box d n = Some (li_Labels c, x)) \<and>
        (\<forall>n ls x. box d n = Some (ls, x) \<and> label \<in> fst ` set ls \<longrightarrow>
           (\<exists>c \<in> set cs. \<exists>ns. li_Names c = (CHR ''/'' # n) # ns)))"

text \<open>What an inspection shows.\<close>

definition view_of_inspect :: "inspect \<Rightarrow> container_view" where
  "view_of_inspect insp =
     (let v = zero_view\<lparr>cv_id := in_ID insp, cv_image := in_ConfigImage insp, cv_imageID := in_Image insp\<rparr>
      in case in_State insp of
           None \<Rightarrow> v
         | Some st \<Rightarrow>
             v\<lparr>cv_running := ds_Running st, cv_exitCode := ds_ExitCode st, cv_oomKilled := ds_OOMKilled st,
               cv_startedAt := (case ds_StartedAt st of Some t \<Rightarrow> t | None \<Rightarrow> 0),
               cv_finishedAt := (case ds_FinishedAt st of Some t \<Rightarrow> t | None \<Rightarrow> 0)\<rparr>)"

definition boxes_of ::
  "('d \<Rightarrow> string \<Rightarrow> ((string \<times> string) list \<times> inspect) option) \<Rightarrow> 'd \<Rightarrow> string \<Rightarrow> (string \<times> container_view) option" where
  "boxes_of box d n = map_option (map_prod uid_label view_of_inspect) (box d n)"

lemma running_view: "cv_running (view_of_inspect x) \<longleftrightarrow> (\<exists>st. in_State x = Some st \<and> ds_Running st)"
  by (auto simp: view_of_inspect_def zero_view_def Let_def split: option.splits)

lemma Inspect_runs:
  "ContainerInspect cli n d = (Inr x, d') \<Longrightarrow> Inspect cli n d = (Inr (Some (view_of_inspect x)), d')"
  "ContainerInspect cli n d = (Inl e, d') \<Longrightarrow>
     Inspect cli n d = (if is_not_found e then Inr None else Inl (cli_text e), d')"
  by (simp_all add: Inspect_def view_of_inspect_def Let_def sbind_def attempt_def)

lemma CreateAndStart_Inr:
  assumes "CreateAndStart cli n spec d = (Inr i, d')"
  shows "\<exists>cfg host d1. dc_Labels cfg = Labels spec \<and> ContainerCreate cli cfg host n d = (Inr i, d1) \<and>
    ContainerStart cli i d1 = (Inr (), d')"
  using assms by (auto simp: CreateAndStart_def Let_def sbind_Inr_iff split: sum.splits) force

lemma CreateAndStart_Inl:
  assumes "CreateAndStart cli n spec d = (Inl e, d')"
  shows "\<exists>cfg host. (\<exists>x. ContainerCreate cli cfg host n d = (Inl x, d')) \<or>
    (\<exists>i d1 x d2 r. ContainerCreate cli cfg host n d = (Inr i, d1) \<and> ContainerStart cli i d1 = (Inl x, d2) \<and>
       ContainerRemove cli i d2 = (r, d'))"
  using assms by (auto simp: CreateAndStart_def Let_def sbind_Inl_iff split: sum.splits) blast+

context docker_daemon
begin

lemma wrapped_inspect:
  assumes "Inspect cli n d = (r, d')"
  shows "d' = d \<and> (\<forall>x. r = Inr x \<longrightarrow> x = map_option snd (boxes_of box d n))"
proof -
  obtain q e where run: "ContainerInspect cli n d = (q, e)" by fastforce
  show ?thesis
  proof (cases "box d n")
    case None
    from inspect_missing [OF None run] run assms None show ?thesis
      by (auto simp: Inspect_runs boxes_of_def split: if_splits)
  next
    case (Some y)
    obtain ls x where y: "y = (ls, x)" by fastforce
    from inspect_present [OF Some [unfolded y] run] run assms Some y show ?thesis
      by (auto simp: Inspect_runs boxes_of_def)
  qed
qed

lemma wrapped_pull:
  assumes "EnsurePulled cli ref policy d = (r, d')"
  shows "box d' = box d"
proof -
  have ex: "preserves (\<lambda>e. box e = box d) (imageExists cli ref)"
    unfolding imageExists_def
    by (intro preserves_intros) (auto simp: preserves_def image_inspect [OF prod.collapse [symmetric]])
  have pl: "preserves (\<lambda>e. box e = box d) (pull cli ref)"
    unfolding pull_def
    by (intro preserves_intros) (auto simp: preserves_def image_pull [OF prod.collapse [symmetric]])
  have "preserves (\<lambda>e. box e = box d) (EnsurePulled cli ref policy)"
    unfolding EnsurePulled_def by (intro preserves_intros ex pl)
  from preservesD [OF this refl assms] show ?thesis .
qed

lemma wrapped_create:
  assumes "CreateAndStart cli n spec d = (Inr i, d')"
  shows "box d n = None \<and> (\<exists>x. box d' = (box d)(n \<mapsto> (Labels spec, x)))"
  using CreateAndStart_Inr [OF assms] create_start create_conflict by metis

lemma wrapped_create_error:
  assumes "CreateAndStart cli n spec d = (Inl e, d')" and "m \<noteq> n"
  shows "box d' m = box d m"
  using CreateAndStart_Inl [OF assms(1)] create_error start_error assms(2) by metis

lemma wrapped_stop:
  assumes "StopContainer cli n g d = (r, d')"
  shows "box d' = box d \<and> box d n = None \<or>
    (\<exists>ls x y. box d n = Some (ls, x) \<and> box d' = (box d)(n \<mapsto> (ls, y)) \<and>
       (r = Inr () \<longrightarrow> (\<forall>st. in_State y = Some st \<longrightarrow> \<not> ds_Running st)))"
proof -
  obtain q e where run0: "ContainerStop cli n (whole_seconds g) d = (q, e)" by fastforce
  with assms have run: "ContainerStop cli n (whole_seconds g) d = (q, d')"
    and r: "r = (case q of Inl e \<Rightarrow> if is_not_found e then Inr () else Inl (cli_text e) | Inr _ \<Rightarrow> Inr ())"
    by (auto simp: StopContainer_def sbind_def attempt_def split: sum.splits if_splits)
  show ?thesis
  proof (cases "box d n")
    case None
    with stop_missing [OF None run] show ?thesis by simp
  next
    case (Some y)
    obtain ls x where y: "y = (ls, x)" by fastforce
    from stop_present [OF Some [unfolded y] run] r Some y show ?thesis
      by (auto split: sum.splits if_splits)
  qed
qed

lemma wrapped_remove:
  assumes "Remove cli n d = (r, d')"
  shows "box d' = (if r = Inr () then (box d)(n := None) else box d)"
proof -
  obtain q e where run0: "ContainerRemove cli n d = (q, e)" by fastforce
  with assms have run: "ContainerRemove cli n d = (q, d')"
    and r: "r = (case q of Inl e \<Rightarrow> if is_not_found e then Inr () else Inl (cli_text e) | Inr _ \<Rightarrow> Inr ())"
    by (auto simp: Remove_def sbind_def attempt_def split: sum.splits if_splits)
  show ?thesis
  proof (cases "box d n")
    case None
    with remove_missing [OF None run] show ?thesis by (auto simp: fun_upd_idem)
  next
    case (Some y)
    from remove_present [OF Some run] r show ?thesis by (auto split: sum.splits if_splits)
  qed
qed

lemma wrapped_list:
  assumes "ListManagedContainers cli d = (r, d')"
  shows "d' = d \<and> (\<forall>ms. r = Inr ms \<longrightarrow>
    (\<lambda>m. (mc_UID m, mc_DockerName m)) ` set ms = {(u, n). u \<noteq> [] \<and> (\<exists>v. boxes_of box d n = Some (u, v))})"
proof -
  obtain q where run: "ContainerList cli ''io.k8s.pod.uid'' d = (q, d')"
    using assms by (auto simp: ListManagedContainers_def sbind_def map_err_def split: prod.splits sum.splits)
  from list_labelled [OF run] have d: "d' = d" by simp
  have "(\<lambda>m. (mc_UID m, mc_DockerName m)) ` set ms = {(u, n). u \<noteq> [] \<and> (\<exists>v. boxes_of box d n = Some (u, v))}"
    if "r = Inr ms" for ms
  proof -
    let ?name = "\<lambda>c. case li_Names c of [] \<Rightarrow> [] | n # _ \<Rightarrow> trim_prefix n ''/''"
    let ?uid = "label_of ''io.k8s.pod.uid''"
    from assms that run obtain cs where q: "q = Inr cs"
      and ms: "ms = map (\<lambda>c. \<lparr>mc_UID = ?uid c, mc_ContainerName = label_of ''io.k8s.container.name'' c,
        mc_DockerName = ?name c\<rparr>) (filter (\<lambda>c. ?uid c \<noteq> []) cs)"
      by (auto simp: ListManagedContainers_def sbind_Inr_iff)
    from list_labelled [OF run] q have
      listed: "\<And>c. c \<in> set cs \<Longrightarrow> \<exists>n ns x. li_Names c = (CHR ''/'' # n) # ns \<and> box d n = Some (li_Labels c, x)"
      and all: "\<And>n ls x. box d n = Some (ls, x) \<Longrightarrow> ''io.k8s.pod.uid'' \<in> fst ` set ls \<Longrightarrow>
        \<exists>c \<in> set cs. \<exists>ns. li_Names c = (CHR ''/'' # n) # ns" by blast+
    have nm: "?name c = n" if "li_Names c = (CHR ''/'' # n) # ns" for c n ns
      using that by (simp add: trim_prefix_def has_prefix_def)
    have lab: "?uid c = uid_label (li_Labels c)" for c by (simp add: label_of_def uid_label_def)
    have "(u, n) \<in> (\<lambda>c. (?uid c, ?name c)) ` {c \<in> set cs. ?uid c \<noteq> []} \<longleftrightarrow>
        u \<noteq> [] \<and> (\<exists>v. boxes_of box d n = Some (u, v))" for u n
    proof
      assume "(u, n) \<in> (\<lambda>c. (?uid c, ?name c)) ` {c \<in> set cs. ?uid c \<noteq> []}"
      then obtain c where c: "c \<in> set cs" "?uid c \<noteq> []" "u = ?uid c" "n = ?name c" by auto
      from listed [OF c(1)] obtain n' ns x where x: "li_Names c = (CHR ''/'' # n') # ns" "box d n' = Some (li_Labels c, x)"
        by blast
      with nm [OF x(1)] c have "n' = n" by simp
      with x(2) c lab show "u \<noteq> [] \<and> (\<exists>v. boxes_of box d n = Some (u, v))" by (simp add: boxes_of_def)
    next
      assume "u \<noteq> [] \<and> (\<exists>v. boxes_of box d n = Some (u, v))"
      then obtain ls x where b: "box d n = Some (ls, x)" "uid_label ls = u" "u \<noteq> []"
        by (auto simp: boxes_of_def)
      then have "''io.k8s.pod.uid'' \<in> fst ` set ls"
        by (auto simp: uid_label_def split: option.splits dest: map_of_SomeD intro: rev_image_eqI)
      from all [OF b(1) this] obtain c ns where c: "c \<in> set cs" "li_Names c = (CHR ''/'' # n) # ns" by blast
      from listed [OF c(1)] c(2) b(1) have "li_Labels c = ls" by auto
      with b c nm [OF c(2)] lab [of c] show "(u, n) \<in> (\<lambda>c. (?uid c, ?name c)) ` {c \<in> set cs. ?uid c \<noteq> []}"
        by (intro rev_image_eqI [of c]) auto
    qed
    then have "(\<lambda>c. (?uid c, ?name c)) ` {c \<in> set cs. ?uid c \<noteq> []} =
        {(u, n). u \<noteq> [] \<and> (\<exists>v. boxes_of box d n = Some (u, v))}"
      by (intro set_eqI) (simp only: mem_Collect_eq split_paired_all prod.case)
    moreover have "(\<lambda>m. (mc_UID m, mc_DockerName m)) ` set ms = (\<lambda>c. (?uid c, ?name c)) ` {c \<in> set cs. ?uid c \<noteq> []}"
      unfolding ms by (simp add: image_image)
    ultimately show ?thesis by simp
  qed
  with d show ?thesis by blast
qed

end

sublocale docker_daemon \<subseteq> container_runtime "dockerRT cli" "boxes_of box"
proof
  fix n d r d' ref policy r1 spec i e m g u v r2
  show "rt_Inspect (dockerRT cli) n d = (r, d') \<Longrightarrow>
      d' = d \<and> (\<forall>x. r = Inr x \<longrightarrow> x = map_option snd (boxes_of box d n))"
    using wrapped_inspect by (simp add: dockerRT_def)
  show "rt_EnsurePulled (dockerRT cli) ref policy d = (r1, d') \<Longrightarrow> boxes_of box d' = boxes_of box d"
    using wrapped_pull by (auto simp: dockerRT_def boxes_of_def fun_eq_iff)
  show "rt_Stop (dockerRT cli) n g d = (r1, d') \<Longrightarrow>
      (\<forall>m. map_option fst (boxes_of box d' m) = map_option fst (boxes_of box d m)) \<and>
      (\<forall>m. m \<noteq> n \<longrightarrow> boxes_of box d' m = boxes_of box d m)"
    using wrapped_stop [of n g d r1 d'] by (auto simp: dockerRT_def boxes_of_def)
  show "rt_Stop (dockerRT cli) n g d = (Inr (), d') \<Longrightarrow> boxes_of box d' n = Some (u, v) \<Longrightarrow> \<not> cv_running v"
    using wrapped_stop [of n g d "Inr ()" d']
    by (auto simp: dockerRT_def boxes_of_def running_view)
  show "rt_Remove (dockerRT cli) n d = (Inr (), d') \<Longrightarrow> boxes_of box d' = (boxes_of box d)(n := None)"
    using wrapped_remove [of n d "Inr ()" d'] by (auto simp: dockerRT_def boxes_of_def)
  show "rt_Remove (dockerRT cli) n d = (Inl e, d') \<Longrightarrow> boxes_of box d' = boxes_of box d"
    using wrapped_remove [of n d "Inl e" d'] by (auto simp: dockerRT_def boxes_of_def)
  show "rt_CreateAndStart (dockerRT cli) n spec d = (Inl e, d') \<Longrightarrow> m \<noteq> n \<Longrightarrow> boxes_of box d' m = boxes_of box d m"
    using wrapped_create_error by (simp add: dockerRT_def boxes_of_def)
  show "rt_CreateAndStart (dockerRT cli) n spec d = (Inr i, d') \<Longrightarrow>
      boxes_of box d n = None \<and>
        (\<exists>v. boxes_of box d' = (boxes_of box d)(n \<mapsto> (uid_label (Labels spec), v)))"
    using wrapped_create [of n spec d i d'] by (auto simp: dockerRT_def boxes_of_def fun_eq_iff)
  show "rt_ListManagedContainers (dockerRT cli) d = (r2, d') \<Longrightarrow> d' = d \<and>
      (\<forall>ms. r2 = Inr ms \<longrightarrow> (\<lambda>m. (mc_UID m, mc_DockerName m)) ` set ms =
         {(u, n). u \<noteq> [] \<and> (\<exists>v. boxes_of box d n = Some (u, v))})"
    using wrapped_list by (simp add: dockerRT_def)
qed

section \<open>The example daemon\<close>

definition demo_box :: "daemon \<Rightarrow> string \<Rightarrow> ((string \<times> string) list \<times> inspect) option" where
  "demo_box d n = map_option (\<lambda>b. (dc_Labels (bx_config b), inspect_box n b)) (map_of d n)"

lemma map_of_delete: "map_of (AList.delete k al) = (map_of al)(k := None)"
  by (simp add: AList.delete_conv')

lemma map_of_update: "map_of (AList.update k v al) = (map_of al)(k \<mapsto> v)"
  by (simp add: AList.update_conv')

lemma on_box_run:
  "on_box n f d = (r, d') \<longleftrightarrow>
     (case map_of d n of
        None \<Rightarrow> r = Inl (CliNotFound ''No such container'') \<and> d' = d
      | Some b \<Rightarrow> \<exists>x. f b = (x, d') \<and> r = Inr x)"
  by (auto simp: on_box_def split: option.split prod.split)

lemma demo_listed:
  defines "entry \<equiv> \<lambda>d name. \<lparr>li_Labels = dc_Labels (bx_config (the (map_of d name))), li_Names = [CHR ''/'' # name]\<rparr>"
  shows "ContainerList demo_cli label d = (Inr (map (entry d) (remdups (map fst d))), d)"
    and "c \<in> set (map (entry d) (remdups (map fst d))) \<longleftrightarrow> (\<exists>n. map_of d n \<noteq> None \<and> c = entry d n)"
proof -
  show "ContainerList demo_cli label d = (Inr (map (entry d) (remdups (map fst d))), d)"
    by (simp add: demo_cli_def entry_def)
  have "n \<in> fst ` set d \<longleftrightarrow> map_of d n \<noteq> None" for n by (simp add: map_of_eq_None_iff)
  then show "c \<in> set (map (entry d) (remdups (map fst d))) \<longleftrightarrow> (\<exists>n. map_of d n \<noteq> None \<and> c = entry d n)"
    by (simp only: set_map set_remdups image_iff Bex_def)
qed

interpretation demo: docker_daemon demo_cli demo_box
proof
  fix ref d r1 d' r2 n r3 ls x cfg host i d1 e d2 m r4 d3 secs r5 y r6 label r7
  show "ImageInspect demo_cli ref d = (r1, d') \<Longrightarrow> demo_box d' = demo_box d"
    "ImagePull demo_cli ref d = (r2, d') \<Longrightarrow> demo_box d' = demo_box d"
    by (simp_all add: demo_cli_def)
  show "demo_box d n = None \<Longrightarrow> ContainerInspect demo_cli n d = (r3, d') \<Longrightarrow> d' = d \<and> (\<exists>e. r3 = Inl e)"
    "demo_box d n = Some (ls, x) \<Longrightarrow> ContainerInspect demo_cli n d = (r3, d') \<Longrightarrow>
      d' = d \<and> (r3 = Inr x \<or> (\<exists>m. r3 = Inl (CliError m)))"
    by (auto simp: demo_cli_def demo_box_def on_box_run)
  show "ContainerCreate demo_cli cfg host n d = (Inr i, d1) \<Longrightarrow> demo_box d n = None"
    "ContainerCreate demo_cli cfg host n d = (Inl e, d1) \<Longrightarrow> demo_box d1 = demo_box d"
    by (auto simp: demo_cli_def demo_box_def split: if_splits)
  show "ContainerCreate demo_cli cfg host n d = (Inr i, d1) \<Longrightarrow> ContainerStart demo_cli i d1 = (Inr (), d2) \<Longrightarrow>
      \<exists>x. demo_box d2 = (demo_box d)(n \<mapsto> (dc_Labels cfg, x))"
    by (intro exI [of _ "inspect_box n \<lparr>bx_config = cfg, bx_running = True, bx_exit = 0\<rparr>"])
      (auto simp: demo_cli_def demo_box_def on_box_run map_of_update fun_eq_iff map_add_def
        split: if_splits option.splits)
  show "ContainerCreate demo_cli cfg host n d = (Inr i, d1) \<Longrightarrow> ContainerStart demo_cli i d1 = (Inl e, d2) \<Longrightarrow>
      ContainerRemove demo_cli i d2 = (r4, d3) \<Longrightarrow> m \<noteq> n \<Longrightarrow> demo_box d3 m = demo_box d m"
    by (auto simp: demo_cli_def demo_box_def on_box_run map_of_delete map_add_def split: if_splits option.splits)
  show "demo_box d n = None \<Longrightarrow> ContainerStop demo_cli n secs d = (r5, d') \<Longrightarrow> demo_box d' = demo_box d"
    by (auto simp: demo_cli_def demo_box_def on_box_run)
  show "demo_box d n = Some (ls, x) \<Longrightarrow> ContainerStop demo_cli n secs d = (r5, d') \<Longrightarrow>
      \<exists>y. demo_box d' = (demo_box d)(n \<mapsto> (ls, y)) \<and>
        (case r5 of Inr _ \<Rightarrow> (\<forall>st. in_State y = Some st \<longrightarrow> \<not> ds_Running st) | Inl e \<Rightarrow> \<not> is_not_found e)"
    by (auto simp: demo_cli_def demo_box_def on_box_run map_of_update fun_eq_iff inspect_box_def)
  show "demo_box d n = None \<Longrightarrow> ContainerRemove demo_cli n d = (r6, d') \<Longrightarrow> demo_box d' = demo_box d"
    by (auto simp: demo_cli_def demo_box_def on_box_run)
  show "demo_box d n = Some y \<Longrightarrow> ContainerRemove demo_cli n d = (r6, d') \<Longrightarrow>
      (case r6 of Inr _ \<Rightarrow> demo_box d' = (demo_box d)(n := None) | Inl e \<Rightarrow> \<not> is_not_found e \<and> demo_box d' = demo_box d)"
    by (auto simp: demo_cli_def demo_box_def on_box_run map_of_delete fun_eq_iff)
  show "ContainerList demo_cli label d = (r7, d') \<Longrightarrow> d' = d \<and>
      (\<forall>cs. r7 = Inr cs \<longrightarrow>
        (\<forall>c \<in> set cs. \<exists>n ns x. li_Names c = (CHR ''/'' # n) # ns \<and> demo_box d n = Some (li_Labels c, x)) \<and>
        (\<forall>n ls x. demo_box d n = Some (ls, x) \<and> label \<in> fst ` set ls \<longrightarrow>
           (\<exists>c \<in> set cs. \<exists>ns. li_Names c = (CHR ''/'' # n) # ns)))"
    unfolding demo_listed(1)
    by (elim Pair_inject, hypsubst)
      (auto simp only: sum.inject demo_listed(2) Ball_def Bex_def, auto simp: demo_box_def, force)
qed

end
