(* ===== verification/Events.thy ===== *)
theory Events
  imports Runtime
begin

text \<open>
  \<open>internal/kubelet/events.go\<close> and the state of the kubelet that events and reconciliation share. The
  API client, the informer's lister and the work queue are parameters: records of operations on
  their own states. The lemmas show that event names are unique per recorder and that shortening a
  long one never cuts past the end of the pod's name.
\<close>

section \<open>State and parameters\<close>

text \<open>
  The API client on its state \<open>'k\<close>: reading ConfigMaps and Secrets, patching the status of a pod,
  deleting a pod with a grace period, creating an event; and the informer's lister.
\<close>

record 'k kube_api =
  ka_get :: "'k \<Rightarrow> kube_client"
  ka_patchStatus :: "string \<Rightarrow> string \<Rightarrow> pod_status \<Rightarrow> ('k, get_error, unit) sem"
  ka_deletePod :: "string \<Rightarrow> string \<Rightarrow> int \<Rightarrow> ('k, get_error, unit) sem"
  ka_createEvent :: "kevent \<Rightarrow> ('k, string, unit) sem"
  ka_listerGet :: "'k \<Rightarrow> string \<Rightarrow> string \<Rightarrow> get_error + pod"
  ka_listerList :: "'k \<Rightarrow> string + pod list"

text \<open>The work queue: \<open>Get\<close> gives \<open>None\<close> once the queue is shut down.\<close>

record 'q work_queue =
  wq_Add :: "string \<Rightarrow> 'q \<Rightarrow> 'q"
  wq_Get :: "'q \<Rightarrow> string option \<times> 'q"
  wq_Done :: "string \<Rightarrow> 'q \<Rightarrow> 'q"
  wq_AddRateLimited :: "string \<Rightarrow> 'q \<Rightarrow> 'q"
  wq_Forget :: "string \<Rightarrow> 'q \<Rightarrow> 'q"

text \<open>
  The reconciler: the fields of the struct that do not change, with client-go's
  \<open>SplitMetaNamespaceKey\<close>, the texts of errors, the clock's time of the step at hand and the UUID the
  generator would return.
\<close>

record ('d, 'k, 'q) reconciler =
  rc_kube :: "'k kube_api"
  rc_docker :: "'d docker_runtime"
  rc_queue :: "'q work_queue"
  rc_host :: string
  rc_volumeRoot :: string
  rc_splitKey :: "string \<Rightarrow> string + string \<times> string"
  rc_text :: os_text
  rc_now :: time
  rc_uuid :: string

text \<open>What changes: the files, the daemon, the API server, the queue, \<open>failedPods\<close> and the event counter.\<close>

record ('d, 'k, 'q) rstate = fs_state +
  st_docker :: 'd
  st_kube :: 'k
  st_queue :: 'q
  st_failed :: "string \<rightharpoonup> string"
  st_seq :: u64

type_synonym ('d, 'k, 'q, 'a) kubelet_op = "(('d, 'k, 'q) rstate, string, 'a) sem"

definition on_docker :: "('d, 'e, 'a) sem \<Rightarrow> (('d, 'k, 'q) rstate, 'e, 'a) sem" where
  "on_docker m s = (case m (st_docker s) of (r, d) \<Rightarrow> (r, s\<lparr>st_docker := d\<rparr>))"

definition on_kube :: "('k, 'e, 'a) sem \<Rightarrow> (('d, 'k, 'q) rstate, 'e, 'a) sem" where
  "on_kube m s = (case m (st_kube s) of (r, k) \<Rightarrow> (r, s\<lparr>st_kube := k\<rparr>))"

section \<open>Recording events\<close>

text \<open>\<open>%x\<close> of a number.\<close>

fun format_hex :: "nat \<Rightarrow> string" where
  "format_hex n = (if n < 16 then [hex_digit n] else format_hex (n div 16) @ [hex_digit (n mod 16)])"

declare format_hex.simps [simp del]

definition hex_int :: "int \<Rightarrow> string" where
  "hex_int i = (if i < 0 then CHR ''-'' # format_hex (nat (- i)) else format_hex (nat i))"

definition event_name :: "string \<Rightarrow> string \<Rightarrow> time \<Rightarrow> u64 \<Rightarrow> string" where
  "event_name uuid target now seq =
     (let name = target @ ''.'' @ hex_int now @ ''.'' @ format_uint seq
      in if 253 < length name then take 200 target @ ''.'' @ uuid else name)"

definition Event :: "('d, 'k, 'q) reconciler \<Rightarrow> pod \<Rightarrow> string \<Rightarrow> string \<Rightarrow> string \<Rightarrow> ('d, 'k, 'q, unit) kubelet_op" where
  "Event R target eventType reason message =
     sbind (modify (\<lambda>s. s\<lparr>st_seq := st_seq s + 1\<rparr>)) (\<lambda>_.
     sbind (gets st_seq) (\<lambda>seq.
     let e = \<lparr>om_name = event_name (rc_uuid R) (p_name target) (rc_now R) seq,
              om_namespace = p_namespace target, om_labels = [], om_creationTimestamp = 0,
              ke_kind = ''Pod'', ke_objectNamespace = p_namespace target,
              ke_objectName = p_name target, ke_objectUID = p_uid target, ke_apiVersion = ''v1'',
              ke_objectVersion = p_resourceVersion target, ke_fieldPath = [],
              ke_reason = reason, ke_message = message, ke_type = eventType,
              ke_firstTimestamp = rc_now R, ke_lastTimestamp = rc_now R, ke_eventTime = rc_now R,
              ke_count = 1, ke_component = ''kubelet-lite'', ke_host = rc_host R,
              ke_controller = ''kubernetes.io/kubelet-lite'', ke_instance = rc_host R\<rparr>
     in sbind (attempt (on_kube (ka_createEvent (rc_kube R) e))) (\<lambda>_. ret ())))"

section \<open>Names\<close>

lemma format_hex_length:
  "n < 16 ^ Suc k \<Longrightarrow> length (format_hex n) \<le> Suc k"
proof (induction k arbitrary: n)
  case 0
  then show ?case by (subst format_hex.simps) simp
next
  case (Suc k)
  show ?case
  proof (cases "n < 16")
    case True
    then show ?thesis by (subst format_hex.simps) simp
  next
    case False
    have "n div 16 < 16 ^ Suc k" using Suc.prems by (simp add: less_mult_imp_div_less)
    from Suc.IH [OF this] False show ?thesis by (subst format_hex.simps) simp
  qed
qed

lemma format_nat_length: "n < 10 ^ Suc k \<Longrightarrow> length (format_nat n) \<le> Suc k"
proof (induction k arbitrary: n)
  case 0
  then show ?case by (subst format_nat.simps) simp
next
  case (Suc k)
  show ?case
  proof (cases "n < 10")
    case True
    then show ?thesis by (subst format_nat.simps) simp
  next
    case False
    have "n div 10 < 10 ^ Suc k" using Suc.prems by (simp add: less_mult_imp_div_less)
    from Suc.IH [OF this] False show ?thesis by (subst format_nat.simps) simp
  qed
qed

lemma format_uint_length: "length (format_uint v) \<le> 20"
proof -
  have "unat v < 2 ^ 64" using unsigned_less [of v] by simp
  then have "unat v < 10 ^ Suc 19" by simp
  from format_nat_length [OF this] show ?thesis by (simp add: format_uint_def)
qed

lemma format_uint_inject: "format_uint a = format_uint b \<longleftrightarrow> a = b"
  by (metis parse_uint_format sum.inject(2))

lemma hex_int_length: "0 \<le> t \<Longrightarrow> t < 2 ^ 63 \<Longrightarrow> length (hex_int t) \<le> 16"
  using format_hex_length [of "nat t" 15] by (simp add: hex_int_def)

text \<open>\<open>target.Name[:200]\<close> is within bounds wherever it is evaluated.\<close>

lemma long_event_name:
  assumes "0 \<le> now" and "now < 2 ^ 63" and "253 < length (target @ ''.'' @ hex_int now @ ''.'' @ format_uint seq)"
  shows "200 \<le> length target"
  using assms(3) hex_int_length [OF assms(1,2)] format_uint_length [of seq] by simp

lemma event_name_inject:
  assumes "length target \<le> 215" and "0 \<le> now" and "now < 2 ^ 63"
  shows "event_name uuid target now a = event_name uuid' target now b \<longleftrightarrow> a = b"
  using hex_int_length [OF assms(2,3)] format_uint_length [of a] format_uint_length [of b] assms(1)
  by (simp add: event_name_def Let_def format_uint_inject)

end
