(* ===== verification/Reconciler.thy ===== *)
theory Reconciler
  imports Events
begin

text \<open>
  \<open>internal/kubelet/reconciler.go\<close>: bringing the containers of the daemon in line with the pods of the
  API server. Operations are computations on the kubelet's state; errors are the texts the code
  returns. Log lines are left out.
\<close>

section \<open>Durations\<close>

text \<open>\<open>time.Duration.String\<close>, in nanoseconds.\<close>

definition frac_text :: "int \<Rightarrow> nat \<Rightarrow> string" where
  "frac_text u prec =
     (let f = u mod 10 ^ prec; ds = format_int f
      in if f = 0 then []
         else CHR ''.'' # trim_right (CHR ''0'') (replicate (prec - length ds) (CHR ''0'') @ ds))"

definition scaled_text :: "int \<Rightarrow> nat \<Rightarrow> string \<Rightarrow> string" where
  "scaled_text u prec unit_text = format_int (u div 10 ^ prec) @ frac_text u prec @ unit_text"

definition duration_text :: "int \<Rightarrow> string" where
  "duration_text d =
     (let u = abs d;
          secs = u div 1000000000; mins = secs div 60; hours = mins div 60
      in (if d < 0 then ''-'' else []) @
         (if u = 0 then ''0s''
          else if u < 1000 then scaled_text u 0 ''ns''
          else if u < 1000000 then scaled_text u 3 [CHR 0xC2, CHR 0xB5, CHR ''s'']
          else if u < 1000000000 then scaled_text u 6 ''ms''
          else (if 0 < hours then format_int hours @ ''h'' else []) @
               (if 0 < mins then format_int (mins mod 60) @ ''m'' else []) @
               format_int (secs mod 60) @ frac_text u 9 @ ''s''))"

lemma duration_text_examples:
  "duration_text 30000000000 = ''30s''" "duration_text 5400000000000 = ''1h30m0s''" "duration_text (- 7) = ''-7ns''"
  by code_simp+

section \<open>Status\<close>

definition patchStatus ::
  "('d, 'k, 'q) reconciler \<Rightarrow> pod \<Rightarrow> pod_status \<Rightarrow> ('d, 'k, 'q, unit) kubelet_op" where
  "patchStatus R pod status =
     sbind (attempt (on_kube (ka_patchStatus (rc_kube R) (p_namespace pod) (p_name pod) status))) (\<lambda>r. case r of
       Inl (IsNotFound _) \<Rightarrow> ret ()
     | Inl (OtherError m) \<Rightarrow> throw m
     | Inr _ \<Rightarrow> ret ())"

definition markFailedOnce :: "('d, 'k, 'q) reconciler \<Rightarrow> pod \<Rightarrow> string \<Rightarrow> ('d, 'k, 'q, unit) kubelet_op" where
  "markFailedOnce R pod msg =
     sbind (gets st_failed) (\<lambda>failedPods.
     if failedPods (p_uid pod) = Some msg then ret ()
     else
       sbind (patchStatus R pod (FailedPodStatus msg)) (\<lambda>_.
       modify (\<lambda>s. s\<lparr>st_failed := (st_failed s)(p_uid pod \<mapsto> msg)\<rparr>)))"

section \<open>Bringing a pod up\<close>

text \<open>Starting a container that does not exist: \<open>Inl\<close> is the message the pod fails with.\<close>

definition start_container ::
  "('d, 'k, 'q) reconciler \<Rightarrow> pod \<Rightarrow> string \<Rightarrow> container_spec \<Rightarrow> ('d, 'k, 'q, string + container_view) kubelet_op" where
  "start_container R pod dockerName spec =
     sbind (Event R pod ''Normal'' ''Pulling'' (''Pulling image '' @ quote (Image spec))) (\<lambda>_.
     sbind (attempt (on_docker (rt_EnsurePulled (rc_docker R) (Image spec) (PullPolicy spec)))) (\<lambda>r. case r of
       Inl err \<Rightarrow>
         sbind (Event R pod ''Warning'' ''Failed''
           (''Failed to pull image '' @ quote (Image spec) @ '' for container '' @ quote (ContainerNm spec) @ '': '' @ err)) (\<lambda>_.
         ret (Inl (''image pull failed for '' @ quote (ContainerNm spec) @ '': '' @ err)))
     | Inr _ \<Rightarrow>
     sbind (Event R pod ''Normal'' ''Pulled'' (''Successfully pulled image '' @ quote (Image spec))) (\<lambda>_.
     sbind (attempt (on_docker (rt_CreateAndStart (rc_docker R) dockerName spec))) (\<lambda>r. case r of
       Inl err \<Rightarrow>
         sbind (Event R pod ''Warning'' ''Failed''
           (''Failed to create container '' @ quote (ContainerNm spec) @ '': '' @ err)) (\<lambda>_.
         ret (Inl (''create/start '' @ quote (ContainerNm spec) @ '' failed: '' @ err)))
     | Inr _ \<Rightarrow>
     sbind (Event R pod ''Normal'' ''Created'' (''Created container: '' @ ContainerNm spec)) (\<lambda>_.
     sbind (Event R pod ''Normal'' ''Started'' (''Started container '' @ ContainerNm spec)) (\<lambda>_.
     sbind (map_err (\<lambda>e. ''inspect '' @ dockerName @ '' after start: '' @ e)
              (on_docker (rt_Inspect (rc_docker R) dockerName))) (\<lambda>view.
     ret (Inr (case view of Some v \<Rightarrow> v | None \<Rightarrow> zero_view)))))))))"

fun reconcile_specs ::
  "('d, 'k, 'q) reconciler \<Rightarrow> pod \<Rightarrow> (string \<times> container_view) list \<Rightarrow> container_spec list \<Rightarrow>
     ('d, 'k, 'q, unit) kubelet_op" where
  "reconcile_specs R pod views [] = patchStatus R pod (PodStatusFromViews (rc_now R) pod views)"
| "reconcile_specs R pod views (spec # specs) =
     (let dockerName = ContainerName (p_uid pod) (ContainerNm spec)
      in sbind (map_err (\<lambda>e. ''inspect '' @ dockerName @ '': '' @ e) (on_docker (rt_Inspect (rc_docker R) dockerName))) (\<lambda>view.
         sbind (case view of
                  Some v \<Rightarrow> ret (Inr v)
                | None \<Rightarrow> start_container R pod dockerName spec) (\<lambda>r. case r of
           Inl msg \<Rightarrow> markFailedOnce R pod msg
         | Inr v \<Rightarrow> reconcile_specs R pod (AList.update (ContainerNm spec) v views) specs)))"

section \<open>Termination\<close>

definition containerNamesByLabel :: "('d, 'k, 'q) reconciler \<Rightarrow> string \<Rightarrow> ('d, 'k, 'q, string list) kubelet_op" where
  "containerNamesByLabel R uid =
     sbind (attempt (on_docker (rt_ListManagedContainers (rc_docker R)))) (\<lambda>r. case r of
       Inl _ \<Rightarrow> ret []
     | Inr mgr \<Rightarrow> ret (map mc_DockerName (filter (\<lambda>m. mc_UID m = uid) mgr)))"

definition containerNamesForPod :: "('d, 'k, 'q) reconciler \<Rightarrow> pod \<Rightarrow> ('d, 'k, 'q, string list) kubelet_op" where
  "containerNamesForPod R pod =
     (if 0 < length (p_containers pod)
      then ret (map (\<lambda>c. ContainerName (p_uid pod) (c_name c)) (p_containers pod))
      else containerNamesByLabel R (p_uid pod))"

text \<open>The loop runs through the names from the last to the first; the list is already reversed.\<close>

fun stop_all :: "('d, 'k, 'q) reconciler \<Rightarrow> pod \<Rightarrow> int \<Rightarrow> string list \<Rightarrow> ('d, 'k, 'q, unit) kubelet_op" where
  "stop_all R pod grace [] = ret ()"
| "stop_all R pod grace (name # names) =
     sbind (map_err (\<lambda>e. ''inspect '' @ name @ '' during terminate: '' @ e)
              (on_docker (rt_Inspect (rc_docker R) name))) (\<lambda>view.
     sbind (case view of
              None \<Rightarrow> ret ()
            | Some _ \<Rightarrow>
                sbind (Event R pod ''Normal'' ''Killing''
                  (''Stopping container '' @ name @ '' (grace='' @ duration_text grace @ '')'')) (\<lambda>_.
                sbind (attempt (on_docker (rt_Stop (rc_docker R) name grace))) (\<lambda>_. ret ()))) (\<lambda>_.
     stop_all R pod grace names))"

definition terminatePod :: "('d, 'k, 'q) reconciler \<Rightarrow> pod \<Rightarrow> ('d, 'k, 'q, unit) kubelet_op" where
  "terminatePod R pod =
     (let grace = (case p_deletionGrace pod of
                     Some s \<Rightarrow> int64 (s * 1000000000)
                   | None \<Rightarrow> 30 * 1000000000)
      in sbind (containerNamesForPod R pod) (\<lambda>names.
         sbind (stop_all R pod grace (rev names)) (\<lambda>_.
         sbind (attempt (on_kube (ka_deletePod (rc_kube R) (p_namespace pod) (p_name pod) 0))) (\<lambda>r. case r of
           Inl (IsNotFound _) \<Rightarrow> ret ()
         | Inl (OtherError m) \<Rightarrow> throw m
         | Inr _ \<Rightarrow> ret ()))))"

section \<open>Reconciliation\<close>

definition reconcilePod :: "('d, 'k, 'q) reconciler \<Rightarrow> pod \<Rightarrow> ('d, 'k, 'q, unit) kubelet_op" where
  "reconcilePod R pod =
     (if p_uid pod = [] then ret ()
      else if p_deletionTimestamp pod \<noteq> None then terminatePod R pod
      else
        sbind (gets (\<lambda>s. ka_get (rc_kube R) (st_kube s))) (\<lambda>kube.
        sbind (attempt (ContainerSpecsFromPod (rc_text R) (Some kube) pod (rc_volumeRoot R))) (\<lambda>r. case r of
          Inl err \<Rightarrow> markFailedOnce R pod err
        | Inr specs \<Rightarrow> reconcile_specs R pod [] specs)))"

definition podKey :: "pod \<Rightarrow> string" where
  "podKey p = p_namespace p @ ''/'' @ p_name p"

definition reconcileKey :: "('d, 'k, 'q) reconciler \<Rightarrow> string \<Rightarrow> ('d, 'k, 'q, unit) kubelet_op" where
  "reconcileKey R key =
     sbind (of_sum (rc_splitKey R key)) (\<lambda>(ns, name).
     sbind (gets (\<lambda>s. ka_listerGet (rc_kube R) (st_kube s) ns name)) (\<lambda>r. case r of
       Inl (IsNotFound _) \<Rightarrow> ret ()
     | Inl (OtherError m) \<Rightarrow> throw m
     | Inr pod \<Rightarrow> reconcilePod R pod))"

definition on_queue :: "('q \<Rightarrow> 'q) \<Rightarrow> (('d, 'k, 'q) rstate, 'e, unit) sem" where
  "on_queue f = modify (\<lambda>s. s\<lparr>st_queue := f (st_queue s)\<rparr>)"

definition processNext :: "('d, 'k, 'q) reconciler \<Rightarrow> ('d, 'k, 'q, bool) kubelet_op" where
  "processNext R =
     sbind (gets (\<lambda>s. wq_Get (rc_queue R) (st_queue s))) (\<lambda>(key, q).
     sbind (on_queue (\<lambda>_. q)) (\<lambda>_.
     case key of
       None \<Rightarrow> ret False
     | Some key \<Rightarrow>
         sbind (attempt (reconcileKey R key)) (\<lambda>r.
         sbind (on_queue (case r of Inl _ \<Rightarrow> wq_AddRateLimited (rc_queue R) key
                          | Inr _ \<Rightarrow> wq_Forget (rc_queue R) key)) (\<lambda>_.
         sbind (on_queue (wq_Done (rc_queue R) key)) (\<lambda>_.
         ret True)))))"

section \<open>Reaping\<close>

text \<open>
  \<open>os.RemoveAll\<close>: nothing to do where the path does not exist; a failure may leave a part of the
  directory's entries.
\<close>

definition remove_all_at :: "path \<Rightarrow> node \<Rightarrow> os_error + node" where
  "remove_all_at p n = (case del_at p n of Inl ENOENT \<Rightarrow> Inr n | r \<Rightarrow> r)"

definition os_remove_all :: "path \<Rightarrow> ('x fs_state_scheme, os_error, unit) sem" where
  "os_remove_all p =
     change (\<lambda>k n. case node_at n p of
                     Inr (Dir es) \<Rightarrow> (case put_at p (Dir (drop k es)) n of Inr n' \<Rightarrow> n' | Inl _ \<Rightarrow> n)
                   | _ \<Rightarrow> n) (remove_all_at p)"

definition remove_volumes :: "('d, 'k, 'q) reconciler \<Rightarrow> string \<Rightarrow> ('d, 'k, 'q, unit) kubelet_op" where
  "remove_volumes R uid =
     (if rc_volumeRoot R \<noteq> [] then
        sbind (gets (\<lambda>s. PodVolumeRoot (fs_cwd s) (rc_volumeRoot R) uid)) (\<lambda>dir.
        sbind (attempt (os_remove_all dir)) (\<lambda>_. ret ()))
      else ret ())"

fun reap_names :: "('d, 'k, 'q) reconciler \<Rightarrow> string list \<Rightarrow> ('d, 'k, 'q, unit) kubelet_op" where
  "reap_names R [] = ret ()"
| "reap_names R (name # names) =
     sbind (attempt (on_docker (rt_Stop (rc_docker R) name 10000000000))) (\<lambda>_.
     sbind (map_err (\<lambda>e. ''remove '' @ name @ '': '' @ e) (on_docker (rt_Remove (rc_docker R) name))) (\<lambda>_.
     reap_names R names))"

definition reapByUID :: "('d, 'k, 'q) reconciler \<Rightarrow> string \<Rightarrow> ('d, 'k, 'q, unit) kubelet_op" where
  "reapByUID R uid =
     sbind (containerNamesByLabel R uid) (\<lambda>names.
     if length names = 0 then ret ()
     else sbind (reap_names R (rev names)) (\<lambda>_. remove_volumes R uid))"

text \<open>
  \<open>orphansByUID\<close>, in the order in which the UIDs first occur; the code visits the map in any order.
\<close>

fun add_orphan :: "string \<Rightarrow> string \<Rightarrow> (string \<times> string list) list \<Rightarrow> (string \<times> string list) list" where
  "add_orphan uid name [] = [(uid, [name])]"
| "add_orphan uid name ((u, ns) # rest) =
     (if u = uid then (u, ns @ [name]) # rest else (u, ns) # add_orphan uid name rest)"

definition orphans :: "string list \<Rightarrow> managed_container list \<Rightarrow> (string \<times> string list) list" where
  "orphans known managed =
     fold (\<lambda>m acc. if mc_UID m \<in> set known then acc else add_orphan (mc_UID m) (mc_DockerName m) acc) managed []"

fun orphan_names :: "('d, 'k, 'q) reconciler \<Rightarrow> string list \<Rightarrow> ('d, 'k, 'q, unit) kubelet_op" where
  "orphan_names R [] = ret ()"
| "orphan_names R (name # names) =
     sbind (attempt (on_docker (rt_Stop (rc_docker R) name 10000000000))) (\<lambda>_.
     sbind (attempt (on_docker (rt_Remove (rc_docker R) name))) (\<lambda>_.
     orphan_names R names))"

fun reap_groups :: "('d, 'k, 'q) reconciler \<Rightarrow> (string \<times> string list) list \<Rightarrow> ('d, 'k, 'q, unit) kubelet_op" where
  "reap_groups R [] = ret ()"
| "reap_groups R ((uid, names) # rest) =
     sbind (orphan_names R names) (\<lambda>_. sbind (remove_volumes R uid) (\<lambda>_. reap_groups R rest))"

definition reapOrphans :: "('d, 'k, 'q) reconciler \<Rightarrow> ('d, 'k, 'q, unit) kubelet_op" where
  "reapOrphans R =
     sbind (on_docker (rt_ListManagedContainers (rc_docker R))) (\<lambda>managed.
     if length managed = 0 then ret ()
     else
       sbind (gets (\<lambda>s. ka_listerList (rc_kube R) (st_kube s))) (\<lambda>r.
       sbind (of_sum r) (\<lambda>pods.
       reap_groups R (orphans (map p_uid pods) managed))))"

section \<open>The informer's handlers\<close>

text \<open>What the informer hands over: a pod, a tombstone around an object, or something else.\<close>

datatype informer_obj = PodObject pod | DeletedFinalStateUnknown informer_obj | OtherObject

fun asPod :: "informer_obj \<Rightarrow> pod option" where
  "asPod (PodObject p) = Some p"
| "asPod _ = None"

definition on_add :: "('d, 'k, 'q) reconciler \<Rightarrow> informer_obj \<Rightarrow> ('d, 'k, 'q, unit) kubelet_op" where
  "on_add R obj = (case asPod obj of Some pod \<Rightarrow> on_queue (wq_Add (rc_queue R) (podKey pod)) | None \<Rightarrow> ret ())"

definition on_update :: "('d, 'k, 'q) reconciler \<Rightarrow> informer_obj \<Rightarrow> informer_obj \<Rightarrow> ('d, 'k, 'q, unit) kubelet_op" where
  "on_update R old obj = (case asPod obj of Some pod \<Rightarrow> on_queue (wq_Add (rc_queue R) (podKey pod)) | None \<Rightarrow> ret ())"

definition on_delete :: "('d, 'k, 'q) reconciler \<Rightarrow> informer_obj \<Rightarrow> ('d, 'k, 'q, unit) kubelet_op" where
  "on_delete R obj =
     (let pod = (case asPod obj of
                   Some p \<Rightarrow> Some p
                 | None \<Rightarrow> (case obj of DeletedFinalStateUnknown o' \<Rightarrow> asPod o' | _ \<Rightarrow> None))
      in case pod of
           None \<Rightarrow> ret ()
         | Some p \<Rightarrow>
             sbind (modify (\<lambda>s. s\<lparr>st_failed := (st_failed s)(p_uid p := None)\<rparr>)) (\<lambda>_.
             sbind (attempt (reapByUID R (p_uid p))) (\<lambda>_. ret ())))"

end
