(* ===== verification/Reconciler_Laws.thy ===== *)
theory Reconciler_Laws
  imports Reconciler
begin

text \<open>
  What reconciliation does to the containers of the daemon, for every runtime that keeps the
  contract \<open>container_runtime\<close>, whatever calls of the daemon, the API server or the disk fail.
\<close>

section \<open>The file system calls leave the rest of the state alone\<close>

definition only_files :: "('x fs_state_scheme, 'e, 'a) sem \<Rightarrow> bool" where
  "only_files m \<longleftrightarrow> (\<forall>s. fs_state.more (snd (m s)) = fs_state.more s)"

lemma only_files_preserves: "only_files m \<longleftrightarrow> (\<forall>x. preserves (\<lambda>s. fs_state.more s = x) m)"
  by (auto simp: only_files_def preserves_def)

lemma only_files_change: "only_files (change part f)"
  by (auto simp: only_files_def change_def syscall_def split: list.split fault.split sum.split)

lemma only_files_query: "only_files (query f)"
  by (auto simp: only_files_def query_def syscall_def split: list.split fault.split sum.split)

lemma only_files_structure:
  "only_files (ret x)" "only_files (throw e)" "only_files (of_sum y)" "only_files (gets g)"
  "only_files m \<Longrightarrow> only_files (attempt m)" "only_files m \<Longrightarrow> only_files (map_err h m)"
  by (simp_all add: only_files_preserves preserves_intros)

lemma only_files_Pair: "only_files (Pair r)"
  by (simp add: only_files_def)

lemma only_files_bind: "only_files m \<Longrightarrow> (\<And>a. only_files (k a)) \<Longrightarrow> only_files (sbind m k)"
  by (simp add: only_files_preserves preserves_sbind)

lemma only_files_cases:
  "(\<And>e. only_files (f e)) \<Longrightarrow> (\<And>a. only_files (g a)) \<Longrightarrow> only_files (case r of Inl e \<Rightarrow> f e | Inr a \<Rightarrow> g a)"
  "only_files m \<Longrightarrow> (\<And>a. only_files (h a)) \<Longrightarrow> only_files (case x of None \<Rightarrow> m | Some a \<Rightarrow> h a)"
  "only_files m \<Longrightarrow> only_files m' \<Longrightarrow> only_files (if b then m else m')"
  by (auto split: sum.split option.split)

lemmas only_files_rules = only_files_structure only_files_Pair only_files_bind only_files_cases only_files_change only_files_query

lemma only_files_calls: "only_files (os_mkdir_all p)" "only_files (os_create p)" "only_files (f_write p b)"
  "only_files f_close" "only_files (os_remove p)" "only_files (os_read_dir p)" "only_files (os_remove_all p)"
  by (simp_all add: os_defs os_read_dir_def os_remove_all_def only_files_rules)

lemma only_files_write: "only_files (writeKeyFiles text dir kvs)"
proof -
  have "only_files (remove_stale dir keep es)" for keep es
    by (induction es) (auto intro!: only_files_rules only_files_calls)
  moreover have "only_files (write_keys text dir fs)" for fs
    by (induction fs)
      (auto simp: os_write_file_def intro!: only_files_rules only_files_calls)
  ultimately show ?thesis
    unfolding writeKeyFiles_def ensureDir_def by (intro only_files_rules only_files_calls)
qed

lemma only_files_projection: "only_files (projectVolumes text kube pod c volumeRoot)"
proof -
  have "only_files (materialiseConfigMap text kube pod vol name opt volumeRoot)"
    and "only_files (materialiseSecret text kube pod vol name opt volumeRoot)" for vol name opt
    unfolding materialiseConfigMap_def materialiseSecret_def ensureDir_def
    by (intro only_files_rules only_files_calls only_files_write)+
  then have "only_files (project_mounts text kube pod volumeRoot vms)" for vms
    by (induction vms) (auto split: option.split volume_source.split intro!: only_files_rules)
  then show ?thesis by (simp add: projectVolumes_def)
qed

lemma only_files_specs: "only_files (ContainerSpecsFromPod text kube pod volumeRoot)"
proof -
  have "only_files (container_inputs text kube pod volumeRoot c)" for c
    unfolding container_inputs_def by (intro only_files_rules only_files_projection)
  then have "only_files (specs_loop text kube pod volumeRoot sandbox first cs)" for sandbox first cs
    by (induction cs arbitrary: first) (auto intro!: only_files_rules)
  then show ?thesis
    by (auto simp: ContainerSpecsFromPod_def only_files_rules simp del: specs_loop.simps split: list.split)
qed

lemma rstate_more:
  "fs_state.more (t :: ('d, 'k, 'q) rstate) = fs_state.more s \<Longrightarrow>
     st_docker t = st_docker s \<and> st_kube t = st_kube s \<and> st_queue t = st_queue s \<and>
     st_failed t = st_failed s \<and> st_seq t = st_seq s"
  by (cases s; cases t) simp

lemma specs_frame:
  fixes s :: "('d, 'k, 'q) rstate"
  assumes "ContainerSpecsFromPod text kube pod volumeRoot s = (r, t)"
  shows "st_docker t = st_docker s \<and> st_kube t = st_kube s \<and> st_queue t = st_queue s \<and>
     st_failed t = st_failed s \<and> st_seq t = st_seq s"
proof (rule rstate_more)
  have "only_files (ContainerSpecsFromPod text kube pod volumeRoot :: (('d, 'k, 'q) rstate, string, container_spec list) sem)"
    by (rule only_files_specs)
  then have "fs_state.more (snd (ContainerSpecsFromPod text kube pod volumeRoot s)) = fs_state.more s"
    by (simp add: only_files_def)
  with assms show "fs_state.more t = fs_state.more s" by simp
qed

text \<open>The specifications name the containers of the pod, in order.\<close>

lemma specs_names:
  assumes "ContainerSpecsFromPod text kube pod volumeRoot s = (Inr specs, t)"
  shows "map ContainerNm specs = map c_name (p_containers pod) \<and> (\<forall>spec \<in> set specs. uid_label (Labels spec) = p_uid pod)"
proof -
  obtain sandbox where "specs_loop text kube pod volumeRoot sandbox True (p_containers pod) s = (Inr specs, t)"
    using assms by (auto simp: ContainerSpecsFromPod_def split: list.splits)
  from specs_loop_Inr [OF this] have len: "length specs = length (p_containers pod)"
    and nth: "\<And>i. i < length specs \<Longrightarrow>
      \<exists>inputs. specs ! i = make_spec pod sandbox (i = 0) (p_containers pod ! i) inputs" by auto
  have "ContainerNm (specs ! i) = c_name (p_containers pod ! i) \<and> uid_label (Labels (specs ! i)) = p_uid pod"
    if "i < length specs" for i
    using nth [OF that] by (auto simp: make_spec_def uid_label_def PodLabelsFor_def)
  with len show ?thesis by (auto intro: nth_equalityI simp: in_set_conv_nth)
qed

section \<open>Steps\<close>

lemma on_docker_run:
  "on_docker m s = (r, t) \<longleftrightarrow> (\<exists>d. m (st_docker s) = (r, d) \<and> t = s\<lparr>st_docker := d\<rparr>)"
  by (auto simp: on_docker_def split: prod.split)

lemma on_kube_run:
  "on_kube m s = (r, t) \<longleftrightarrow> (\<exists>k. m (st_kube s) = (r, k) \<and> t = s\<lparr>st_kube := k\<rparr>)"
  by (auto simp: on_kube_def split: prod.split)

lemma Event_run:
  assumes "Event R pod eventType reason message s = (r, t)"
  shows "r = Inr () \<and> (\<exists>k. t = s\<lparr>st_seq := st_seq s + 1, st_kube := k\<rparr>)"
  using assms by (auto simp: Event_def Let_def sbind_def attempt_def on_kube_def split: prod.splits)

lemma patchStatus_run:
  assumes "patchStatus R pod status s = (r, t)"
  shows "\<exists>x k. ka_patchStatus (rc_kube R) (p_namespace pod) (p_name pod) status (st_kube s) = (x, k) \<and>
    t = s\<lparr>st_kube := k\<rparr> \<and>
    r = (case x of Inl (OtherError m) \<Rightarrow> Inl m | _ \<Rightarrow> Inr ())"
  using assms
  by (auto simp: patchStatus_def sbind_def attempt_def on_kube_def split: prod.splits sum.splits get_error.splits)

lemma markFailedOnce_run:
  assumes "markFailedOnce R pod msg s = (r, t)"
  shows "\<exists>k F. t = s\<lparr>st_kube := k, st_failed := F\<rparr> \<and> (r = Inr () \<longrightarrow> F (p_uid pod) = Some msg)"
proof (cases "st_failed s (p_uid pod) = Some msg")
  case True
  with assms have "t = s\<lparr>st_kube := st_kube s, st_failed := st_failed s\<rparr>" by (simp add: markFailedOnce_def)
  with True show ?thesis by blast
next
  case False
  obtain r1 u where p: "patchStatus R pod (FailedPodStatus msg) s = (r1, u)" by fastforce
  from patchStatus_run [OF p] obtain k where u: "u = s\<lparr>st_kube := k\<rparr>" by blast
  show ?thesis
  proof (cases r1)
    case (Inl e)
    with assms False p have "t = u" "r = Inl e" by (simp_all add: markFailedOnce_def)
    moreover have "u = s\<lparr>st_kube := k, st_failed := st_failed s\<rparr>" using u by simp
    ultimately have "t = s\<lparr>st_kube := k, st_failed := st_failed s\<rparr>" "r = Inl e" by blast+
    then show ?thesis by blast
  next
    case (Inr x)
    with assms False p u have "t = s\<lparr>st_kube := k, st_failed := (st_failed s)(p_uid pod \<mapsto> msg)\<rparr>"
      by (simp add: markFailedOnce_def)
    then show ?thesis by (metis fun_upd_same)
  qed
qed

lemma preserves_on_docker: "(\<And>s. P s \<Longrightarrow> P (s\<lparr>st_docker := snd (m (st_docker s))\<rparr>)) \<Longrightarrow> preserves P (on_docker m)"
  by (simp add: preserves_def on_docker_def split_beta)

text \<open>Events, status patches and failure marks do not touch the daemon.\<close>

lemma preserves_quiet:
  assumes "\<And>s k F i. P (s\<lparr>st_seq := i, st_kube := k, st_failed := F\<rparr>) = P s"
  shows "preserves P (Event R pod eventType reason message)" and "preserves P (patchStatus R pod status)"
    and "preserves P (markFailedOnce R pod msg)"
proof -
  have upd: "P (s\<lparr>st_seq := i, st_kube := k\<rparr>) = P s" "P (s\<lparr>st_kube := k\<rparr>) = P s" "P (s\<lparr>st_kube := k, st_failed := F\<rparr>) = P s"
    for s i k F
    using assms [of "st_failed s" k i s] assms [of "st_failed s" k "st_seq s" s] assms [of F k "st_seq s" s] by simp_all
  show "preserves P (Event R pod eventType reason message)"
  proof (rule preservesI)
    fix s
    assume "P s"
    then show "P (snd (Event R pod eventType reason message s))"
      using Event_run [OF prod.collapse [symmetric], of R pod eventType reason message s] by (auto simp: upd(1))
  qed
  show "preserves P (patchStatus R pod status)"
  proof (rule preservesI)
    fix s
    assume "P s"
    then show "P (snd (patchStatus R pod status s))"
      using patchStatus_run [OF prod.collapse [symmetric], of R pod status s] by (auto simp: upd(2))
  qed
  show "preserves P (markFailedOnce R pod msg)"
  proof (rule preservesI)
    fix s
    assume "P s"
    then show "P (snd (markFailedOnce R pod msg s))"
      using markFailedOnce_run [OF prod.collapse [symmetric], of R pod msg s] by (auto simp: upd(3))
  qed
qed

section \<open>The kubelet on a runtime that keeps its contract\<close>

locale kubelet = container_runtime "rc_docker R" boxes
  for R :: "('d, 'k, 'q) reconciler" and boxes :: "'d \<Rightarrow> string \<Rightarrow> (string \<times> container_view) option"
begin

text \<open>The containers in \<open>K\<close> are as in \<open>X\<close>.\<close>

definition holds :: "string set \<Rightarrow> (string \<Rightarrow> (string \<times> container_view) option) \<Rightarrow> ('d, 'k, 'q) rstate \<Rightarrow> bool" where
  "holds K X s \<longleftrightarrow> (\<forall>m \<in> K. boxes (st_docker s) m = X m)"

lemma holds_quiet: "holds K X (s\<lparr>st_seq := i, st_kube := k, st_failed := F\<rparr>) = holds K X s"
  by (simp add: holds_def)

lemmas quiet_holds = preserves_quiet [of "holds K X" for K X, OF holds_quiet]

lemma inspect_run:
  "rt_Inspect (rc_docker R) n d = (Inr x, d') \<Longrightarrow> d' = d \<and> x = map_option snd (boxes d n)"
  "rt_Inspect (rc_docker R) n d = (Inl e, d') \<Longrightarrow> d' = d"
  using inspect_sees by blast+

lemma holds_inspect: "preserves (holds K X) (on_docker (rt_Inspect (rc_docker R) n))"
  using inspect_sees [OF prod.collapse [symmetric]] by (intro preserves_on_docker) (simp add: holds_def)

lemma holds_pull: "preserves (holds K X) (on_docker (rt_EnsurePulled (rc_docker R) ref policy))"
  using pull_keeps [OF prod.collapse [symmetric]] by (intro preserves_on_docker) (simp add: holds_def)

lemma holds_create: "n \<notin> K \<Longrightarrow> preserves (holds K X) (on_docker (rt_CreateAndStart (rc_docker R) n spec))"
proof (intro preserves_on_docker)
  fix s :: "('d, 'k, 'q) rstate"
  assume "n \<notin> K" and s: "holds K X s"
  obtain r d where run: "rt_CreateAndStart (rc_docker R) n spec (st_docker s) = (r, d)" by fastforce
  have "boxes d m = boxes (st_docker s) m" if "m \<in> K" for m
  proof (cases r)
    case (Inl e)
    with create_fails [of n spec "st_docker s" e d m] run that \<open>n \<notin> K\<close> show ?thesis by auto
  next
    case (Inr i)
    with create_adds [of n spec "st_docker s" i d] run that \<open>n \<notin> K\<close> show ?thesis by auto
  qed
  with s run show "holds K X (s\<lparr>st_docker := snd (rt_CreateAndStart (rc_docker R) n spec (st_docker s))\<rparr>)"
    by (simp add: holds_def)
qed

lemma holds_stop: "n \<notin> K \<Longrightarrow> preserves (holds K X) (on_docker (rt_Stop (rc_docker R) n g))"
proof (intro preserves_on_docker)
  fix s :: "('d, 'k, 'q) rstate"
  assume "n \<notin> K" and s: "holds K X s"
  obtain r d where run: "rt_Stop (rc_docker R) n g (st_docker s) = (r, d)" by fastforce
  from stop_keeps [OF run] have "\<forall>m. m \<noteq> n \<longrightarrow> boxes d m = boxes (st_docker s) m" by blast
  with s run \<open>n \<notin> K\<close> show "holds K X (s\<lparr>st_docker := snd (rt_Stop (rc_docker R) n g (st_docker s))\<rparr>)"
    by (auto simp: holds_def)
qed

lemma holds_remove: "n \<notin> K \<Longrightarrow> preserves (holds K X) (on_docker (rt_Remove (rc_docker R) n))"
proof (intro preserves_on_docker)
  fix s :: "('d, 'k, 'q) rstate"
  assume "n \<notin> K" and s: "holds K X s"
  obtain r d where run: "rt_Remove (rc_docker R) n (st_docker s) = (r, d)" by fastforce
  have "boxes d m = boxes (st_docker s) m" if "m \<in> K" for m
    using run that \<open>n \<notin> K\<close> remove_removes [of n "st_docker s" d] remove_fails [of n "st_docker s" _ d]
    by (cases r) auto
  with s run show "holds K X (s\<lparr>st_docker := snd (rt_Remove (rc_docker R) n (st_docker s))\<rparr>)"
    by (simp add: holds_def)
qed

lemma holds_start: "n \<notin> K \<Longrightarrow> preserves (holds K X) (start_container R pod n spec)"
  unfolding start_container_def
  by (intro preserves_intros quiet_holds holds_inspect holds_pull holds_create) assumption+

text \<open>After a start that went through, the container is there.\<close>

lemma started:
  assumes "start_container R pod n spec s = (Inr (Inr v), t)"
  shows "\<exists>w. boxes (st_docker t) n = Some (uid_label (Labels spec), w)"
proof -
  from assms obtain s1 s2 s3 s4 i x where
    create: "on_docker (rt_CreateAndStart (rc_docker R) n spec) s1 = (Inr i, s2)"
    and ev: "Event R pod ''Normal'' ''Created'' (''Created container: '' @ ContainerNm spec) s2 = (Inr (), s3)"
      "Event R pod ''Normal'' ''Started'' (''Started container '' @ ContainerNm spec) s3 = (Inr (), s4)"
    and insp: "on_docker (rt_Inspect (rc_docker R) n) s4 = (Inr x, t)"
    by (auto simp: start_container_def sbind_Inr_iff split: sum.splits)
  from create obtain d where "rt_CreateAndStart (rc_docker R) n spec (st_docker s1) = (Inr i, d)" "st_docker s2 = d"
    by (auto simp: on_docker_run)
  with create_adds [of n spec "st_docker s1" i d]
  have "\<exists>w. boxes (st_docker s2) n = Some (uid_label (Labels spec), w)" by auto
  moreover have "st_docker s4 = st_docker s2" using ev [THEN Event_run] by auto
  moreover have "st_docker t = st_docker s4" using insp inspect_run by (auto simp: on_docker_run)
  ultimately show ?thesis by simp
qed

text \<open>One turn of the loop over the specifications, seen from the container it is about.\<close>

lemma specs_step:
  fixes spec pod
  defines "n \<equiv> ContainerName (p_uid pod) (ContainerNm spec)"
  assumes "reconcile_specs R pod views (spec # specs) s = (r, t)"
  obtains (inspect_error) e where "r = Inl e" and "t = s"
  | (exists) u v where "boxes (st_docker s) n = Some (u, v)"
      and "reconcile_specs R pod (AList.update (ContainerNm spec) v views) specs s = (r, t)"
  | (start_error) e where "boxes (st_docker s) n = None" and "start_container R pod n spec s = (Inl e, t)" and "r = Inl e"
  | (failed) msg u where "boxes (st_docker s) n = None" and "start_container R pod n spec s = (Inr (Inl msg), u)"
      and "markFailedOnce R pod msg u = (r, t)"
  | (starts) v u where "boxes (st_docker s) n = None" and "start_container R pod n spec s = (Inr (Inr v), u)"
      and "reconcile_specs R pod (AList.update (ContainerNm spec) v views) specs u = (r, t)"
proof -
  obtain x d where insp: "rt_Inspect (rc_docker R) n (st_docker s) = (x, d)" by fastforce
  show thesis
  proof (cases x)
    case (Inl e)
    with insp inspect_run(2) have "d = st_docker s" by blast
    with Inl insp assms(2) inspect_error show thesis
      by (auto simp: Let_def n_def [symmetric] sbind_def map_err_def on_docker_def)
  next
    case (Inr y)
    with insp inspect_run(1) have d: "d = st_docker s" and y: "y = map_option snd (boxes (st_docker s) n)" by blast+
    have od: "on_docker (rt_Inspect (rc_docker R) n) s = (Inr y, s)"
      using insp Inr d by (simp add: on_docker_def)
    show thesis
    proof (cases "boxes (st_docker s) n")
      case (Some b)
      with od y assms(2) exists [of "fst b" "snd b"] show thesis
        by (simp add: Let_def n_def [symmetric] sbind_def map_err_def)
    next
      case None
      obtain z u where st: "start_container R pod n spec s = (z, u)" by fastforce
      with None od y assms(2) have run: "(case z of Inl e \<Rightarrow> (Inl e, u) | Inr q \<Rightarrow> (case q of
          Inl msg \<Rightarrow> markFailedOnce R pod msg
        | Inr v \<Rightarrow> reconcile_specs R pod (AList.update (ContainerNm spec) v views) specs) u) = (r, t)"
        by (simp add: Let_def n_def [symmetric] sbind_def map_err_def split: sum.splits)
      show thesis
      proof (cases z)
        case (Inl e)
        with run None st start_error show thesis by auto
      next
        case z: (Inr q)
        with run None st failed starts show thesis by (cases q) auto
      qed
    qed
  qed
qed

lemma specs_safe:
  assumes "reconcile_specs R pod views specs s = (r, t)" and "holds K X s"
    and "\<And>spec. spec \<in> set specs \<Longrightarrow> ContainerName (p_uid pod) (ContainerNm spec) \<in> K \<Longrightarrow>
      X (ContainerName (p_uid pod) (ContainerNm spec)) \<noteq> None"
  shows "holds K X t"
  using assms
proof (induction specs arbitrary: views s)
  case Nil
  with preservesD [OF quiet_holds(2)] show ?case by simp
next
  case (Cons spec specs)
  let ?n = "ContainerName (p_uid pod) (ContainerNm spec)"
  have out: "?n \<notin> K" if "boxes (st_docker s) ?n = None" using that Cons.prems(2,3) by (force simp: holds_def)
  from Cons.prems(1) show ?case
  proof (cases rule: specs_step)
    case (exists u v)
    from Cons.IH [OF exists(2) Cons.prems(2)] Cons.prems(3) show ?thesis by simp
  next
    case (start_error e)
    from preservesD [OF holds_start [OF out [OF start_error(1)]] Cons.prems(2) start_error(2)] show ?thesis .
  next
    case (failed msg u)
    from preservesD [OF holds_start [OF out [OF failed(1)]] Cons.prems(2) failed(2)]
    have "holds K X u" .
    from preservesD [OF quiet_holds(3) this failed(3)] show ?thesis .
  next
    case (starts v u)
    from preservesD [OF holds_start [OF out [OF starts(1)]] Cons.prems(2) starts(2)]
    have "holds K X u" .
    from Cons.IH [OF starts(3) this] Cons.prems(3) show ?thesis by simp
  qed (use Cons.prems(2) in simp)
qed

lemma specs_complete:
  assumes "reconcile_specs R pod views specs s = (Inr (), t)"
  shows "(\<forall>spec \<in> set specs. boxes (st_docker t) (ContainerName (p_uid pod) (ContainerNm spec)) \<noteq> None) \<or>
    (\<exists>msg. st_failed t (p_uid pod) = Some msg)"
  using assms
proof (induction specs arbitrary: views s)
  case (Cons spec specs)
  let ?n = "ContainerName (p_uid pod) (ContainerNm spec)"
  have carry: "boxes (st_docker t) ?n \<noteq> None"
    if "reconcile_specs R pod vs specs u = (Inr (), t)" and "boxes (st_docker u) ?n \<noteq> None" for vs u
    using specs_safe [OF that(1), of "{?n}" "boxes (st_docker u)"] that(2) by (auto simp: holds_def)
  from Cons.prems show ?case
  proof (cases rule: specs_step)
    case (exists u v)
    with Cons.IH [OF exists(2)] carry [OF exists(2)] show ?thesis by auto
  next
    case (failed msg u)
    with markFailedOnce_run [OF failed(3)] show ?thesis by auto
  next
    case (starts v u)
    with Cons.IH [OF starts(3)] carry [OF starts(3)] started [OF starts(2)] show ?thesis by auto
  qed simp_all
qed simp

text \<open>Where every container exists, the loop only inspects.\<close>

lemma specs_idle:
  assumes "reconcile_specs R pod views specs s = (Inr (), t)"
    and "\<And>spec. spec \<in> set specs \<Longrightarrow> boxes (st_docker s) (ContainerName (p_uid pod) (ContainerNm spec)) \<noteq> None"
  shows "\<exists>views'. patchStatus R pod (PodStatusFromViews (rc_now R) pod views') s = (Inr (), t) \<and>
    (\<forall>c. map_of views' c = (if c \<in> ContainerNm ` set specs
                            then map_option snd (boxes (st_docker s) (ContainerName (p_uid pod) c))
                            else map_of views c))"
  using assms
proof (induction specs arbitrary: views)
  case (Cons spec specs)
  from Cons.prems(1) show ?case
  proof (cases rule: specs_step)
    case (exists u v)
    from Cons.IH [OF exists(2)] Cons.prems(2) obtain views' where
      "patchStatus R pod (PodStatusFromViews (rc_now R) pod views') s = (Inr (), t)"
      "\<And>c. map_of views' c = (if c \<in> ContainerNm ` set specs
          then map_option snd (boxes (st_docker s) (ContainerName (p_uid pod) c))
          else map_of (AList.update (ContainerNm spec) v views) c)" by auto
    with exists(1) show ?thesis by (intro exI [of _ views']) (auto simp: map_of_update)
  qed (use Cons.prems(2) in auto)
qed auto

text \<open>Stopping and removing by name.\<close>

lemma holds_files: "only_files m \<Longrightarrow> preserves (holds K X) m"
proof (rule preservesI)
  fix s
  assume "only_files m" and "holds K X s"
  moreover from this(1) have "st_docker (snd (m s)) = st_docker s"
    using rstate_more [of "snd (m s)" s] by (simp add: only_files_def)
  ultimately show "holds K X (snd (m s))" by (simp add: holds_def)
qed

lemma holds_volumes: "preserves (holds K X) (remove_volumes R uid)"
  unfolding remove_volumes_def
  by (intro preserves_intros holds_files only_files_calls)

lemma holds_reap: "set names \<inter> K = {} \<Longrightarrow> preserves (holds K X) (reap_names R names)"
  by (induction names) (auto intro!: preserves_intros holds_stop holds_remove simp: preserves_basic)

lemma holds_orphans: "set names \<inter> K = {} \<Longrightarrow> preserves (holds K X) (orphan_names R names)"
  by (induction names) (auto intro!: preserves_intros holds_stop holds_remove simp: preserves_basic)

lemma holds_stop_all: "set names \<inter> K = {} \<Longrightarrow> preserves (holds K X) (stop_all R pod grace names)"
  by (induction names)
    (auto intro!: preserves_intros quiet_holds holds_stop holds_inspect simp: preserves_basic)

lemma removed:
  assumes "on_docker (rt_Remove (rc_docker R) n) s = (Inr (), t)"
  shows "boxes (st_docker t) n = None"
  using assms remove_removes by (auto simp: on_docker_run)

lemma reaped:
  assumes "reap_names R names s = (Inr (), t)"
  shows "\<forall>n \<in> set names. boxes (st_docker t) n = None"
  using assms
proof (induction names arbitrary: s)
  case (Cons n names)
  then obtain s1 s2 where rm: "on_docker (rt_Remove (rc_docker R) n) s1 = (Inr (), s2)"
    and rest: "reap_names R names s2 = (Inr (), t)" by (auto simp: sbind_Inr_iff)
  from removed [OF rm] have "holds {n} (\<lambda>_. None) s2" by (simp add: holds_def)
  with preservesD [OF holds_reap _ rest, of "{n}" "\<lambda>_. None"] Cons.IH [OF rest] show ?case
    by (cases "n \<in> set names") (auto simp: holds_def)
qed simp

lemma orphans_removed:
  assumes "orphan_names R names s = (r, t)" and "\<And>n d. fst (rt_Remove (rc_docker R) n d) = Inr ()"
  shows "\<forall>n \<in> set names. boxes (st_docker t) n = None"
  using assms(1)
proof (induction names arbitrary: s)
  case (Cons n names)
  obtain y s1 where st: "on_docker (rt_Stop (rc_docker R) n 10000000000) s = (y, s1)" by fastforce
  obtain x s2 where rm: "on_docker (rt_Remove (rc_docker R) n) s1 = (x, s2)" by fastforce
  from Cons.prems st rm have rest: "orphan_names R names s2 = (r, t)" by (simp add: sbind_def attempt_def)
  from rm have "x = Inr ()" using assms(2) [of n "st_docker s1"] by (auto simp: on_docker_run)
  with removed rm have "holds {n} (\<lambda>_. None) s2" by (simp add: holds_def)
  with preservesD [OF holds_orphans _ rest, of "{n}" "\<lambda>_. None"] Cons.IH [OF rest] show ?case
    by (cases "n \<in> set names") (auto simp: holds_def)
qed simp

definition at_rest :: "string \<Rightarrow> 'd \<Rightarrow> bool" where
  "at_rest n d \<longleftrightarrow> (\<forall>u v. boxes d n = Some (u, v) \<longrightarrow> \<not> cv_running v)"

lemma stopped:
  assumes "stop_all R pod grace names s = (Inr (), t)" and "\<And>n g d. fst (rt_Stop (rc_docker R) n g d) = Inr ()"
  shows "\<forall>n \<in> set names. at_rest n (st_docker t)"
  using assms(1)
proof (induction names arbitrary: s)
  case (Cons n names)
  then obtain x s1 s2 where insp: "on_docker (rt_Inspect (rc_docker R) n) s = (Inr x, s1)"
    and act: "(case x of None \<Rightarrow> ret () | Some _ \<Rightarrow>
        sbind (Event R pod ''Normal'' ''Killing'' (''Stopping container '' @ n @ '' (grace='' @ duration_text grace @ '')'')) (\<lambda>_.
        sbind (attempt (on_docker (rt_Stop (rc_docker R) n grace))) (\<lambda>_. ret ()))) s1 = (Inr (), s2)"
    and rest: "stop_all R pod grace names s2 = (Inr (), t)" by (auto simp: sbind_Inr_iff)
  from insp have d: "st_docker s1 = st_docker s" "x = map_option snd (boxes (st_docker s) n)"
    using inspect_run(1) by (auto simp: on_docker_run)
  have "at_rest n (st_docker s2)"
  proof (cases x)
    case None
    with act d show ?thesis by (simp add: at_rest_def)
  next
    case (Some v)
    with act obtain s3 y where "on_docker (rt_Stop (rc_docker R) n grace) s3 = (y, s2)"
      by (auto simp: sbind_Inr_iff)
    with assms(2) [of n grace "st_docker s3"] stop_stops [of n grace "st_docker s3"] show ?thesis
      by (auto simp: on_docker_run at_rest_def)
  qed
  moreover have "boxes (st_docker t) n = boxes (st_docker s2) n" if "n \<notin> set names"
    using preservesD [OF holds_stop_all _ rest, of "{n}" "boxes (st_docker s2)"] that by (simp add: holds_def)
  ultimately show ?case using Cons.IH [OF rest] by (cases "n \<in> set names") (auto simp: at_rest_def)
qed simp

text \<open>The names of a pod's containers, from the labels.\<close>

lemma names_by_label:
  assumes "containerNamesByLabel R uid s = (r, t)" and "uid \<noteq> []"
  shows "\<exists>names. r = Inr names \<and> t = s \<and>
    (set names = {n. \<exists>v. boxes (st_docker s) n = Some (uid, v)} \<or>
     names = [] \<and> (\<exists>e d. rt_ListManagedContainers (rc_docker R) (st_docker s) = (Inl e, d)))"
proof -
  obtain x d where run: "rt_ListManagedContainers (rc_docker R) (st_docker s) = (x, d)" by fastforce
  from list_lists [OF run] have d: "d = st_docker s" by simp
  then have od: "on_docker (rt_ListManagedContainers (rc_docker R)) s = (x, s)" using run by (simp add: on_docker_def)
  show ?thesis
  proof (cases x)
    case (Inl e)
    with assms(1) od run show ?thesis by (auto simp: containerNamesByLabel_def sbind_def attempt_def)
  next
    case (Inr ms)
    with list_lists [OF run] have ms: "(\<lambda>m. (mc_UID m, mc_DockerName m)) ` set ms =
        {(u, n). u \<noteq> [] \<and> (\<exists>v. boxes (st_docker s) n = Some (u, v))}" by simp
    have "n \<in> mc_DockerName ` {m \<in> set ms. mc_UID m = uid} \<longleftrightarrow>
        (uid, n) \<in> (\<lambda>m. (mc_UID m, mc_DockerName m)) ` set ms" for n by auto
    then have "mc_DockerName ` {m \<in> set ms. mc_UID m = uid} = {n. \<exists>v. boxes (st_docker s) n = Some (uid, v)}"
      unfolding ms using assms(2) by auto
    with Inr assms(1) od show ?thesis by (auto simp: containerNamesByLabel_def sbind_def attempt_def)
  qed
qed

lemma reap_uid_safe:
  assumes "reapByUID R uid s = (r, t)" and "uid \<noteq> []" and "\<And>v. boxes (st_docker s) n \<noteq> Some (uid, v)"
  shows "boxes (st_docker t) n = boxes (st_docker s) n"
proof -
  obtain x u where names: "containerNamesByLabel R uid s = (x, u)" by fastforce
  from names_by_label [OF names assms(2)] obtain ns where ns: "x = Inr ns" "u = s"
    "set ns \<subseteq> {n. \<exists>v. boxes (st_docker s) n = Some (uid, v)}" by auto
  then have "set (rev ns) \<inter> {n} = {}" using assms(3) by auto
  then have keep: "preserves (holds {n} (boxes (st_docker s)))
      (if length ns = 0 then ret () else sbind (reap_names R (rev ns)) (\<lambda>_. remove_volumes R uid))"
    by (intro preserves_intros holds_reap holds_volumes)
  have "(if length ns = 0 then ret () else sbind (reap_names R (rev ns)) (\<lambda>_. remove_volumes R uid)) s = (r, t)"
    using assms(1) names ns by (simp add: reapByUID_def)
  from preservesD [OF keep _ this] have "holds {n} (boxes (st_docker s)) t" by (simp add: holds_def)
  then show ?thesis by (simp add: holds_def)
qed

lemma reap_uid_complete:
  assumes "reapByUID R uid s = (Inr (), t)" and "uid \<noteq> []"
    and "\<nexists>e d. rt_ListManagedContainers (rc_docker R) (st_docker s) = (Inl e, d)"
  shows "boxes (st_docker t) n \<noteq> Some (uid, v)"
proof (cases "\<exists>w. boxes (st_docker s) n = Some (uid, w)")
  case False
  with reap_uid_safe [OF assms(1,2), of n] show ?thesis by auto
next
  case True
  obtain x u where names: "containerNamesByLabel R uid s = (x, u)" by fastforce
  from names_by_label [OF names assms(2)] assms(3) obtain ns where ns: "x = Inr ns" "u = s"
    "set ns = {n. \<exists>v. boxes (st_docker s) n = Some (uid, v)}" by auto
  then have mem: "n \<in> set ns" using True by simp
  then have "ns \<noteq> []" by auto
  with assms(1) names ns(1,2) obtain s1 where reap: "reap_names R (rev ns) s = (Inr (), s1)"
    and vol: "remove_volumes R uid s1 = (Inr (), t)" by (auto simp: reapByUID_def sbind_Inr_iff)
  from reaped [OF reap] mem have "holds {n} (\<lambda>_. None) s1" by (simp add: holds_def)
  from preservesD [OF holds_volumes this vol] show ?thesis by (simp add: holds_def)
qed

end

section \<open>Orphans\<close>

lemma add_orphan_set:
  "(\<exists>ns. (u, ns) \<in> set (add_orphan uid name acc) \<and> n \<in> set ns) \<longleftrightarrow>
     (\<exists>ns. (u, ns) \<in> set acc \<and> n \<in> set ns) \<or> (u, n) = (uid, name)"
proof (induction uid name acc rule: add_orphan.induct)
  case (2 uid name v ns rest)
  show ?case
  proof (cases "v = uid")
    case False
    with 2 show ?thesis by auto
  qed auto
qed auto

lemma orphans_set:
  "(\<exists>ns. (u, ns) \<in> set (orphans known managed) \<and> n \<in> set ns) \<longleftrightarrow>
     u \<notin> set known \<and> (u, n) \<in> (\<lambda>m. (mc_UID m, mc_DockerName m)) ` set managed"
proof -
  have "(\<exists>ns. (u, ns) \<in> set (fold (\<lambda>m acc. if mc_UID m \<in> set known then acc
        else add_orphan (mc_UID m) (mc_DockerName m) acc) managed acc) \<and> n \<in> set ns) \<longleftrightarrow>
      (\<exists>ns. (u, ns) \<in> set acc \<and> n \<in> set ns) \<or>
      u \<notin> set known \<and> (u, n) \<in> (\<lambda>m. (mc_UID m, mc_DockerName m)) ` set managed" for acc
  proof (induction managed arbitrary: acc)
    case (Cons m managed)
    show ?case
    proof (cases "mc_UID m \<in> set known")
      case True
      with Cons [of acc] show ?thesis by auto
    next
      case False
      with Cons [of "add_orphan (mc_UID m) (mc_DockerName m) acc"] add_orphan_set [of u "mc_UID m" "mc_DockerName m" acc n]
      show ?thesis by auto
    qed
  qed simp
  from this [of "[]"] show ?thesis by (simp add: orphans_def)
qed

context kubelet
begin

lemma holds_groups:
  "(\<And>uid ns. (uid, ns) \<in> set gs \<Longrightarrow> set ns \<inter> K = {}) \<Longrightarrow> preserves (holds K X) (reap_groups R gs)"
proof (induction gs)
  case (Cons g gs)
  obtain uid ns where "g = (uid, ns)" by fastforce
  moreover from this Cons.prems [of uid ns] have "set ns \<inter> K = {}" by simp
  moreover have "preserves (holds K X) (reap_groups R gs)" using Cons.prems by (intro Cons.IH) auto
  ultimately show ?case by (auto intro!: preserves_intros holds_orphans holds_volumes)
qed (simp add: preserves_def)

lemma groups_removed:
  assumes "reap_groups R gs s = (r, t)" and "\<And>n d. fst (rt_Remove (rc_docker R) n d) = Inr ()"
    and "\<exists>uid ns. (uid, ns) \<in> set gs \<and> n \<in> set ns"
  shows "boxes (st_docker t) n = None"
  using assms(1,3)
proof (induction gs arbitrary: s)
  case (Cons g gs)
  obtain uid' ns' where g: "g = (uid', ns')" by fastforce
  have "fst (orphan_names R ms s) = Inr ()" for ms s
    by (induction ms arbitrary: s) (auto simp: sbind_def attempt_def split: prod.splits)
  moreover have "fst (remove_volumes R uid' s) = Inr ()" for s
    by (auto simp: remove_volumes_def sbind_def attempt_def split: prod.splits)
  ultimately obtain s1 s2 where run12: "orphan_names R ns' s = (Inr (), s1)" "remove_volumes R uid' s1 = (Inr (), s2)"
    by (metis prod.collapse)
  with Cons.prems(1) g have run: "orphan_names R ns' s = (Inr (), s1)" "remove_volumes R uid' s1 = (Inr (), s2)"
    "reap_groups R gs s2 = (r, t)" by simp_all
  show ?case
  proof (cases "\<exists>u ms. (u, ms) \<in> set gs \<and> n \<in> set ms")
    case True
    with Cons.IH run(3) show ?thesis by blast
  next
    case False
    with Cons.prems(2) g have "n \<in> set ns'" by auto
    with orphans_removed [OF run(1) assms(2)] have "holds {n} (\<lambda>_. None) s1" by (simp add: holds_def)
    then have "holds {n} (\<lambda>_. None) s2" using preservesD [OF holds_volumes _ run(2)] by blast
    moreover have "preserves (holds {n} (\<lambda>_. None)) (reap_groups R gs)"
      using False by (intro holds_groups) auto
    ultimately have "holds {n} (\<lambda>_. None) t" using run(3) preservesD by metis
    then show ?thesis by (simp add: holds_def)
  qed
qed simp

text \<open>A live pod: the specifications, then the loop.\<close>

lemma pod_run:
  assumes "reconcilePod R pod s = (r, t)" and "p_uid pod \<noteq> []" and "p_deletionTimestamp pod = None"
  obtains (failed) msg u where "st_docker u = st_docker s" and "markFailedOnce R pod msg u = (r, t)"
  | (specs) specs u where "st_docker u = st_docker s" and "st_failed u = st_failed s" and "st_seq u = st_seq s"
      and "st_kube u = st_kube s"
      and "ContainerNm ` set specs = c_name ` set (p_containers pod)"
      and "reconcile_specs R pod [] specs u = (r, t)"
proof -
  let ?kube = "ka_get (rc_kube R) (st_kube s)"
  obtain x u where run: "ContainerSpecsFromPod (rc_text R) (Some ?kube) pod (rc_volumeRoot R) s = (x, u)" by fastforce
  note frame = specs_frame [OF run]
  show thesis
  proof (cases x)
    case (Inl e)
    with assms run have "markFailedOnce R pod e u = (r, t)" by (simp add: reconcilePod_def sbind_def attempt_def)
    with frame failed show thesis by blast
  next
    case (Inr specs)
    with run have "ContainerSpecsFromPod (rc_text R) (Some ?kube) pod (rc_volumeRoot R) s = (Inr specs, u)" by simp
    from specs_names [OF this] have "map ContainerNm specs = map c_name (p_containers pod)" by blast
    then have "ContainerNm ` set specs = c_name ` set (p_containers pod)" by (metis set_map)
    moreover have "reconcile_specs R pod [] specs u = (r, t)"
      using assms run Inr by (simp add: reconcilePod_def sbind_def attempt_def)
    ultimately show thesis using frame that(2) by blast
  qed
qed

lemma pod_keeps:
  assumes "reconcilePod R pod s = (r, t)" and "p_deletionTimestamp pod = None"
    and "boxes (st_docker s) n \<noteq> None \<or> n \<notin> (\<lambda>c. ContainerName (p_uid pod) (c_name c)) ` set (p_containers pod)"
  shows "boxes (st_docker t) n = boxes (st_docker s) n"
proof (cases "p_uid pod = []")
  case True
  with assms(1) show ?thesis by (simp add: reconcilePod_def)
next
  case False
  from assms(1) False assms(2) show ?thesis
  proof (cases rule: pod_run)
    case (failed msg u)
    with markFailedOnce_run [OF failed(2)] show ?thesis by auto
  next
    case (specs specs u)
    have "ContainerName (p_uid pod) (ContainerNm spec) \<in> (\<lambda>c. ContainerName (p_uid pod) (c_name c)) ` set (p_containers pod)"
      if "spec \<in> set specs" for spec
    proof -
      have "ContainerNm spec \<in> c_name ` set (p_containers pod)" using specs(5) that by blast
      then show ?thesis by auto
    qed
    with assms(3) have "boxes (st_docker s) (ContainerName (p_uid pod) (ContainerNm spec)) \<noteq> None"
      if "spec \<in> set specs" and "ContainerName (p_uid pod) (ContainerNm spec) \<in> {n}" for spec
      using that by blast
    from specs_safe [OF specs(6), of "{n}" "boxes (st_docker s)", OF _ this] specs(1)
    show ?thesis by (simp add: holds_def)
  qed
qed

lemma pod_up:
  assumes "reconcilePod R pod s = (Inr (), t)" and "p_uid pod \<noteq> []" and "p_deletionTimestamp pod = None"
  shows "(\<forall>c \<in> set (p_containers pod). boxes (st_docker t) (ContainerName (p_uid pod) (c_name c)) \<noteq> None) \<or>
    (\<exists>msg. st_failed t (p_uid pod) = Some msg)"
  using assms
proof (cases rule: pod_run)
  case (failed msg u)
  with markFailedOnce_run [OF failed(2)] show ?thesis by auto
next
  case (specs specs u)
  have "\<exists>spec \<in> set specs. c_name c = ContainerNm spec" if "c \<in> set (p_containers pod)" for c
    using specs(5) that by (metis image_eqI image_iff)
  with specs_complete [OF specs(6)] show ?thesis by metis
qed

lemma pod_idle:
  assumes "reconcilePod R pod s = (Inr (), t)" and "p_uid pod \<noteq> []" and "p_deletionTimestamp pod = None"
    and "ContainerSpecsFromPod (rc_text R) (Some (ka_get (rc_kube R) (st_kube s))) pod (rc_volumeRoot R) s = (Inr specs, u)"
    and "\<And>c. c \<in> set (p_containers pod) \<Longrightarrow> boxes (st_docker s) (ContainerName (p_uid pod) (c_name c)) \<noteq> None"
  shows "st_docker t = st_docker s \<and> st_seq t = st_seq s \<and> st_failed t = st_failed s \<and>
    (\<exists>views x. ka_patchStatus (rc_kube R) (p_namespace pod) (p_name pod)
         (PodStatusFromViews (rc_now R) pod views) (st_kube s) = (x, st_kube t) \<and>
       (\<forall>c \<in> set (p_containers pod). map_of views (c_name c) =
          map_option snd (boxes (st_docker s) (ContainerName (p_uid pod) (c_name c)))))"
proof -
  note frame = specs_frame [OF assms(4)]
  from specs_names [OF assms(4)] have names: "ContainerNm ` set specs = c_name ` set (p_containers pod)"
    by (metis set_map)
  have run: "reconcile_specs R pod [] specs u = (Inr (), t)"
    using assms(1-4) by (simp add: reconcilePod_def sbind_def attempt_def)
  have "boxes (st_docker u) (ContainerName (p_uid pod) (ContainerNm spec)) \<noteq> None" if "spec \<in> set specs" for spec
  proof -
    have "ContainerNm spec \<in> c_name ` set (p_containers pod)" using names that by blast
    with assms(5) frame show ?thesis by auto
  qed
  from specs_idle [OF run this] obtain views where
    patch: "patchStatus R pod (PodStatusFromViews (rc_now R) pod views) u = (Inr (), t)"
    and views: "\<And>c. map_of views c = (if c \<in> ContainerNm ` set specs
      then map_option snd (boxes (st_docker u) (ContainerName (p_uid pod) c)) else map_of [] c)" by blast
  from patchStatus_run [OF patch] frame have "st_docker t = st_docker s" "st_seq t = st_seq s" "st_failed t = st_failed s"
    "\<exists>x. ka_patchStatus (rc_kube R) (p_namespace pod) (p_name pod)
         (PodStatusFromViews (rc_now R) pod views) (st_kube s) = (x, st_kube t)" by auto
  moreover have "map_of views (c_name c) = map_option snd (boxes (st_docker s) (ContainerName (p_uid pod) (c_name c)))"
    if "c \<in> set (p_containers pod)" for c
    using views [of "c_name c"] frame names that by simp
  ultimately show ?thesis by blast
qed

lemma terminated:
  assumes "terminatePod R pod s = (Inr (), t)" and "p_containers pod \<noteq> []"
    and "\<And>n g d. fst (rt_Stop (rc_docker R) n g d) = Inr ()"
  shows "(\<forall>c \<in> set (p_containers pod). at_rest (ContainerName (p_uid pod) (c_name c)) (st_docker t)) \<and>
    (\<forall>n. n \<notin> (\<lambda>c. ContainerName (p_uid pod) (c_name c)) ` set (p_containers pod) \<longrightarrow>
       boxes (st_docker t) n = boxes (st_docker s) n) \<and>
    (\<exists>k x. ka_deletePod (rc_kube R) (p_namespace pod) (p_name pod) 0 k = (x, st_kube t) \<and>
       (\<forall>m. x \<noteq> Inl (OtherError m)))"
proof -
  let ?names = "map (\<lambda>c. ContainerName (p_uid pod) (c_name c)) (p_containers pod)"
  let ?grace = "case p_deletionGrace pod of Some s \<Rightarrow> int64 (s * 1000000000) | None \<Rightarrow> 30 * 1000000000"
  obtain y u where run: "stop_all R pod ?grace (rev ?names) s = (y, u)" by fastforce
  with assms(1,2) have stop: "stop_all R pod ?grace (rev ?names) s = (Inr (), u)"
    by (cases y) (simp_all add: terminatePod_def containerNamesForPod_def Let_def sbind_monad)
  obtain x k where call: "ka_deletePod (rc_kube R) (p_namespace pod) (p_name pod) 0 (st_kube u) = (x, k)" by fastforce
  then have del: "sbind (attempt (on_kube (ka_deletePod (rc_kube R) (p_namespace pod) (p_name pod) 0))) f u =
      f x (u\<lparr>st_kube := k\<rparr>)" for f :: "get_error + unit \<Rightarrow> ('d, 'k, 'q, unit) kubelet_op"
    by (simp add: on_kube_def sbind_def attempt_def)
  from assms(1,2) stop del have t: "t = u\<lparr>st_kube := k\<rparr>" and x: "\<forall>m. x \<noteq> Inl (OtherError m)"
    by (auto simp: terminatePod_def containerNamesForPod_def Let_def sbind_monad
        split: sum.splits get_error.splits)
  have "boxes (st_docker u) n = boxes (st_docker s) n" if "n \<notin> set ?names" for n
    using preservesD [OF holds_stop_all _ stop, of "{n}" "boxes (st_docker s)"] that by (simp add: holds_def)
  with t stopped [OF stop assms(3)] call x show ?thesis by auto
qed

lemma orphans_reaped:
  assumes "reapOrphans R s = (Inr (), t)" and "ka_listerList (rc_kube R) (st_kube s) = Inr pods"
  defines "orphan \<equiv> \<lambda>n. \<exists>u v. boxes (st_docker s) n = Some (u, v) \<and> u \<noteq> [] \<and> u \<notin> p_uid ` set pods"
  shows "\<not> orphan n \<Longrightarrow> boxes (st_docker t) n = boxes (st_docker s) n"
    and "orphan n \<Longrightarrow> (\<And>n d. fst (rt_Remove (rc_docker R) n d) = Inr ()) \<Longrightarrow> boxes (st_docker t) n = None"
proof -
  obtain x d where list: "rt_ListManagedContainers (rc_docker R) (st_docker s) = (x, d)" by fastforce
  have od: "on_docker (rt_ListManagedContainers (rc_docker R)) s = (x, s)"
    using list list_lists [OF list] by (simp add: on_docker_def)
  with assms(1) obtain ms where x: "x = Inr ms" by (cases x) (simp_all add: reapOrphans_def)
  with list_lists [OF list] have ms: "(\<lambda>m. (mc_UID m, mc_DockerName m)) ` set ms =
      {(u, n). u \<noteq> [] \<and> (\<exists>v. boxes (st_docker s) n = Some (u, v))}" by simp
  let ?gs = "orphans (map p_uid pods) ms"
  have run: "reap_groups R ?gs s = (Inr (), t)"
    using assms(1,2) od x by (cases "ms = []") (simp_all add: reapOrphans_def orphans_def)
  have mem: "(\<exists>u ns. (u, ns) \<in> set ?gs \<and> n \<in> set ns) \<longleftrightarrow> orphan n" for n
    using orphans_set [of _ "map p_uid pods" ms n] unfolding ms orphan_def by auto
  show "boxes (st_docker t) n = boxes (st_docker s) n" if "\<not> orphan n"
  proof -
    have "preserves (holds {n} (boxes (st_docker s))) (reap_groups R ?gs)"
      using mem [of n] that by (intro holds_groups) auto
    from preservesD [OF this _ run] show ?thesis by (simp add: holds_def)
  qed
  show "boxes (st_docker t) n = None" if "orphan n" and "\<And>n d. fst (rt_Remove (rc_docker R) n d) = Inr ()"
    using groups_removed [OF run that(2)] mem [of n] that(1) by simp
qed

end

end
