(* ===== verification/Url_Query.thy ===== *)
theory Url_Query
  imports Go_Strings "HOL-Library.Multiset"
begin

text \<open>
  The parts of Go's \<open>net/url\<close> that carry log options from the API server to the kubelet: the
  encoding of \<open>url.Values\<close> into a query string and the parsing of a query string, with the escaping
  of both. A \<open>url.Values\<close> is an association list from keys to lists of values. The main lemma is the
  round trip for values with one value per key.
\<close>

type_synonym url_values = "(string \<times> string list) list"

section \<open>Escaping\<close>

definition hex_upper :: "nat \<Rightarrow> char" where
  "hex_upper d = char_of (if d < 10 then 48 + d else 55 + d)"

definition hex_val :: "char \<Rightarrow> nat option" where
  "hex_val c =
     (let n = of_char c :: nat
      in if 48 \<le> n \<and> n \<le> 57 then Some (n - 48)
         else if 97 \<le> n \<and> n \<le> 102 then Some (n - 87)
         else if 65 \<le> n \<and> n \<le> 70 then Some (n - 55)
         else None)"

definition unreserved :: "char \<Rightarrow> bool" where
  "unreserved c \<longleftrightarrow>
     (let n = of_char c :: nat
      in 97 \<le> n \<and> n \<le> 122 \<or> 65 \<le> n \<and> n \<le> 90 \<or> 48 \<le> n \<and> n \<le> 57 \<or> n \<in> {45, 95, 46, 126})"

definition escape_char :: "char \<Rightarrow> string" where
  "escape_char c =
     (if unreserved c then [c]
      else if c = CHR '' '' then ''+''
      else let n = of_char c :: nat in [CHR ''%'', hex_upper (n div 16), hex_upper (n mod 16)])"

definition query_escape :: "string \<Rightarrow> string" where
  "query_escape s = concat (map escape_char s)"

fun query_unescape :: "string \<Rightarrow> string option" where
  "query_unescape [] = Some []"
| "query_unescape (c # cs) =
     (if c = CHR ''%'' then
        (case cs of
           a # b # rest \<Rightarrow>
             (case (hex_val a, hex_val b) of
                (Some x, Some y) \<Rightarrow> map_option (\<lambda>r. char_of (x * 16 + y) # r) (query_unescape rest)
              | _ \<Rightarrow> None)
         | _ \<Rightarrow> None)
      else map_option (\<lambda>r. (if c = CHR ''+'' then CHR '' '' else c) # r) (query_unescape cs))"

section \<open>Values\<close>

text \<open>\<open>Values.Encode\<close>: keys in sorted order, every value as \<open>key=value\<close>.\<close>

definition encode_pair :: "string \<Rightarrow> string \<Rightarrow> string" where
  "encode_pair k v = query_escape k @ CHR ''='' # query_escape v"

definition values_encode :: "url_values \<Rightarrow> string" where
  "values_encode vs =
     join_on (CHR ''&'')
       (concat (map (\<lambda>k. map (encode_pair k) (the (map_of vs k))) (sort (map fst vs))))"

text \<open>\<open>URL.Query\<close>: what does not parse is dropped; values of the same key accumulate.\<close>

definition cut_at :: "char \<Rightarrow> string \<Rightarrow> string \<times> string" where
  "cut_at c s = (takeWhile (\<lambda>x. x \<noteq> c) s, drop 1 (dropWhile (\<lambda>x. x \<noteq> c) s))"

fun add_value :: "string \<Rightarrow> string \<Rightarrow> url_values \<Rightarrow> url_values" where
  "add_value k v [] = [(k, [v])]"
| "add_value k v ((l, ws) # vs) = (if k = l then (l, ws @ [v]) # vs else (l, ws) # add_value k v vs)"

definition query_step :: "string \<Rightarrow> url_values \<Rightarrow> url_values" where
  "query_step piece vs =
     (if CHR '';'' \<in> set piece \<or> piece = [] then vs
      else case cut_at (CHR ''='') piece of (k, v) \<Rightarrow>
        (case (query_unescape k, query_unescape v) of
           (Some k', Some v') \<Rightarrow> add_value k' v' vs
         | _ \<Rightarrow> vs))"

definition parse_query :: "string \<Rightarrow> url_values" where
  "parse_query s = fold query_step (split_on (CHR ''&'') s) []"

section \<open>The round trip\<close>

lemma hex_val_upper: "d < 16 \<Longrightarrow> hex_val (hex_upper d) = Some d"
  by (simp add: hex_val_def hex_upper_def of_char_of Let_def)

lemma unreserved_hex: "d < 16 \<Longrightarrow> unreserved (hex_upper d)"
  by (simp add: unreserved_def hex_upper_def of_char_of Let_def)

lemma of_char_div: "(of_char c :: nat) div 16 < 16"
  by (rule less_mult_imp_div_less) simp

lemma escape_chars: "x \<in> set (escape_char c) \<Longrightarrow> unreserved x \<or> x = CHR ''+'' \<or> x = CHR ''%''"
proof -
  have "(of_char c :: nat) div 16 < 16" by (rule of_char_div)
  then show "x \<in> set (escape_char c) \<Longrightarrow> unreserved x \<or> x = CHR ''+'' \<or> x = CHR ''%''"
    by (auto simp: escape_char_def Let_def unreserved_hex split: if_splits)
qed

lemma query_escape_chars:
  "x \<in> set (query_escape s) \<Longrightarrow> x \<noteq> CHR ''&'' \<and> x \<noteq> CHR ''='' \<and> x \<noteq> CHR '';''"
  by (auto simp: query_escape_def dest!: escape_chars simp: unreserved_def)

lemma unescape_char: "query_unescape (escape_char c @ s) = map_option (\<lambda>r. c # r) (query_unescape s)"
proof (cases "unreserved c")
  case True
  then have "c \<noteq> CHR ''%''" "c \<noteq> CHR ''+''" by (auto simp: unreserved_def)
  with True show ?thesis by (simp add: escape_char_def)
next
  case False
  have d: "(of_char c :: nat) div 16 < 16" by (rule of_char_div)
  have n: "16 * ((of_char c :: nat) div 16) + of_char c mod 16 = of_char c"
    using div_mult_mod_eq [of "of_char c :: nat" 16] by simp
  show ?thesis
  proof (cases "c = CHR '' ''")
    case True
    with False show ?thesis by (simp add: escape_char_def)
  next
    case nsp: False
    have "char_of (of_char c div 16 * 16 + of_char c mod 16 :: nat) = c"
      by (simp add: div_mult_mod_eq)
    with False nsp d show ?thesis
      by (simp add: escape_char_def Let_def hex_val_upper)
  qed
qed

lemma query_unescape_escape: "query_unescape (query_escape s) = Some s"
  by (induction s) (simp_all add: query_escape_def unescape_char)

lemma cut_encode_pair: "cut_at (CHR ''='') (encode_pair k v) = (query_escape k, query_escape v)"
proof -
  have "\<forall>x \<in> set (query_escape k). x \<noteq> CHR ''=''" using query_escape_chars by blast
  then show ?thesis by (simp add: cut_at_def encode_pair_def)
qed

lemma query_step_pair: "query_step (encode_pair k v) vs = add_value k v vs"
proof -
  have "CHR '';'' \<notin> set (encode_pair k v)" "encode_pair k v \<noteq> []"
    using query_escape_chars by (auto simp: encode_pair_def)
  then show ?thesis by (simp add: query_step_def cut_encode_pair query_unescape_escape)
qed

lemma add_value_new: "k \<notin> fst ` set vs \<Longrightarrow> add_value k v vs = vs @ [(k, [v])]"
  by (induction k v vs rule: add_value.induct) auto

lemma fold_pairs:
  "distinct (map fst (acc @ vs)) \<Longrightarrow>
    fold query_step (map (\<lambda>(k, v). encode_pair k v) vs) (map (\<lambda>(k, v). (k, [v])) acc) =
      map (\<lambda>(k, v). (k, [v])) (acc @ vs)"
proof (induction vs arbitrary: acc)
  case (Cons kv vs)
  obtain k v where kv: "kv = (k, v)" by fastforce
  with Cons.prems have "k \<notin> fst ` set (map (\<lambda>(k, v). (k, [v])) acc)" by force
  with Cons.IH [of "acc @ [kv]"] Cons.prems kv show ?case
    by (simp add: query_step_pair add_value_new)
qed simp

text \<open>One value per key, sorted by key: the values come back as they were.\<close>

definition single_values :: "(string \<times> string) list \<Rightarrow> url_values" where
  "single_values kvs = map (\<lambda>(k, v). (k, [v])) kvs"

lemma values_encode_single:
  assumes "distinct (map fst kvs)" and "sorted (map fst kvs)"
  shows "values_encode (single_values kvs) = join_on (CHR ''&'') (map (\<lambda>(k, v). encode_pair k v) kvs)"
proof -
  have keys: "map fst (single_values kvs) = map fst kvs" by (auto simp: single_values_def)
  have "map (encode_pair k) (the (map_of (single_values kvs) k)) = [encode_pair k v]"
    if "(k, v) \<in> set kvs" for k v
  proof -
    have "distinct (map fst (single_values kvs))" using assms(1) keys by simp
    moreover have "(k, [v]) \<in> set (single_values kvs)" using that by (force simp: single_values_def)
    ultimately show ?thesis by simp
  qed
  then have "concat (map (\<lambda>k. map (encode_pair k) (the (map_of (single_values kvs) k))) (map fst kvs)) =
      concat (map (\<lambda>(k, v). [encode_pair k v]) kvs)"
    by (intro arg_cong [where f = concat]) auto
  moreover have "concat (map (\<lambda>(k, v). [encode_pair k v]) kvs) = map (\<lambda>(k, v). encode_pair k v) kvs"
    by (induction kvs) auto
  ultimately show ?thesis using assms(2) by (simp add: values_encode_def keys sorted_sort_id)
qed

lemma parse_query_encode:
  assumes "distinct (map fst kvs)" and "sorted (map fst kvs)"
  shows "parse_query (values_encode (single_values kvs)) = single_values kvs"
proof (cases "kvs = []")
  case True
  then show ?thesis by (simp add: values_encode_def single_values_def parse_query_def query_step_def)
next
  case False
  let ?ps = "map (\<lambda>(k, v). encode_pair k v) kvs"
  have "\<forall>p \<in> set ?ps. CHR ''&'' \<notin> set p" using query_escape_chars by (auto simp: encode_pair_def)
  with False have "split_on (CHR ''&'') (join_on (CHR ''&'') ?ps) = ?ps" by (intro split_join) auto
  then show ?thesis
    using fold_pairs [of "[]" kvs] assms
    by (simp add: values_encode_single [OF assms] parse_query_def) (simp add: single_values_def)
qed

text \<open>Whatever the order the values were set in: the parsed values are the same map.\<close>

lemma map_of_single: "map_of (single_values kvs) k = map_option (\<lambda>v. [v]) (map_of kvs k)"
  by (induction kvs) (auto simp: single_values_def)

lemma map_of_sort_key:
  assumes "distinct (map fst kvs)"
  shows "map_of (sort_key fst kvs) = map_of kvs"
proof -
  have "mset (map fst (sort_key fst kvs)) = mset (map fst kvs)" by simp
  then have "distinct (map fst (sort_key fst kvs))" using assms mset_eq_imp_distinct_iff by blast
  with assms show ?thesis by (simp add: map_of_inject_set)
qed

lemma parse_query_values:
  assumes "distinct (map fst kvs)"
  shows "map_of (parse_query (values_encode (single_values kvs))) k = map_option (\<lambda>v. [v]) (map_of kvs k)"
proof -
  let ?s = "sort_key fst kvs"
  have m: "mset (map fst ?s) = mset (map fst kvs)" by simp
  then have d: "distinct (map fst ?s)" using assms mset_eq_imp_distinct_iff by blast
  have "sort (map fst (single_values kvs)) = sort (map fst (single_values ?s))"
    using m by (auto simp: single_values_def split_def comp_def intro: properties_for_sort)
  moreover have "map_of (single_values kvs) = map_of (single_values ?s)"
    using map_of_sort_key [OF assms] by (simp add: fun_eq_iff map_of_single)
  ultimately have "values_encode (single_values kvs) = values_encode (single_values ?s)"
    by (simp add: values_encode_def)
  with parse_query_encode [OF d] map_of_sort_key [OF assms] show ?thesis
    by (simp add: map_of_single sorted_sort_key)
qed

end
