(* ===== verification/Logs.thy ===== *)
theory Logs
  imports Kubelet_Example Url_Query
begin

text \<open>
  \<open>internal/kubelet/logs.go\<close>, the log server of the kubelet, and \<open>internal/apiserver/podlogs.go\<close>, the
  log subresource of the API server that proxies to it. The lister, the HTTP client and the parsing
  of the configured URL are parameters. The lemmas show that the options of a request survive the
  hop between the two processes.
\<close>

section \<open>Options\<close>

text \<open>\<open>strconv.NumError\<close> as text.\<close>

fun num_text :: "num_error \<Rightarrow> string" where
  "num_text NumSyntax = ''invalid syntax''"
| "num_text NumRange = ''value out of range''"

definition option_error :: "string \<Rightarrow> string \<Rightarrow> string \<Rightarrow> num_error \<Rightarrow> string" where
  "option_error k fn v e = k @ '': strconv.'' @ fn @ '': parsing '' @ quote v @ '': '' @ num_text e"

definition q_get :: "url_values \<Rightarrow> string \<Rightarrow> string" where
  "q_get q k = (case map_of q k of Some (v # _) \<Rightarrow> v | _ \<Rightarrow> [])"

text \<open>An option that is absent or empty keeps its value.\<close>

definition bool_option :: "url_values \<Rightarrow> string \<Rightarrow> bool \<Rightarrow> string + bool" where
  "bool_option q k dst =
     (let v = q_get q k
      in if v = [] then Inr dst else map_sum (option_error k ''ParseBool'' v) id (parse_bool v))"

definition int_option :: "url_values \<Rightarrow> string \<Rightarrow> int option \<Rightarrow> string + int option" where
  "int_option q k dst =
     (let v = q_get q k
      in if v = [] then Inr dst else map_sum (option_error k ''ParseInt'' v) Some (parse_int v))"

definition no_options :: log_options where
  "no_options =
     \<lparr>lo_Container = [], lo_Follow = False, lo_Timestamps = False, lo_TailLines = None,
      lo_SinceSeconds = None, lo_LimitBytes = None\<rparr>"

definition parseLogOptions :: "url_values \<Rightarrow> string + log_options" where
  "parseLogOptions q =
     (let out = no_options;
          v = q_get q ''container'';
          out = (if v \<noteq> [] then out\<lparr>lo_Container := v\<rparr> else out)
      in case bool_option q ''follow'' (lo_Follow out) of Inl e \<Rightarrow> Inl e | Inr b \<Rightarrow>
         let out = out\<lparr>lo_Follow := b\<rparr>
      in case bool_option q ''timestamps'' (lo_Timestamps out) of Inl e \<Rightarrow> Inl e | Inr b \<Rightarrow>
         let out = out\<lparr>lo_Timestamps := b\<rparr>
      in case int_option q ''tailLines'' (lo_TailLines out) of Inl e \<Rightarrow> Inl e | Inr n \<Rightarrow>
         let out = out\<lparr>lo_TailLines := n\<rparr>
      in case int_option q ''sinceSeconds'' (lo_SinceSeconds out) of Inl e \<Rightarrow> Inl e | Inr n \<Rightarrow>
         let out = out\<lparr>lo_SinceSeconds := n\<rparr>
      in case int_option q ''limitBytes'' (lo_LimitBytes out) of Inl e \<Rightarrow> Inl e | Inr n \<Rightarrow>
         Inr (out\<lparr>lo_LimitBytes := n\<rparr>))"

text \<open>\<open>%v\<close> of a list of strings.\<close>

definition list_text :: "string list \<Rightarrow> string" where
  "list_text xs = ''['' @ join_on (CHR '' '') xs @ '']''"

definition pickContainer :: "string \<Rightarrow> string list \<Rightarrow> string + string" where
  "pickContainer requested available =
     (if requested \<noteq> [] then
        (if requested \<in> set available then Inr requested
         else Inl (''container '' @ quote requested @ '' is not in pod (have: '' @ list_text available @ '')''))
      else if length available = 1 then Inr (available ! 0)
      else if length available = 0 then Inl ''pod has no containers''
      else Inl (''a container name must be specified for pods with multiple containers (have: '' @
                list_text available @ '')''))"

section \<open>The log server\<close>

text \<open>\<open>listerResolver\<close>: UID and container names of a pod.\<close>

definition Resolve ::
  "(string \<Rightarrow> string \<Rightarrow> get_error + pod) \<Rightarrow> string \<Rightarrow> string \<Rightarrow> get_error + string \<times> string list" where
  "Resolve lister ns name =
     (case lister ns name of
        Inl e \<Rightarrow> Inl e
      | Inr p \<Rightarrow>
          if p_uid p = [] then Inl (OtherError (''pod '' @ ns @ ''/'' @ name @ '' has no UID''))
          else Inr (p_uid p, map c_name (p_containers p)))"

record http_request =
  rq_Method :: string
  rq_Path :: string
  rq_Query :: url_values

record http_response =
  rs_status :: nat
  rs_contentType :: string
  rs_body :: bytes

text \<open>\<open>http.Error\<close>.\<close>

definition http_error :: "string \<Rightarrow> nat \<Rightarrow> http_response" where
  "http_error msg code =
     \<lparr>rs_status = code, rs_contentType = ''text/plain; charset=utf-8'', rs_body = msg @ [CHR 0x0A]\<rparr>"

text \<open>\<open>strings.SplitN(s, "/", 2)\<close>.\<close>

definition split_slash2 :: "string \<Rightarrow> string list" where
  "split_slash2 s =
     (if CHR ''/'' \<in> set s then [takeWhile (\<lambda>c. c \<noteq> CHR ''/'') s, drop 1 (dropWhile (\<lambda>c. c \<noteq> CHR ''/'') s)]
      else [s])"

text \<open>
  The copying loop of both handlers. A stream is the list of the results of its reads: the bytes
  and, where it ended, why. \<open>writes\<close> is how many writes the client's connection still takes
  (\<open>None\<close>: all of them).
\<close>

datatype read_end = EndOfFile | ReadFailed io_error

type_synonym reads = "(bytes \<times> read_end option) list"

fun copy_loop :: "reads \<Rightarrow> nat option \<Rightarrow> bytes \<Rightarrow> bytes" where
  "copy_loop [] writes out = out"
| "copy_loop ((b, rerr) # rs) writes out =
     (if b \<noteq> [] \<and> writes = Some 0 then out
      else
        let out = out @ b;
            writes = (if b \<noteq> [] then map_option (\<lambda>k. k - 1) writes else writes)
        in if rerr \<noteq> None then out else copy_loop rs writes out)"

text \<open>
  \<open>handleLogs\<close>, behind the \<open>ServeMux\<close>, which is not modelled. Of the headers of a response only the content type is
  kept; the \<open>X-Content-Type-Options\<close> that \<open>http.Error\<close> sets is left out.
\<close>

definition handleLogs ::
  "(string \<Rightarrow> string \<Rightarrow> get_error + string \<times> string list) \<Rightarrow>
   (string \<Rightarrow> log_options \<Rightarrow> 'd \<Rightarrow> (log_error + reads) \<times> 'd) \<Rightarrow> nat option \<Rightarrow> http_request \<Rightarrow> 'd \<Rightarrow> http_response \<times> 'd" where
  "handleLogs resolve logs writes r d =
     (if rq_Method r \<noteq> ''GET'' then (http_error ''method not allowed'' 405, d)
      else
        let rest = trim_prefix (rq_Path r) ''/containerLogs/'';
            parts = split_slash2 rest
        in if length parts \<noteq> 2 \<or> parts ! 0 = [] \<or> parts ! 1 = []
           then (http_error ''expected /containerLogs/{namespace}/{name}'' 400, d)
           else
             let ns = parts ! 0; name = parts ! 1
             in case resolve ns name of
                  Inl (IsNotFound _) \<Rightarrow> (http_error (''pod '' @ ns @ ''/'' @ name @ '' not found'') 404, d)
                | Inl (OtherError m) \<Rightarrow> (http_error m 500, d)
                | Inr (uid, containerNames) \<Rightarrow>
                    (case parseLogOptions (rq_Query r) of
                       Inl m \<Rightarrow> (http_error m 400, d)
                     | Inr opts \<Rightarrow>
                         (case pickContainer (lo_Container opts) containerNames of
                            Inl m \<Rightarrow> (http_error m 400, d)
                          | Inr container \<Rightarrow>
                              (case logs (ContainerName uid container) opts d of
                                 (Inl ContainerNotFound, d) \<Rightarrow>
                                   (http_error (''no container for pod '' @ ns @ ''/'' @ name @ '' yet'') 404, d)
                               | (Inl (LogError m), d) \<Rightarrow> (http_error m 500, d)
                               | (Inr rc, d) \<Rightarrow>
                                   (\<lparr>rs_status = 200, rs_contentType = ''text/plain; charset=utf-8'',
                                     rs_body = copy_loop rc writes []\<rparr>, d)))))"

section \<open>The log subresource\<close>

record pod_log_options = log_options +
  plo_Previous :: bool

definition convertURLValuesToPodLogOptions :: "url_values \<Rightarrow> pod_log_options \<Rightarrow> string + pod_log_options" where
  "convertURLValuesToPodLogOptions q out =
     (let v = q_get q ''container'';
          out = (if v \<noteq> [] then out\<lparr>lo_Container := v\<rparr> else out)
      in case bool_option q ''follow'' (lo_Follow out) of Inl e \<Rightarrow> Inl e | Inr b \<Rightarrow>
         let out = out\<lparr>lo_Follow := b\<rparr>
      in case bool_option q ''previous'' (plo_Previous out) of Inl e \<Rightarrow> Inl e | Inr b \<Rightarrow>
         let out = out\<lparr>plo_Previous := b\<rparr>
      in case bool_option q ''timestamps'' (lo_Timestamps out) of Inl e \<Rightarrow> Inl e | Inr b \<Rightarrow>
         let out = out\<lparr>lo_Timestamps := b\<rparr>
      in case int_option q ''sinceSeconds'' (lo_SinceSeconds out) of Inl e \<Rightarrow> Inl e | Inr n \<Rightarrow>
         let out = out\<lparr>lo_SinceSeconds := n\<rparr>
      in case int_option q ''tailLines'' (lo_TailLines out) of Inl e \<Rightarrow> Inl e | Inr n \<Rightarrow>
         let out = out\<lparr>lo_TailLines := n\<rparr>
      in case int_option q ''limitBytes'' (lo_LimitBytes out) of Inl e \<Rightarrow> Inl e | Inr n \<Rightarrow>
         Inr (out\<lparr>lo_LimitBytes := n\<rparr>))"

text \<open>The pairs \<open>encodeLogQuery\<close> sets, in its order; every key is set once.\<close>

definition log_query_pairs :: "'x log_options_scheme \<Rightarrow> (string \<times> string) list" where
  "log_query_pairs opts =
     (if lo_Container opts \<noteq> [] then [(''container'', lo_Container opts)] else []) @
     (if lo_Follow opts then [(''follow'', ''true'')] else []) @
     (if lo_Timestamps opts then [(''timestamps'', ''true'')] else []) @
     (case lo_TailLines opts of Some n \<Rightarrow> [(''tailLines'', format_int n)] | None \<Rightarrow> []) @
     (case lo_SinceSeconds opts of Some n \<Rightarrow> [(''sinceSeconds'', format_int n)] | None \<Rightarrow> []) @
     (case lo_LimitBytes opts of Some n \<Rightarrow> [(''limitBytes'', format_int n)] | None \<Rightarrow> [])"

definition encodeLogQuery :: "'x log_options_scheme option \<Rightarrow> string" where
  "encodeLogQuery opts =
     (case opts of None \<Rightarrow> [] | Some o' \<Rightarrow> values_encode (single_values (log_query_pairs o')))"

record url =
  u_Scheme :: string
  u_Host :: string
  u_Path :: string
  u_RawQuery :: string

definition newPodLogREST :: "(string \<Rightarrow> string + url) \<Rightarrow> string \<Rightarrow> string + url" where
  "newPodLogREST url_parse upstream =
     (case url_parse upstream of
        Inl e \<Rightarrow> Inl (''parse kubelet log url '' @ quote upstream @ '': '' @ e)
      | Inr u \<Rightarrow>
          if u_Scheme u = [] \<or> u_Host u = []
          then Inl (''kubelet log url must have scheme + host, got '' @ quote upstream)
          else Inr u)"

text \<open>
  \<open>Connect\<close> builds the target of the request and returns the handler that sends it. Options of
  another type are \<open>Inl\<close> their type's name; the namespace is that of the request's context.
\<close>

datatype connect_error = InvalidOptions string | NamespaceRequired

definition log_target :: "url \<Rightarrow> pod_log_options \<Rightarrow> string \<Rightarrow> string \<Rightarrow> url" where
  "log_target upstream opts ns name =
     upstream\<lparr>u_Path := trim_right (CHR ''/'') (u_Path upstream) @ ''/containerLogs/'' @ ns @ ''/'' @ name,
       u_RawQuery := encodeLogQuery (Some opts)\<rparr>"

definition Connect ::
  "url \<Rightarrow> string option \<Rightarrow> string \<Rightarrow> string + pod_log_options \<Rightarrow> connect_error + url" where
  "Connect upstream namespace name options =
     (case options of
        Inl T \<Rightarrow> Inl (InvalidOptions T)
      | Inr opts \<Rightarrow>
          (case namespace of
             None \<Rightarrow> Inl NamespaceRequired
           | Some ns \<Rightarrow> if ns = [] then Inl NamespaceRequired else Inr (log_target upstream opts ns name)))"

text \<open>
  The handler: the request may fail to be built or to be sent; otherwise status, content type and
  body of the response are forwarded.
\<close>

datatype proxy_error = InternalError string | ServiceUnavailable string

record upstream_response =
  ur_StatusCode :: nat
  ur_ContentType :: string
  ur_Body :: reads

definition proxy_handler ::
  "(url \<Rightarrow> string + unit) \<Rightarrow> (url \<Rightarrow> 'd \<Rightarrow> (string + upstream_response) \<times> 'd) \<Rightarrow> nat option \<Rightarrow> url \<Rightarrow>
     'd \<Rightarrow> (proxy_error + http_response) \<times> 'd" where
  "proxy_handler newRequest send_req writes target d =
     (case newRequest target of
        Inl e \<Rightarrow> (Inl (InternalError e), d)
      | Inr _ \<Rightarrow>
          (case send_req target d of
             (Inl e, d) \<Rightarrow> (Inl (ServiceUnavailable (''kubelet log backend: '' @ e)), d)
           | (Inr resp, d) \<Rightarrow>
               (Inr \<lparr>rs_status = ur_StatusCode resp,
                     rs_contentType = (if ur_ContentType resp \<noteq> [] then ur_ContentType resp
                                       else ''text/plain; charset=utf-8''),
                     rs_body = copy_loop (ur_Body resp) writes []\<rparr>, d)))"

section \<open>Options survive the hop\<close>

definition in_int64 :: "int option \<Rightarrow> bool" where
  "in_int64 n \<longleftrightarrow> (case n of None \<Rightarrow> True | Some i \<Rightarrow> - (2 ^ 63) \<le> i \<and> i < 2 ^ 63)"

lemma q_get_encoded:
  assumes "distinct (map fst kvs)"
  shows "q_get (parse_query (values_encode (single_values kvs))) k = (case map_of kvs k of Some v \<Rightarrow> v | None \<Rightarrow> [])"
  using parse_query_values [OF assms] by (simp add: q_get_def split: option.split)

lemma log_query_distinct: "distinct (map fst (log_query_pairs opts))"
  by (auto simp: log_query_pairs_def split: option.split)

lemma log_query_lookup:
  "map_of (log_query_pairs opts) ''container'' = (if lo_Container opts \<noteq> [] then Some (lo_Container opts) else None)"
  "map_of (log_query_pairs opts) ''follow'' = (if lo_Follow opts then Some ''true'' else None)"
  "map_of (log_query_pairs opts) ''timestamps'' = (if lo_Timestamps opts then Some ''true'' else None)"
  "map_of (log_query_pairs opts) ''tailLines'' = map_option format_int (lo_TailLines opts)"
  "map_of (log_query_pairs opts) ''sinceSeconds'' = map_option format_int (lo_SinceSeconds opts)"
  "map_of (log_query_pairs opts) ''limitBytes'' = map_option format_int (lo_LimitBytes opts)"
  by (auto simp: log_query_pairs_def split: option.split)

lemma format_int_not_Nil [simp]: "format_int i \<noteq> []"
  by (simp add: format_int_def)

lemma encoded_options:
  fixes opts :: "'x log_options_scheme"
  defines "q \<equiv> parse_query (encodeLogQuery (Some opts))"
  shows "q_get q ''container'' = lo_Container opts"
    and "bool_option q ''follow'' False = Inr (lo_Follow opts)"
    and "bool_option q ''timestamps'' False = Inr (lo_Timestamps opts)"
    and "in_int64 (lo_TailLines opts) \<Longrightarrow> int_option q ''tailLines'' None = Inr (lo_TailLines opts)"
    and "in_int64 (lo_SinceSeconds opts) \<Longrightarrow> int_option q ''sinceSeconds'' None = Inr (lo_SinceSeconds opts)"
    and "in_int64 (lo_LimitBytes opts) \<Longrightarrow> int_option q ''limitBytes'' None = Inr (lo_LimitBytes opts)"
proof -
  have get: "q_get q k = (case map_of (log_query_pairs opts) k of Some v \<Rightarrow> v | None \<Rightarrow> [])" for k
    by (simp add: q_def encodeLogQuery_def q_get_encoded log_query_distinct)
  show "q_get q ''container'' = lo_Container opts"
    by (auto simp: get log_query_lookup)
  show "bool_option q ''follow'' False = Inr (lo_Follow opts)"
    "bool_option q ''timestamps'' False = Inr (lo_Timestamps opts)"
    by (auto simp: bool_option_def get log_query_lookup)
  show "in_int64 (lo_TailLines opts) \<Longrightarrow> int_option q ''tailLines'' None = Inr (lo_TailLines opts)"
    "in_int64 (lo_SinceSeconds opts) \<Longrightarrow> int_option q ''sinceSeconds'' None = Inr (lo_SinceSeconds opts)"
    "in_int64 (lo_LimitBytes opts) \<Longrightarrow> int_option q ''limitBytes'' None = Inr (lo_LimitBytes opts)"
    by (auto simp: int_option_def get log_query_lookup in_int64_def Let_def split: option.splits)
qed

lemma parse_encoded_options:
  assumes "in_int64 (lo_TailLines opts)" and "in_int64 (lo_SinceSeconds opts)" and "in_int64 (lo_LimitBytes opts)"
  shows "parseLogOptions (parse_query (encodeLogQuery (Some opts))) = Inr (log_options.truncate opts)"
  using assms
  by (cases opts) (simp add: parseLogOptions_def Let_def encoded_options no_options_def log_options.defs)

lemma parse_int_range:
  assumes "parse_int v = Inr n"
  shows "- (2 ^ 63) \<le> n \<and> n < 2 ^ 63"
proof -
  define body where "body = (if hd v = CHR ''-'' \<or> hd v = CHR ''+'' then tl v else v)"
  from assms obtain k where k: "n = (if hd v = CHR ''-'' then - int k else int k)"
    "\<not> (hd v \<noteq> CHR ''-'' \<and> 2 ^ 63 \<le> k)" "\<not> (hd v = CHR ''-'' \<and> 2 ^ 63 < k)"
    by (auto simp: parse_int_def Let_def split: if_splits sum.splits)
  then show ?thesis by (auto split: if_splits)
qed

lemma int_option_range: "int_option q k dst = Inr n \<Longrightarrow> in_int64 dst \<Longrightarrow> in_int64 n"
  by (auto simp: int_option_def in_int64_def Let_def dest!: parse_int_range split: if_splits sum.splits)

definition no_pod_options :: pod_log_options where
  "no_pod_options = log_options.extend no_options \<lparr>plo_Previous = False\<rparr>"

text \<open>The options the API server decodes are those the kubelet would decode from the same query.\<close>

lemma converted_options:
  assumes "convertURLValuesToPodLogOptions q no_pod_options = Inr opts"
  shows "parseLogOptions q = Inr (log_options.truncate opts)"
    and "in_int64 (lo_TailLines opts)" and "in_int64 (lo_SinceSeconds opts)" and "in_int64 (lo_LimitBytes opts)"
proof -
  let ?c = "q_get q ''container''"
  from assms obtain f p t s l n where
    f: "bool_option q ''follow'' False = Inr f" and t: "bool_option q ''timestamps'' False = Inr t"
    and s: "int_option q ''sinceSeconds'' None = Inr s" and l: "int_option q ''tailLines'' None = Inr l"
    and n: "int_option q ''limitBytes'' None = Inr n"
    and o: "opts = \<lparr>lo_Container = ?c, lo_Follow = f, lo_Timestamps = t, lo_TailLines = l,
      lo_SinceSeconds = s, lo_LimitBytes = n, plo_Previous = p\<rparr>"
    by (auto simp: convertURLValuesToPodLogOptions_def Let_def no_pod_options_def no_options_def
        log_options.defs split: sum.splits if_splits)
  show "parseLogOptions q = Inr (log_options.truncate opts)"
    using f t s l n by (simp add: parseLogOptions_def Let_def no_options_def o log_options.defs)
  have "in_int64 None" by (simp add: in_int64_def)
  with s l n show "in_int64 (lo_TailLines opts)" "in_int64 (lo_SinceSeconds opts)" "in_int64 (lo_LimitBytes opts)"
    by (auto simp: o intro: int_option_range)
qed

section \<open>Paths and streams\<close>

lemma split_slash2_join:
  assumes "CHR ''/'' \<notin> set ns"
  shows "split_slash2 (ns @ CHR ''/'' # name) = [ns, name]"
proof -
  have "\<forall>c \<in> set ns. c \<noteq> CHR ''/''" using assms by metis
  then show ?thesis by (simp add: split_slash2_def)
qed

text \<open>The reads that together deliver a stream: pieces without an error, then its end.\<close>

definition reads_of :: "bytes \<Rightarrow> read_end \<Rightarrow> reads \<Rightarrow> bool" where
  "reads_of data fin rs \<longleftrightarrow>
     (\<exists>bs b. rs = map (\<lambda>x. (x, None)) bs @ [(b, Some fin)] \<and> concat bs @ b = data)"

lemma copy_loop_all: "copy_loop (map (\<lambda>x. (x, None)) bs @ [(b, Some fin)]) None out = out @ concat bs @ b"
  by (induction bs arbitrary: out) auto

lemma copy_loop_reads: "reads_of data fin rs \<Longrightarrow> copy_loop rs None [] = data"
  by (auto simp: reads_of_def copy_loop_all)

lemma copy_loop_prefix:
  "\<exists>n. copy_loop (map (\<lambda>x. (x, None)) bs @ [(b, Some fin)]) writes out = out @ take n (concat bs @ b)"
proof (induction bs arbitrary: out writes)
  case Nil
  show ?case by (auto intro: exI [of _ 0] exI [of _ "length b"])
next
  case (Cons x xs)
  let ?w = "if x \<noteq> [] then map_option (\<lambda>k. k - 1) writes else writes"
  show ?case
  proof (cases "x \<noteq> [] \<and> writes = Some 0")
    case True
    then show ?thesis by (auto intro: exI [of _ 0])
  next
    case False
    from Cons [of ?w "out @ x"] obtain n where
      "copy_loop (map (\<lambda>x. (x, None)) xs @ [(b, Some fin)]) ?w (out @ x) = out @ x @ take n (concat xs @ b)"
      by auto
    with False show ?thesis by (intro exI [of _ "length x + n"]) (simp add: Let_def)
  qed
qed

text \<open>The consumer's side of the pipe: its bytes in some pieces, then how it was closed.\<close>

definition pipe_reads :: "(bytes \<Rightarrow> bytes list) \<Rightarrow> pipe \<Rightarrow> reads" where
  "pipe_reads split p =
     map (\<lambda>b. (b, None)) (split (pi_data p)) @
     [([], Some (case pi_closed p of Some (Some e) \<Rightarrow> ReadFailed e | _ \<Rightarrow> EndOfFile))]"

lemma pipe_reads_of:
  "(\<And>x. concat (split x) = x) \<Longrightarrow> \<exists>fin. reads_of (pi_data p) fin (pipe_reads split p)"
  by (auto simp: reads_of_def pipe_reads_def)

definition runtime_logs ::
  "('d, 'r) docker_cli \<Rightarrow> 'r std_copy \<Rightarrow> time \<Rightarrow> (bytes \<Rightarrow> bytes list) \<Rightarrow> string \<Rightarrow> log_options \<Rightarrow>
     'd \<Rightarrow> (log_error + reads) \<times> 'd" where
  "runtime_logs cli stdcopy now split name opts =
     sbind (Logs cli stdcopy now None name opts) (\<lambda>p. ret (pipe_reads split p))"

lemma handleLogs_content_type:
  "rs_contentType (fst (handleLogs resolve logs writes r d)) = ''text/plain; charset=utf-8''"
  by (auto simp: handleLogs_def http_error_def Let_def split: sum.split get_error.split log_error.split prod.split)

lemma handleLogs_options:
  assumes "parseLogOptions q = parseLogOptions q'"
  shows "handleLogs resolve logs writes \<lparr>rq_Method = m, rq_Path = p, rq_Query = q\<rparr> d =
    handleLogs resolve logs writes \<lparr>rq_Method = m, rq_Path = p, rq_Query = q'\<rparr> d"
  unfolding handleLogs_def Let_def http_request.simps assms ..

text \<open>A request on the example daemon, and an HTTP client that talks to its log server.\<close>

definition demo_kubelet :: "string \<Rightarrow> url_values \<Rightarrow> daemon \<Rightarrow> http_response \<times> daemon" where
  "demo_kubelet path q =
     handleLogs (Resolve (\<lambda>_ _. Inr demo_pod)) (runtime_logs demo_cli demo_copy 0 (\<lambda>x. [x])) None
       \<lparr>rq_Method = ''GET'', rq_Path = path, rq_Query = q\<rparr>"

definition demo_send :: "url \<Rightarrow> daemon \<Rightarrow> (string + upstream_response) \<times> daemon" where
  "demo_send target d =
     (case demo_kubelet (u_Path target) (parse_query (u_RawQuery target)) d of
        (resp, d') \<Rightarrow> (Inr \<lparr>ur_StatusCode = rs_status resp, ur_ContentType = rs_contentType resp,
                           ur_Body = [(rs_body resp, Some EndOfFile)]\<rparr>, d'))"

definition demo_upstream :: url where
  "demo_upstream = \<lparr>u_Scheme = ''http'', u_Host = ''127.0.0.1:10350'', u_Path = ''/'', u_RawQuery = []\<rparr>"

definition demo_query :: url_values where
  "demo_query = [(''container'', [''app'']), (''follow'', [''true'']), (''tailLines'', [''5''])]"

definition limited_query :: url_values where
  "limited_query = [(''container'', [''app'']), (''limitBytes'', [''4''])]"

section \<open>Properties\<close>

text \<open>
  C20: The API server is transparent for logs. Where the API server accepts the query of a log request,
  the response it gives is the one the kubelet's log server gives to the same query for the same
  pod: no option, status, content type or byte of the body is lost or changed on the way through
  \<open>convertURLValuesToPodLogOptions\<close>, \<open>Connect\<close>, \<open>encodeLogQuery\<close>, the HTTP request and
  \<open>parseLogOptions\<close>. (The URL of the kubelet's log server has no path of its
  own. The HTTP client delivers the request's path and query and the response.)
\<close>

theorem log_request_is_transparent:
  assumes "convertURLValuesToPodLogOptions q no_pod_options = Inr opts"
    and "trim_right (CHR ''/'') (u_Path upstream) = []"
    and "Connect upstream (Some ns) name (Inr opts) = Inr target"
    and "newRequest target = Inr ()"
    and "send_req target d =
      (case handleLogs resolve logs None \<lparr>rq_Method = ''GET'', rq_Path = u_Path target,
          rq_Query = parse_query (u_RawQuery target)\<rparr> d of
         (resp, d') \<Rightarrow> (Inr \<lparr>ur_StatusCode = rs_status resp, ur_ContentType = rs_contentType resp,
                            ur_Body = body resp\<rparr>, d'))"
    and "\<And>resp. reads_of (rs_body resp) EndOfFile (body resp)"
  shows "proxy_handler newRequest send_req None target d =
    map_prod Inr id
      (handleLogs resolve logs None
         \<lparr>rq_Method = ''GET'', rq_Path = ''/containerLogs/'' @ ns @ ''/'' @ name, rq_Query = q\<rparr> d)"
proof -
  let ?rq = "\<lparr>rq_Method = ''GET'', rq_Path = ''/containerLogs/'' @ ns @ ''/'' @ name, rq_Query = q\<rparr>"
  from assms(2,3) have path: "u_Path target = ''/containerLogs/'' @ ns @ ''/'' @ name"
    and query: "u_RawQuery target = encodeLogQuery (Some opts)"
    by (auto simp: Connect_def log_target_def split: if_splits)
  obtain resp d' where run: "handleLogs resolve logs None ?rq d = (resp, d')" by fastforce
  have "parseLogOptions (parse_query (u_RawQuery target)) = parseLogOptions q"
    using converted_options [OF assms(1)] parse_encoded_options [of opts] query by simp
  then have "handleLogs resolve logs None \<lparr>rq_Method = ''GET'', rq_Path = u_Path target,
      rq_Query = parse_query (u_RawQuery target)\<rparr> d = (resp, d')"
    unfolding run [symmetric] path by (rule handleLogs_options)
  moreover have "rs_contentType resp = ''text/plain; charset=utf-8''"
    using handleLogs_content_type [of resolve logs None ?rq d] run by simp
  moreover have "copy_loop (body resp) None [] = rs_body resp" using assms(6) by (rule copy_loop_reads)
  ultimately show ?thesis using assms(4,5) run
    by (cases resp) (simp add: proxy_handler_def)
qed

theorem log_request_is_transparent_witness:
  "\<exists>opts target. convertURLValuesToPodLogOptions demo_query no_pod_options = Inr opts \<and>
     Connect demo_upstream (Some ''default'') ''web'' (Inr opts) = Inr target \<and>
     proxy_handler (\<lambda>_. Inr ()) demo_send None target demo_daemon =
       map_prod Inr id (demo_kubelet ''/containerLogs/default/web'' demo_query demo_daemon)"
proof -
  let ?opts = "no_pod_options\<lparr>lo_Container := ''app'', lo_Follow := True, lo_TailLines := Some 5\<rparr>"
  have conv: "convertURLValuesToPodLogOptions demo_query no_pod_options = Inr ?opts" by code_simp
  have conn: "Connect demo_upstream (Some ''default'') ''web'' (Inr ?opts) =
      Inr (log_target demo_upstream ?opts ''default'' ''web'')"
    by (simp add: Connect_def)
  have trim: "trim_right (CHR ''/'') (u_Path demo_upstream) = []" by code_simp
  have "proxy_handler (\<lambda>_. Inr ()) demo_send None (log_target demo_upstream ?opts ''default'' ''web'') demo_daemon =
      map_prod Inr id (demo_kubelet (''/containerLogs/'' @ ''default'' @ ''/'' @ ''web'') demo_query demo_daemon)"
    unfolding demo_kubelet_def
  proof (rule log_request_is_transparent [where ?body = "\<lambda>resp. [(rs_body resp, Some EndOfFile)]", OF conv trim conn])
    show "demo_send (log_target demo_upstream ?opts ''default'' ''web'') demo_daemon =
      (case handleLogs (Resolve (\<lambda>_ _. Inr demo_pod)) (runtime_logs demo_cli demo_copy 0 (\<lambda>x. [x])) None
          \<lparr>rq_Method = ''GET'', rq_Path = u_Path (log_target demo_upstream ?opts ''default'' ''web''),
           rq_Query = parse_query (u_RawQuery (log_target demo_upstream ?opts ''default'' ''web''))\<rparr> demo_daemon of
         (resp, d') \<Rightarrow> (Inr \<lparr>ur_StatusCode = rs_status resp, ur_ContentType = rs_contentType resp,
                            ur_Body = [(rs_body resp, Some EndOfFile)]\<rparr>, d'))"
      by (simp only: demo_send_def demo_kubelet_def)
  qed (simp_all add: reads_of_def)
  then have "proxy_handler (\<lambda>_. Inr ()) demo_send None (log_target demo_upstream ?opts ''default'' ''web'') demo_daemon =
      map_prod Inr id (demo_kubelet ''/containerLogs/default/web'' demo_query demo_daemon)" by simp
  with conv conn show ?thesis by blast
qed

text \<open>
  C21: Logs. A well-formed request for a container that exists is answered with status 200 and
  exactly the bytes of its log, stdout and stderr in the order of their frames, cut to
  \<open>limitBytes\<close> if that is positive, however the frames, the pipe and the reads divide them.
  (\<open>StdCopy\<close> writes the payloads of the frames in order.)
\<close>

theorem kubelet_serves_the_log:
  assumes "lister ns name = Inr pod" and "p_uid pod \<noteq> []"
    and "ns \<noteq> []" and "CHR ''/'' \<notin> set ns" and "name \<noteq> []"
    and "parseLogOptions q = Inr opts"
    and "pickContainer (lo_Container opts) (map c_name (p_containers pod)) = Inr c"
    and "ContainerLogs cli (ContainerName (p_uid pod) c) (docker_log_options now opts) d = (Inr rc, d')"
    and "copies stdcopy rc frames fin" and "\<And>x. concat (split x) = x"
  shows "handleLogs (Resolve lister) (runtime_logs cli stdcopy now split) None
      \<lparr>rq_Method = ''GET'', rq_Path = ''/containerLogs/'' @ ns @ ''/'' @ name, rq_Query = q\<rparr> d =
    (\<lparr>rs_status = 200, rs_contentType = ''text/plain; charset=utf-8'',
      rs_body = cap (byte_limit opts) (concat frames)\<rparr>, d')"
proof -
  let ?p = "logs_pump stdcopy opts rc (new_pipe None)"
  have data: "pi_data ?p = cap (byte_limit opts) (concat frames)"
    using logs_pump_data [OF assms(9)] by (simp add: cap_def)
  obtain e where "reads_of (pi_data ?p) e (pipe_reads split ?p)" using pipe_reads_of [OF assms(10)] by blast
  then have body: "copy_loop (pipe_reads split ?p) None [] = cap (byte_limit opts) (concat frames)"
    using copy_loop_reads data by metis
  have rest: "trim_prefix (''/containerLogs/'' @ ns @ ''/'' @ name) ''/containerLogs/'' = ns @ CHR ''/'' # name"
    by (simp add: trim_prefix_def has_prefix_def)
  have logs: "runtime_logs cli stdcopy now split (ContainerName (p_uid pod) c) opts d = (Inr (pipe_reads split ?p), d')"
    using assms(8) by (simp add: runtime_logs_def Logs_def sbind_def map_err_def ret_def)
  show ?thesis
    unfolding handleLogs_def http_request.simps Let_def rest split_slash2_join [OF assms(4)]
    using assms(1-3,5-7) logs body by (simp add: Resolve_def)
qed

theorem kubelet_serves_the_log_witness:
  "handleLogs (Resolve (\<lambda>_ _. Inr demo_pod)) (runtime_logs demo_cli demo_copy 0 (\<lambda>x. [x])) None
     \<lparr>rq_Method = ''GET'', rq_Path = ''/containerLogs/'' @ ''default'' @ ''/'' @ ''web'', rq_Query = limited_query\<rparr>
     demo_daemon =
   (\<lparr>rs_status = 200, rs_contentType = ''text/plain; charset=utf-8'', rs_body = ''abcd''\<rparr>, demo_daemon)"
proof -
  let ?opts = "no_options\<lparr>lo_Container := ''app'', lo_LimitBytes := Some 4\<rparr>"
  have opts: "parseLogOptions limited_query = Inr ?opts" by code_simp
  have pick: "pickContainer (lo_Container ?opts) (map c_name (p_containers demo_pod)) = Inr ''app''" by code_simp
  have logs: "ContainerLogs demo_cli (ContainerName (p_uid demo_pod) ''app'') (docker_log_options 0 ?opts) demo_daemon =
      (Inr [''abc'', ''def''], demo_daemon)"
    by (simp add: demo_cli_def on_box_def demo_daemon_def ContainerName_def demo_pod_def)
  have body: "cap (byte_limit ?opts) (concat [''abc'', ''def'']) = ''abcd''" by code_simp
  show ?thesis unfolding body [symmetric]
    by (rule kubelet_serves_the_log [OF _ _ _ _ _ opts pick logs demo_copies])
      (simp_all add: demo_pod_def)
qed

end
