(* ===== verification/Kubelet.thy ===== *)
theory Kubelet
  imports Reconciler_Laws Logs
begin

text \<open>
  The properties of the kubelet: reconciliation, termination and reaping on any runtime that keeps
  the contract \<open>container_runtime\<close>, which the wrapper of the Docker SDK does; with the translation of
  pods and statuses and the projection of volumes. The example is a reconciler on the daemon of
  \<open>Kubelet_Example\<close> with an API server that records what it is asked.
\<close>

section \<open>Example\<close>

record api_log =
  al_events :: "kevent list"
  al_status :: "(string \<times> pod_status) list"
  al_deleted :: "(string \<times> int) list"
  al_pods :: "pod list"

definition demo_api :: "api_log kube_api" where
  "demo_api =
     \<lparr>ka_get = \<lambda>k. \<lparr>get_configmap = \<lambda>ns n. Inl (IsNotFound ''not found''),
                     get_secret = \<lambda>ns n. Inl (IsNotFound ''not found'')\<rparr>,
      ka_patchStatus = \<lambda>ns n st k. (Inr (), k\<lparr>al_status := al_status k @ [(n, st)]\<rparr>),
      ka_deletePod = \<lambda>ns n g k. (Inr (), k\<lparr>al_deleted := al_deleted k @ [(n, g)]\<rparr>),
      ka_createEvent = \<lambda>e k. (Inr (), k\<lparr>al_events := al_events k @ [e]\<rparr>),
      ka_listerGet = \<lambda>k ns n.
        (case filter (\<lambda>p. p_namespace p = ns \<and> p_name p = n) (al_pods k) of
           [] \<Rightarrow> Inl (IsNotFound ''not found'') | p # _ \<Rightarrow> Inr p),
      ka_listerList = \<lambda>k. Inr (al_pods k)\<rparr>"

definition demo_queue :: "string list work_queue" where
  "demo_queue =
     \<lparr>wq_Add = \<lambda>k q. if k \<in> set q then q else q @ [k],
      wq_Get = \<lambda>q. (case q of [] \<Rightarrow> (None, []) | k # q \<Rightarrow> (Some k, q)),
      wq_Done = \<lambda>k q. q, wq_AddRateLimited = \<lambda>k q. q @ [k], wq_Forget = \<lambda>k q. q\<rparr>"

definition demo_reconciler :: "(daemon, api_log, string list) reconciler" where
  "demo_reconciler =
     \<lparr>rc_kube = demo_api, rc_docker = dockerRT demo_cli, rc_queue = demo_queue, rc_host = ''kubelet-lite'',
      rc_volumeRoot = ''/volumes'',
      rc_splitKey = \<lambda>k. Inr (takeWhile (\<lambda>c. c \<noteq> CHR ''/'') k, drop 1 (dropWhile (\<lambda>c. c \<noteq> CHR ''/'') k)),
      rc_text = \<lambda>_. ''error'', rc_now = 9, rc_uuid = ''uuid''\<rparr>"

definition demo_state :: "pod list \<Rightarrow> daemon \<Rightarrow> (daemon, api_log, string list) rstate" where
  "demo_state pods d =
     \<lparr>fs_root = Dir [], fs_cwd = [], fs_faults = [], st_docker = d,
      st_kube = \<lparr>al_events = [], al_status = [], al_deleted = [], al_pods = pods\<rparr>,
      st_queue = [], st_failed = Map.empty, st_seq = 0\<rparr>"

abbreviation demo_boxes :: "daemon \<Rightarrow> string \<Rightarrow> (string \<times> container_view) option" where
  "demo_boxes \<equiv> boxes_of demo_box"

interpretation dk: kubelet demo_reconciler demo_boxes
  by (rule kubelet.intro) (simp add: demo_reconciler_def demo.container_runtime_axioms)

lemmas demo_runtime = dk.container_runtime_axioms

lemma demo_run: "fst (reconcilePod demo_reconciler demo_pod (demo_state [demo_pod] demo_daemon)) = Inr ()"
  by code_simp

lemma demo_pod_facts:
  "p_uid demo_pod = ''u1''" "p_deletionTimestamp demo_pod = None" "p_name demo_pod = ''web''"
  "p_containers demo_pod = [demo_container ''app'', demo_container ''log'']" "c_name (demo_container n) = n"
  by (simp_all add: demo_pod_def demo_container_def)

lemma demo_boxes_daemon:
  "demo_boxes demo_daemon n =
     (if n = ''klite_u1_app'' then Some (''u1'', view_of_inspect (inspect_box n (snd (hd demo_daemon)))) else None)"
  by (auto simp: boxes_of_def demo_box_def demo_daemon_def uid_label_def PodLabelsFor_def demo_pod_facts)

lemma demo_state_docker: "st_docker (demo_state pods d) = d"
  by (simp add: demo_state_def)

lemma demo_stop: "fst (rt_Stop (rc_docker demo_reconciler) n g d) = Inr ()"
  by (auto simp: demo_reconciler_def dockerRT_def StopContainer_def demo_cli_def on_box_def sbind_def attempt_def
      split: option.split)

lemma demo_remove: "fst (rt_Remove (rc_docker demo_reconciler) n d) = Inr ()"
  by (auto simp: demo_reconciler_def dockerRT_def Remove_def demo_cli_def on_box_def sbind_def attempt_def
      split: option.split)

text \<open>A pod with only the first container, which the daemon runs.\<close>

definition solo_pod :: pod where
  "solo_pod = demo_pod\<lparr>p_containers := [demo_container ''app'']\<rparr>"

definition solo_state :: "(string \<rightharpoonup> string) \<Rightarrow> (daemon, api_log, string list) rstate" where
  "solo_state F = (demo_state [solo_pod] demo_daemon)\<lparr>st_failed := F\<rparr>"

lemma solo_facts:
  "p_uid solo_pod = ''u1''" "p_deletionTimestamp solo_pod = None" "p_containers solo_pod = [demo_container ''app'']"
  "st_docker (solo_state F) = demo_daemon" "st_failed (solo_state F) = F"
  by (simp_all add: solo_pod_def solo_state_def demo_pod_facts demo_state_def)

lemma solo_specs:
  "ContainerSpecsFromPod (rc_text demo_reconciler) (Some kube) solo_pod (rc_volumeRoot demo_reconciler) s =
     (Inr [make_spec solo_pod (ContainerName ''u1'' ''app'') True (demo_container ''app'') ([], [])], s)"
  by (simp add: ContainerSpecsFromPod_def solo_facts container_inputs_def resolveEnv_def projectVolumes_def
      demo_container_def sbind_def map_err_def)

lemma solo_boxes:
  "\<forall>c \<in> set (p_containers solo_pod).
     demo_boxes (st_docker (solo_state F)) (ContainerName (p_uid solo_pod) (c_name c)) \<noteq> None"
  by (simp add: solo_facts demo_boxes_daemon demo_pod_facts ContainerName_def)

lemma demo_fields:
  "rc_kube demo_reconciler = demo_api" "rc_docker demo_reconciler = dockerRT demo_cli"
  "ka_patchStatus demo_api ns n status k = (Inr (), k\<lparr>al_status := al_status k @ [(n, status)]\<rparr>)"
  by (simp_all add: demo_reconciler_def demo_api_def)

lemma solo_inspect:
  "st_docker s = demo_daemon \<Longrightarrow>
   on_docker (rt_Inspect (dockerRT demo_cli) (ContainerName ''u1'' ''app'')) s =
     (Inr (Some (view_of_inspect (inspect_box ''klite_u1_app'' (snd (hd demo_daemon))))), s)"
  by (cases s) (simp add: on_docker_def dockerRT_def Inspect_runs demo_cli_def on_box_def demo_daemon_def ContainerName_def)

lemma solo_run:
  "reconcilePod demo_reconciler solo_pod (solo_state F) =
     (Inr (), snd (reconcilePod demo_reconciler solo_pod (solo_state F)))"
proof -
  have "patchStatus demo_reconciler pod status s = (Inr (), s\<lparr>st_kube := (st_kube s)\<lparr>al_status :=
      al_status (st_kube s) @ [(p_name pod, status)]\<rparr>\<rparr>)" for pod status s
    by (simp add: patchStatus_def sbind_def attempt_def on_kube_def demo_fields)
  then have "fst (reconcile_specs demo_reconciler solo_pod [] [make_spec solo_pod (ContainerName ''u1'' ''app'') True
      (demo_container ''app'') ([], [])] (solo_state F)) = Inr ()"
    by (simp add: Let_def make_spec_def demo_pod_facts demo_fields sbind_def map_err_def solo_facts solo_inspect)
  then have "fst (reconcilePod demo_reconciler solo_pod (solo_state F)) = Inr ()"
    unfolding reconcilePod_def sbind_def attempt_def gets_def solo_specs by (simp add: solo_facts)
  then show ?thesis by (metis prod.collapse)
qed

section \<open>Reconciliation\<close>

text \<open>
  C14: Reconciliation only adds. Whatever calls of the daemon, the API server or the disk fail, the
  reconciliation of a pod that is not being deleted leaves every existing container, of this pod or
  any other, as it is, and the containers it adds are named after the pod's UID and the containers
  of its specification.
\<close>

theorem reconcile_only_adds:
  assumes "container_runtime (rc_docker R) boxes" and "p_deletionTimestamp pod = None"
    and "reconcilePod R pod s = (r, t)"
  shows "(\<forall>n x. boxes (st_docker s) n = Some x \<longrightarrow> boxes (st_docker t) n = Some x) \<and>
    (\<forall>n. boxes (st_docker t) n \<noteq> boxes (st_docker s) n \<longrightarrow>
       (\<exists>c \<in> set (p_containers pod). n = ContainerName (p_uid pod) (c_name c)))"
  using kubelet.pod_keeps [OF kubelet.intro [OF assms(1)] assms(3,2)] by force

theorem reconcile_only_adds_witness:
  "demo_boxes (st_docker (snd (reconcilePod demo_reconciler demo_pod (demo_state [demo_pod] demo_daemon)))) ''klite_u1_app'' =
     Some (''u1'', view_of_inspect (inspect_box ''klite_u1_app'' (snd (hd demo_daemon))))"
  using reconcile_only_adds [OF demo_runtime, of demo_pod "demo_state [demo_pod] demo_daemon", OF _ prod.collapse [symmetric]]
  by (simp add: demo_pod_facts demo_state_docker demo_boxes_daemon)

text \<open>
  C15: Reconciliation brings the pod up. If the reconciliation of a pod that is not being deleted
  returns without an error (so that it is not queued again), then every container of the pod
  exists, or the pod is recorded as failed with a message.
\<close>

theorem reconcile_brings_the_pod_up:
  assumes "container_runtime (rc_docker R) boxes" and "p_uid pod \<noteq> []" and "p_deletionTimestamp pod = None"
    and "reconcilePod R pod s = (Inr (), t)"
  shows "(\<forall>c \<in> set (p_containers pod). \<exists>u v. boxes (st_docker t) (ContainerName (p_uid pod) (c_name c)) = Some (u, v)) \<or>
    (\<exists>msg. st_failed t (p_uid pod) = Some msg)"
  using kubelet.pod_up [OF kubelet.intro [OF assms(1)] assms(4,2,3)] by (metis not_Some_eq surj_pair)

theorem reconcile_brings_the_pod_up_witness:
  "let t = snd (reconcilePod demo_reconciler demo_pod (demo_state [demo_pod] demo_daemon)) in
   (\<forall>c \<in> set (p_containers demo_pod).
      \<exists>u v. demo_boxes (st_docker t) (ContainerName (p_uid demo_pod) (c_name c)) = Some (u, v)) \<or>
   (\<exists>msg. st_failed t (p_uid demo_pod) = Some msg)"
proof -
  have "reconcilePod demo_reconciler demo_pod (demo_state [demo_pod] demo_daemon) =
      (Inr (), snd (reconcilePod demo_reconciler demo_pod (demo_state [demo_pod] demo_daemon)))"
    using demo_run by (metis prod.collapse)
  from reconcile_brings_the_pod_up [OF demo_runtime _ _ this] show ?thesis
    by (simp add: Let_def demo_pod_facts)
qed

text \<open>
  C16: Reconciliation is idempotent. Where the pod's specifications can be built and all its containers
  exist, a reconciliation that returns without an error changes nothing in the daemon, emits no
  event, and patches exactly the status that the inspections of the pod's containers give.
\<close>

theorem reconcile_again_only_reports:
  assumes "container_runtime (rc_docker R) boxes" and "p_uid pod \<noteq> []" and "p_deletionTimestamp pod = None"
    and "ContainerSpecsFromPod (rc_text R) (Some (ka_get (rc_kube R) (st_kube s))) pod (rc_volumeRoot R) s = (Inr specs, u)"
    and "\<forall>c \<in> set (p_containers pod). boxes (st_docker s) (ContainerName (p_uid pod) (c_name c)) \<noteq> None"
    and "reconcilePod R pod s = (Inr (), t)"
  shows "st_docker t = st_docker s \<and> st_seq t = st_seq s \<and>
    (\<exists>views x. ka_patchStatus (rc_kube R) (p_namespace pod) (p_name pod)
         (PodStatusFromViews (rc_now R) pod views) (st_kube s) = (x, st_kube t) \<and>
       (\<forall>c \<in> set (p_containers pod). map_of views (c_name c) =
          map_option snd (boxes (st_docker s) (ContainerName (p_uid pod) (c_name c)))))"
  using kubelet.pod_idle [OF kubelet.intro [OF assms(1)] assms(6,2,3,4)] assms(5) by blast

theorem reconcile_again_only_reports_witness:
  "let t = snd (reconcilePod demo_reconciler solo_pod (solo_state Map.empty)) in
   st_docker t = demo_daemon \<and>
   (\<exists>views x. ka_patchStatus (rc_kube demo_reconciler) (p_namespace solo_pod) (p_name solo_pod)
      (PodStatusFromViews (rc_now demo_reconciler) solo_pod views) (st_kube (solo_state Map.empty)) = (x, st_kube t))"
  using reconcile_again_only_reports [OF demo_runtime _ _ solo_specs solo_boxes solo_run]
  by (simp add: solo_facts Let_def) blast

text \<open>
  C18: A failure after a recovery is not reported. \<open>failedPods\<close> keeps the message of a failure when the
  pod is healthy again: the status has been patched from the inspections since, and yet a later
  failure with the same message returns at once, without patching the status to \<open>Failed\<close>.
\<close>

theorem repeated_failure_is_not_reported:
  assumes "container_runtime (rc_docker R) boxes" and "p_uid pod \<noteq> []" and "p_deletionTimestamp pod = None"
    and "st_failed s (p_uid pod) = Some msg"
    and "ContainerSpecsFromPod (rc_text R) (Some (ka_get (rc_kube R) (st_kube s))) pod (rc_volumeRoot R) s = (Inr specs, u)"
    and "\<forall>c \<in> set (p_containers pod). boxes (st_docker s) (ContainerName (p_uid pod) (c_name c)) \<noteq> None"
    and "reconcilePod R pod s = (Inr (), t)"
  shows "(\<exists>views x. ka_patchStatus (rc_kube R) (p_namespace pod) (p_name pod)
         (PodStatusFromViews (rc_now R) pod views) (st_kube s) = (x, st_kube t)) \<and>
    markFailedOnce R pod msg t = (Inr (), t)"
proof -
  have "st_failed t = st_failed s"
    and "\<exists>views x. ka_patchStatus (rc_kube R) (p_namespace pod) (p_name pod)
         (PodStatusFromViews (rc_now R) pod views) (st_kube s) = (x, st_kube t)"
    using kubelet.pod_idle [OF kubelet.intro [OF assms(1)] assms(7,2,3,5)] assms(6) by blast+
  then show ?thesis using assms(4) by (simp add: markFailedOnce_def)
qed

theorem repeated_failure_is_not_reported_witness:
  "let t = snd (reconcilePod demo_reconciler solo_pod (solo_state [''u1'' \<mapsto> ''pull failed''])) in
   markFailedOnce demo_reconciler solo_pod ''pull failed'' t = (Inr (), t)"
  using repeated_failure_is_not_reported [OF demo_runtime _ _ _ solo_specs solo_boxes solo_run, of "[''u1'' \<mapsto> ''pull failed'']"]
  by (simp add: solo_facts Let_def)

section \<open>Termination and reaping\<close>

text \<open>
  Termination. When the termination of a pod returns without an error and no stop of the daemon
  failed, all containers of the pod are at rest, no other container has changed, and the last
  request to the API server was the deletion of the pod with grace period 0, which succeeded or
  found the pod gone.
\<close>

theorem terminate_stops_then_deletes:
  assumes "container_runtime (rc_docker R) boxes" and "p_containers pod \<noteq> []"
    and "\<And>n g d. fst (rt_Stop (rc_docker R) n g d) = Inr ()"
    and "terminatePod R pod s = (Inr (), t)"
  shows "(\<forall>c \<in> set (p_containers pod). \<forall>u v.
       boxes (st_docker t) (ContainerName (p_uid pod) (c_name c)) = Some (u, v) \<longrightarrow> \<not> cv_running v) \<and>
    (\<forall>n. n \<notin> (\<lambda>c. ContainerName (p_uid pod) (c_name c)) ` set (p_containers pod) \<longrightarrow>
       boxes (st_docker t) n = boxes (st_docker s) n) \<and>
    (\<exists>k x. ka_deletePod (rc_kube R) (p_namespace pod) (p_name pod) 0 k = (x, st_kube t) \<and>
       (\<forall>m. x \<noteq> Inl (OtherError m)))"
  using kubelet.terminated [OF kubelet.intro [OF assms(1)] assms(4,2,3)]
    kubelet.at_rest_def [OF kubelet.intro [OF assms(1)]] by simp

theorem terminate_stops_then_deletes_witness:
  "let t = snd (terminatePod demo_reconciler demo_pod (demo_state [demo_pod] demo_daemon)) in
   \<forall>u v. demo_boxes (st_docker t) ''klite_u1_app'' = Some (u, v) \<longrightarrow> \<not> cv_running v"
proof -
  have "fst (terminatePod demo_reconciler demo_pod (demo_state [demo_pod] demo_daemon)) = Inr ()" by code_simp
  then have "terminatePod demo_reconciler demo_pod (demo_state [demo_pod] demo_daemon) =
      (Inr (), snd (terminatePod demo_reconciler demo_pod (demo_state [demo_pod] demo_daemon)))"
    by (metis prod.collapse)
  from terminate_stops_then_deletes [OF demo_runtime _ demo_stop this] show ?thesis
    by (simp add: Let_def demo_pod_facts ContainerName_def)
qed

text \<open>
  C17: The orphan reaper is exact. Where the lister and the daemon can list and it returns without an error, it never touches a
  container without a pod UID or whose pod the lister knows; and where no removal fails it leaves no container behind
  whose pod is gone.
\<close>

theorem orphan_reaper_is_exact:
  assumes "container_runtime (rc_docker R) boxes" and "reapOrphans R s = (Inr (), t)"
    and "ka_listerList (rc_kube R) (st_kube s) = Inr pods"
  shows "(\<forall>n. \<not> (\<exists>u v. boxes (st_docker s) n = Some (u, v) \<and> u \<noteq> [] \<and> u \<notin> p_uid ` set pods) \<longrightarrow>
       boxes (st_docker t) n = boxes (st_docker s) n) \<and>
    ((\<forall>n d. fst (rt_Remove (rc_docker R) n d) = Inr ()) \<longrightarrow>
       (\<forall>n u v. boxes (st_docker s) n = Some (u, v) \<and> u \<noteq> [] \<and> u \<notin> p_uid ` set pods \<longrightarrow>
          boxes (st_docker t) n = None))"
  using kubelet.orphans_reaped [OF kubelet.intro [OF assms(1)] assms(2,3)] by blast

theorem orphan_reaper_is_exact_witness:
  "demo_boxes (st_docker (snd (reapOrphans demo_reconciler (demo_state [] demo_daemon)))) ''klite_u1_app'' = None"
proof -
  have "fst (reapOrphans demo_reconciler (demo_state [] demo_daemon)) = Inr ()" by code_simp
  then have "reapOrphans demo_reconciler (demo_state [] demo_daemon) =
      (Inr (), snd (reapOrphans demo_reconciler (demo_state [] demo_daemon)))"
    by (metis prod.collapse)
  moreover have "ka_listerList (rc_kube demo_reconciler) (st_kube (demo_state [] demo_daemon)) = Inr []"
    by (simp add: demo_reconciler_def demo_api_def demo_state_def)
  ultimately show ?thesis
    using orphan_reaper_is_exact [OF demo_runtime] demo_remove
    by (fastforce simp: demo_state_docker demo_boxes_daemon)
qed

text \<open>
  Reaping a deleted pod. It touches only containers with the pod's UID label; and if it returns
  without an error and the daemon could list its containers, none with that UID is left.
\<close>

theorem reap_removes_exactly_the_pod:
  assumes "container_runtime (rc_docker R) boxes" and "uid \<noteq> []" and "reapByUID R uid s = (r, t)"
  shows "(\<forall>n. (\<nexists>v. boxes (st_docker s) n = Some (uid, v)) \<longrightarrow> boxes (st_docker t) n = boxes (st_docker s) n) \<and>
    (r = Inr () \<and> (\<exists>ms d. rt_ListManagedContainers (rc_docker R) (st_docker s) = (Inr ms, d)) \<longrightarrow>
       (\<forall>n v. boxes (st_docker t) n \<noteq> Some (uid, v)))"
  using kubelet.reap_uid_safe [OF kubelet.intro [OF assms(1)] assms(3,2)]
    kubelet.reap_uid_complete [OF kubelet.intro [OF assms(1)], of uid s t] assms(2,3) by force

theorem reap_removes_exactly_the_pod_witness:
  "demo_boxes (st_docker (snd (reapByUID demo_reconciler ''u2'' (demo_state [] demo_daemon)))) ''klite_u1_app'' =
     demo_boxes demo_daemon ''klite_u1_app''"
  using reap_removes_exactly_the_pod [OF demo_runtime _ prod.collapse [symmetric], of "''u2''" "demo_state [] demo_daemon"]
  by (simp add: demo_state_docker demo_boxes_daemon)

text \<open>
  Volumes outlive a pod without containers. If no container of a deleted pod is left, because it
  never started or was removed by hand, reaping returns at once and leaves the pod's directory of
  projected ConfigMaps and Secrets on the disk.
\<close>

theorem volumes_survive_a_reap_without_containers:
  assumes "container_runtime (rc_docker R) boxes" and "uid \<noteq> []"
    and "\<forall>n v. boxes (st_docker s) n \<noteq> Some (uid, v)"
  shows "reapByUID R uid s = (Inr (), s)"
proof -
  obtain r t where run: "containerNamesByLabel R uid s = (r, t)" by fastforce
  from kubelet.names_by_label [OF kubelet.intro [OF assms(1)] run assms(2)] assms(3)
  have "r = Inr []" "t = s" by auto
  with run show ?thesis by (simp add: reapByUID_def)
qed

theorem volumes_survive_a_reap_without_containers_witness:
  "reapByUID demo_reconciler ''u2'' (demo_state [] demo_daemon) = (Inr (), demo_state [] demo_daemon)"
  using volumes_survive_a_reap_without_containers [OF demo_runtime, of "''u2''" "demo_state [] demo_daemon"]
  by (simp add: demo_state_docker demo_boxes_daemon)

section \<open>Translation\<close>

text \<open>An API server with one ConfigMap; a specification out of a result.\<close>

definition plain_configmap :: "(string \<times> string) list \<Rightarrow> (string \<times> bytes) list \<Rightarrow> configmap" where
  "plain_configmap data binary =
     \<lparr>om_name = ''cm'', om_namespace = ''default'', om_labels = [], om_creationTimestamp = 0,
      cm_data = data, cm_binaryData = binary\<rparr>"

lemma plain_configmap_fields [simp]:
  "cm_data (plain_configmap data binary) = data" "cm_binaryData (plain_configmap data binary) = binary"
  by (simp_all add: plain_configmap_def)

definition cm_client :: "configmap \<Rightarrow> kube_client" where
  "cm_client cm = \<lparr>get_configmap = \<lambda>ns n. Inr cm, get_secret = \<lambda>ns n. Inl (IsNotFound [])\<rparr>"

definition the_spec :: "(string + container_spec list) \<times> 's \<Rightarrow> nat \<Rightarrow> container_spec" where
  "the_spec r i = projr (fst r) ! i"

text \<open>
  The phase of a pod. It is \<open>Failed\<close> exactly if a container has terminated with a non-zero exit
  code or out of memory; otherwise \<open>Pending\<close> if one is missing, \<open>Running\<close> if one runs, and
  \<open>Succeeded\<close> if all have terminated with success. The statuses are those of the containers, in
  the order of the specification.
\<close>

theorem pod_phase_follows_the_containers:
  "ps_phase (PodStatusFromViews now pod views) =
     (if \<exists>c \<in> set (p_containers pod). has_failed views c then Failed
      else if \<exists>c \<in> set (p_containers pod). missing views c then Pending
      else if \<exists>c \<in> set (p_containers pod). is_running views c then Running
      else Succeeded) \<and>
   ps_containerStatuses (PodStatusFromViews now pod views) =
     map (\<lambda>c. container_status_of now c (map_of views (c_name c))) (p_containers pod)"
  by (simp only: PodStatusFromViews_fields simp_thms)

text \<open>
  Container specifications. When the translation of a pod succeeds there is one specification per
  container, in order, with its image, command, arguments, name and labels; the first container has
  a network of its own and every other one joins that of the first, under the very name the
  reconciler creates the first container with.
\<close>

theorem specs_follow_the_containers:
  assumes "ContainerSpecsFromPod err_text kube pod volumeRoot s = (Inr specs, t)"
  shows "p_containers pod \<noteq> [] \<and> length specs = length (p_containers pod) \<and>
    (\<forall>i < length specs. let c = p_containers pod ! i in
       ContainerNm (specs ! i) = c_name c \<and> Image (specs ! i) = c_image c \<and>
       Entrypoint (specs ! i) = c_command c \<and> Cmd (specs ! i) = c_args c \<and>
       Labels (specs ! i) = PodLabelsFor pod (c_name c) \<and>
       NetworkMode (specs ! i) =
         (if i = 0 then [] else ''container:'' @ ContainerName (p_uid pod) (ContainerNm (specs ! 0))))"
proof -
  from assms obtain c0 cs where cs: "p_containers pod = c0 # cs"
    and run: "specs_loop err_text kube pod volumeRoot (ContainerName (p_uid pod) (c_name c0)) True (p_containers pod) s = (Inr specs, t)"
    by (cases "p_containers pod") (auto simp: ContainerSpecsFromPod_def)
  from specs_loop_Inr [OF run] have len: "length specs = length (p_containers pod)"
    and nth: "\<And>i. i < length specs \<Longrightarrow> \<exists>inputs. specs ! i =
      make_spec pod (ContainerName (p_uid pod) (c_name c0)) (i = 0) (p_containers pod ! i) inputs" by auto
  have "ContainerNm (specs ! 0) = c_name c0" using nth [of 0] len cs by (auto simp: make_spec_def)
  with len cs nth show ?thesis by (fastforce simp: make_spec_def Let_def)
qed

theorem specs_follow_the_containers_witness:
  "NetworkMode (the_spec (ContainerSpecsFromPod (\<lambda>_. []) None demo_pod ''/volumes'' (demo_state [] [])) 1) =
     ''container:klite_u1_app''"
proof -
  have run: "ContainerSpecsFromPod (\<lambda>_. []) None demo_pod ''/volumes'' (demo_state [] []) =
      (Inr (projr (fst (ContainerSpecsFromPod (\<lambda>_. []) None demo_pod ''/volumes'' (demo_state [] [])))),
       demo_state [] [])"
    by (simp add: ContainerSpecsFromPod_def demo_pod_facts container_inputs_def)
  from specs_follow_the_containers [OF run] show ?thesis
    by (auto simp: demo_pod_facts ContainerName_def the_spec_def Let_def)
qed

text \<open>
  C19: Projected ConfigMaps. Materialising the ConfigMap of a volume leaves in the volume's directory
  exactly one file per key of its data and binary data, the latter taking precedence, with its
  value: stale files of an earlier projection are gone, and no file outside the directory changes.
  (Where no call fails, no file is in the way of the directory, it has no subdirectories, and the
  keys are plain file names.)
\<close>

theorem configmap_volume_mirrors_the_keys:
  assumes "get_configmap kube (p_namespace pod) name = Inr cm"
    and "dir = volumeHostDir (fs_cwd s) volumeRoot pod vol"
    and "fs_faults s = []" and "wf_node (fs_root s)" and "\<And>q. prefix q dir \<Longrightarrow> files s q = None"
    and "\<And>k. \<not> dir_at (fs_root s) (dir @ [k])" and "\<And>k. files s (dir @ [k]) \<noteq> None \<Longrightarrow> plain_seg k"
    and "distinct (map fst (cm_data cm))" and "distinct (map fst (cm_binaryData cm))"
    and "\<forall>k \<in> fst ` set (cm_data cm) \<union> fst ` set (cm_binaryData cm). plain_seg k"
  shows "\<exists>t. materialiseConfigMap err_text kube pod vol name opt volumeRoot s = (Inr dir, t) \<and>
    (\<forall>k. files t (dir @ [k]) = (map_of (cm_data cm) ++ map_of (cm_binaryData cm)) k) \<and>
    (\<forall>p. (\<nexists>k. p = dir @ [k]) \<longrightarrow> files t p = files s p)"
proof -
  have "\<forall>k \<in> fst ` set (configmap_files cm). plain_seg k"
    using assms(10) configmap_files_keys(2) by blast
  from writeKeyFiles_mirror [OF assms(3-7) configmap_files_keys(1) [OF assms(8,9)] this]
  obtain t where t: "writeKeyFiles err_text dir (configmap_files cm) s = (Inr (), t)"
    "\<forall>k. files t (dir @ [k]) = map_of (configmap_files cm) k"
    "\<forall>p. (\<nexists>k. p = dir @ [k]) \<longrightarrow> files t p = files s p" by metis
  have "materialiseConfigMap err_text kube pod vol name opt volumeRoot s = (Inr dir, t)"
    using t(1) assms(1,2) by (simp add: materialiseConfigMap_def optional_get_def)
  with t show ?thesis unfolding map_of_configmap_files by blast
qed

theorem configmap_volume_mirrors_the_keys_witness:
  "\<exists>t. materialiseConfigMap (\<lambda>_. []) (cm_client (plain_configmap [(''a'', ''1'')] [(''b'', ''2'')]))
      demo_pod ''conf'' ''cm'' None ''/volumes'' (demo_state [] []) = (Inr [''volumes'', ''u1'', ''conf''], t) \<and>
    files t [''volumes'', ''u1'', ''conf'', ''b''] = Some ''2'' \<and> files t [''volumes'', ''u1'', ''conf'', ''c''] = None"
proof -
  let ?cm = "plain_configmap [(''a'', ''1'')] [(''b'', ''2'')]"
  have dir: "[''volumes'', ''u1'', ''conf''] = volumeHostDir (fs_cwd (demo_state [] [])) ''/volumes'' demo_pod ''conf''"
    by code_simp
  have "\<exists>t. materialiseConfigMap (\<lambda>_. []) (cm_client ?cm) demo_pod ''conf'' ''cm'' None ''/volumes'' (demo_state [] []) =
      (Inr [''volumes'', ''u1'', ''conf''], t) \<and>
    (\<forall>k. files t ([''volumes'', ''u1'', ''conf''] @ [k]) = (map_of (cm_data ?cm) ++ map_of (cm_binaryData ?cm)) k) \<and>
    (\<forall>p. (\<nexists>k. p = [''volumes'', ''u1'', ''conf''] @ [k]) \<longrightarrow> files t p = files (demo_state [] []) p)"
  proof (rule configmap_volume_mirrors_the_keys [OF _ dir])
    show "files (demo_state [] []) q = None" if "prefix q [''volumes'', ''u1'', ''conf'']" for q
      using that by (cases q) (simp_all add: demo_state_def)
  qed (simp_all add: cm_client_def demo_state_def plain_seg_def)
  then show ?thesis by fastforce
qed

text \<open>
  Explicit variables win. In the environment of a container the value of an \<open>env\<close> entry is the
  last assignment to its name, after everything that \<open>envFrom\<close> and earlier entries assign to it, as
  long as no later entry has the same name. (Names contain no \<open>=\<close>.)
\<close>

theorem explicit_env_wins:
  assumes "resolveEnv kube ns c = Inr out" and "c_env c = pre @ e # post"
    and "env_var_entries kube ns e = Inr [env_entry (e_name e) v]"
    and "\<forall>e' \<in> set (e # post). CHR ''='' \<notin> set (e_name e')" and "e_name e \<notin> e_name ` set post"
  shows "env_lookup out (e_name e) = Some v"
  using assms by (rule explicit_entry_last)

theorem explicit_env_wins_witness:
  "env_lookup [''MODE=slow'', ''MODE=fast''] ''MODE'' = Some ''fast''"
proof -
  let ?e = "\<lparr>e_name = ''MODE'', e_value = ''fast'', e_valueFrom = None\<rparr>"
  let ?c = "(demo_container ''app'')\<lparr>c_env := [?e], c_envFrom := [\<lparr>ef_prefix = [], ef_ref = ConfigMapRef ''cm'' None\<rparr>]\<rparr>"
  let ?kube = "cm_client (plain_configmap [(''MODE'', ''slow'')] [])"
  have out: "resolveEnv ?kube ''default'' ?c = Inr [''MODE=slow'', ''MODE=fast'']" by code_simp
  have entry: "env_var_entries ?kube ''default'' ?e = Inr [env_entry (e_name ?e) ''fast'']"
    by (simp add: env_var_entries_def)
  from explicit_env_wins [OF out _ entry, of "[]" "[]"] show ?thesis by simp
qed

end
