(* ===== verification/Kubelet_Loop.thy ===== *)
theory Kubelet_Loop
  imports Kubelet
begin

text \<open>
  The kubelet as a whole: the goroutines of \<open>Reconciler.Run\<close> (\<open>internal/kubelet/reconciler.go\<close>) and the
  informer call the handlers, the worker and the reaper in any order, while the API server changes
  the pods and containers of pods come to rest by themselves. The theory shows what holds in every
  such run, that the worker's loop ends once the queue is shut down, and that a pod that has been
  deleted is gone.
\<close>

section \<open>The loops\<close>

text \<open>\<open>runWorker\<close>: it may go on for ever, and then has no result.\<close>

partial_function (option) runWorker :: "('d, 'k, 'q) reconciler \<Rightarrow> ('d, 'k, 'q) rstate \<Rightarrow> ('d, 'k, 'q) rstate option" where
  "runWorker R s =
     (case processNext R s of
        (Inl e, t) \<Rightarrow> Some t
      | (Inr again, t) \<Rightarrow> if again then runWorker R t else Some t)"

text \<open>What the goroutines do: the informer's handlers, one turn of the worker, one turn of the reaper.\<close>

datatype kubelet_action = OnAdd informer_obj | OnUpdate informer_obj informer_obj | OnDelete informer_obj | OnWork | OnReap

fun kubelet_do :: "('d, 'k, 'q) reconciler \<Rightarrow> kubelet_action \<Rightarrow> ('d, 'k, 'q, unit) kubelet_op" where
  "kubelet_do R (OnAdd obj) = on_add R obj"
| "kubelet_do R (OnUpdate old obj) = on_update R old obj"
| "kubelet_do R (OnDelete obj) = on_delete R obj"
| "kubelet_do R OnWork = sbind (processNext R) (\<lambda>_. ret ())"
| "kubelet_do R OnReap = sbind (attempt (reapOrphans R)) (\<lambda>_. ret ())"

text \<open>
  Runs. An action takes place at a time and with a UUID of its own. Between actions the API server, and
  with it the lister, the faults ahead and the containers under the kubelet's names may change.
\<close>

definition own_name :: "string \<Rightarrow> bool" where
  "own_name n \<longleftrightarrow> has_prefix n ''klite_''"

inductive kubelet_run ::
  "('d, 'k, 'q) reconciler \<Rightarrow> ('d \<Rightarrow> string \<Rightarrow> (string \<times> container_view) option) \<Rightarrow>
     ('d, 'k, 'q) rstate \<Rightarrow> ('d, 'k, 'q) rstate \<Rightarrow> bool" for R boxes s where
  start: "kubelet_run R boxes s s"
| act: "kubelet_run R boxes s t \<Longrightarrow> kubelet_do (R\<lparr>rc_now := now, rc_uuid := uuid\<rparr>) a t = (r, u) \<Longrightarrow> kubelet_run R boxes s u"
| world: "kubelet_run R boxes s t \<Longrightarrow> kubelet_run R boxes s (t\<lparr>st_kube := k, fs_faults := fs\<rparr>)"
| daemon: "kubelet_run R boxes s t \<Longrightarrow> (\<And>n. \<not> own_name n \<Longrightarrow> boxes d n = boxes (st_docker t) n) \<Longrightarrow>
    kubelet_run R boxes s (t\<lparr>st_docker := d\<rparr>)"

section \<open>Foreign containers\<close>

text \<open>A foreign container has a name the kubelet does not use and no pod's UID.\<close>

lemma on_delete_run:
  assumes "on_delete R obj s = (r, t)"
  shows "r = Inr () \<and> (t = s \<or> (\<exists>uid x. reapByUID R uid (s\<lparr>st_failed := (st_failed s)(uid := None)\<rparr>) = (x, t)))"
proof -
  have "on_delete R obj = ret () \<or> (\<exists>uid. on_delete R obj =
      sbind (modify (\<lambda>s. s\<lparr>st_failed := (st_failed s)(uid := None)\<rparr>)) (\<lambda>_. sbind (attempt (reapByUID R uid)) (\<lambda>_. ret ())))"
    unfolding on_delete_def Let_def by (simp split: option.split informer_obj.split) blast
  with assms show ?thesis by (auto simp: sbind_def attempt_def) (metis prod.collapse)
qed

lemma processNext_run:
  assumes "processNext R s = (r, t)"
  obtains (shut) q where "wq_Get (rc_queue R) (st_queue s) = (None, q)" "r = Inr False" "t = s\<lparr>st_queue := q\<rparr>"
  | (work) key q x u where "wq_Get (rc_queue R) (st_queue s) = (Some key, q)"
      "reconcileKey R key (s\<lparr>st_queue := q\<rparr>) = (x, u)" "r = Inr True"
      "t = u\<lparr>st_queue := wq_Done (rc_queue R) key
         ((case x of Inl _ \<Rightarrow> wq_AddRateLimited (rc_queue R) key | Inr _ \<Rightarrow> wq_Forget (rc_queue R) key) (st_queue u))\<rparr>"
proof (cases "wq_Get (rc_queue R) (st_queue s)")
  case (Pair key q)
  show thesis
  proof (cases key)
    case None
    with Pair assms shut show thesis by (simp add: processNext_def on_queue_def sbind_def)
  next
    case (Some k)
    obtain x u where "reconcileKey R k (s\<lparr>st_queue := q\<rparr>) = (x, u)" by fastforce
    with Pair Some assms work show thesis
      by (auto simp: processNext_def on_queue_def sbind_def attempt_def)
  qed
qed

context kubelet
begin

definition foreign :: "string \<Rightarrow> 'd \<Rightarrow> bool" where
  "foreign n d \<longleftrightarrow> \<not> own_name n \<and> (\<forall>u v. boxes d n = Some (u, v) \<longrightarrow> u = [])"

definition untouched :: "string \<Rightarrow> (string \<times> container_view) option \<Rightarrow> ('d, 'k, 'q) rstate \<Rightarrow> bool" where
  "untouched n b s \<longleftrightarrow> boxes (st_docker s) n = b"

lemma untouched_holds: "untouched n b = holds {n} (\<lambda>_. b)"
  by (simp add: fun_eq_iff untouched_def holds_def)

lemma own_names: "own_name (ContainerName uid c)"
  by (simp add: own_name_def ContainerName_def has_prefix_def)

lemma foreign_listed:
  assumes "rt_ListManagedContainers (rc_docker R) d = (Inr ms, d')" and "foreign n d"
  shows "n \<notin> mc_DockerName ` set ms"
proof
  assume "n \<in> mc_DockerName ` set ms"
  then obtain m where m: "m \<in> set ms" "n = mc_DockerName m" by blast
  then have "(mc_UID m, n) \<in> (\<lambda>m. (mc_UID m, mc_DockerName m)) ` set ms" by blast
  with list_lists [OF assms(1)] assms(2) show False by (auto simp: foreign_def)
qed

lemma listing_run: "on_docker (rt_ListManagedContainers (rc_docker R)) s = (r, t) \<Longrightarrow> t = s"
  using list_lists by (auto simp: on_docker_run)

lemma names_by_label_foreign:
  assumes "containerNamesByLabel R uid s = (r, t)" and "foreign n (st_docker s)"
  shows "\<exists>names. r = Inr names \<and> t = s \<and> n \<notin> set names"
proof -
  obtain x u where run: "on_docker (rt_ListManagedContainers (rc_docker R)) s = (x, u)" by fastforce
  from listing_run [OF run] have u: "u = s" .
  show ?thesis
  proof (cases x)
    case (Inl e)
    with run u assms(1) show ?thesis by (auto simp: containerNamesByLabel_def sbind_def attempt_def)
  next
    case (Inr ms)
    with run u obtain d where "rt_ListManagedContainers (rc_docker R) (st_docker s) = (Inr ms, d)"
      by (auto simp: on_docker_run)
    from foreign_listed [OF this assms(2)] Inr run u assms(1) show ?thesis
      by (auto simp: containerNamesByLabel_def sbind_def attempt_def)
  qed
qed

lemma foreign_terminate:
  assumes "terminatePod R pod s = (r, t)" and "foreign n (st_docker s)"
  shows "boxes (st_docker t) n = boxes (st_docker s) n"
proof -
  obtain x u where names: "containerNamesForPod R pod s = (x, u)" by fastforce
  have "\<exists>ns. x = Inr ns \<and> u = s \<and> n \<notin> set ns"
  proof (cases "p_containers pod = []")
    case True
    with names_by_label_foreign [OF _ assms(2)] names show ?thesis by (simp add: containerNamesForPod_def)
  next
    case False
    with names assms(2) own_names show ?thesis by (auto simp: containerNamesForPod_def foreign_def)
  qed
  then obtain ns where ns: "x = Inr ns" "u = s" "set (rev ns) \<inter> {n} = {}" by auto
  let ?rest = "\<lambda>grace. sbind (stop_all R pod grace (rev ns)) (\<lambda>_.
     sbind (attempt (on_kube (ka_deletePod (rc_kube R) (p_namespace pod) (p_name pod) 0))) (\<lambda>r. case r of
       Inl (IsNotFound _) \<Rightarrow> ret () | Inl (OtherError m) \<Rightarrow> throw m | Inr _ \<Rightarrow> ret ()))"
  have kube: "preserves (holds {n} X) (on_kube m)" for X and m :: "('k, 'e, 'a) sem"
    by (simp add: preserves_def on_kube_def holds_def split_beta)
  have get: "preserves P (case e of IsNotFound x \<Rightarrow> ret () | OtherError m \<Rightarrow> throw m)"
    for P :: "('d, 'k, 'q) rstate \<Rightarrow> bool" and e by (cases e) (simp_all add: preserves_def)
  have "preserves (holds {n} (boxes (st_docker s))) (?rest grace)" for grace
    by (intro preserves_intros holds_stop_all kube get ns(3))
  from preservesD [OF this, of s] assms(1) names ns(1,2) show ?thesis
    by (fastforce simp: terminatePod_def Let_def holds_def)
qed

lemma foreign_pod:
  assumes "reconcilePod R pod s = (r, t)" and "foreign n (st_docker s)"
  shows "boxes (st_docker t) n = boxes (st_docker s) n"
proof (cases "p_deletionTimestamp pod = None")
  case True
  from assms(2) own_names have "n \<notin> (\<lambda>c. ContainerName (p_uid pod) (c_name c)) ` set (p_containers pod)"
    by (auto simp: foreign_def)
  with pod_keeps [OF assms(1) True] show ?thesis by blast
next
  case False
  with assms foreign_terminate show ?thesis by (cases "p_uid pod = []") (auto simp: reconcilePod_def)
qed

lemma foreign_key:
  assumes "reconcileKey R key s = (r, t)" and "foreign n (st_docker s)"
  shows "boxes (st_docker t) n = boxes (st_docker s) n"
proof (cases "rc_splitKey R key")
  case (Inr a)
  then obtain ns name where a: "rc_splitKey R key = Inr (ns, name)" by (cases a) auto
  show ?thesis
  proof (cases "ka_listerGet (rc_kube R) (st_kube s) ns name")
    case (Inl e)
    with a assms(1) show ?thesis by (cases e) (auto simp: reconcileKey_def sbind_def)
  next
    case (Inr pod)
    with a assms(1) have "reconcilePod R pod s = (r, t)" by (simp add: reconcileKey_def sbind_def)
    from foreign_pod [OF this assms(2)] show ?thesis .
  qed
qed (use assms(1) in \<open>auto simp: reconcileKey_def sbind_def\<close>)

lemma foreign_work:
  assumes "processNext R s = (r, t)" and "foreign n (st_docker s)"
  shows "boxes (st_docker t) n = boxes (st_docker s) n"
  using assms(1)
proof (cases rule: processNext_run)
  case (work key q x u)
  with foreign_key [OF work(2)] assms(2) show ?thesis by simp
qed simp

lemma foreign_uid:
  assumes "reapByUID R uid s = (r, t)" and "foreign n (st_docker s)"
  shows "boxes (st_docker t) n = boxes (st_docker s) n"
proof -
  obtain x u where names: "containerNamesByLabel R uid s = (x, u)" by fastforce
  from names_by_label_foreign [OF names assms(2)] obtain ns where ns: "x = Inr ns" "u = s" "set (rev ns) \<inter> {n} = {}"
    by auto
  have keep: "preserves (holds {n} (boxes (st_docker s)))
      (if length ns = 0 then ret () else sbind (reap_names R (rev ns)) (\<lambda>_. remove_volumes R uid))"
    by (intro preserves_intros holds_reap holds_volumes ns(3))
  have "(if length ns = 0 then ret () else sbind (reap_names R (rev ns)) (\<lambda>_. remove_volumes R uid)) s = (r, t)"
    using assms(1) names ns by (simp add: reapByUID_def)
  from preservesD [OF keep _ this] show ?thesis by (simp add: holds_def)
qed

lemma foreign_orphans:
  assumes "reapOrphans R s = (r, t)" and "foreign n (st_docker s)"
  shows "boxes (st_docker t) n = boxes (st_docker s) n"
proof -
  obtain x u where list: "on_docker (rt_ListManagedContainers (rc_docker R)) s = (x, u)" by fastforce
  from listing_run [OF list] have u: "u = s" .
  show ?thesis
  proof (cases x)
    case (Inr ms)
    with list u obtain d where "rt_ListManagedContainers (rc_docker R) (st_docker s) = (Inr ms, d)"
      by (auto simp: on_docker_run)
    from foreign_listed [OF this assms(2)] have out: "n \<notin> mc_DockerName ` set ms" .
    have "n \<notin> set ns" if "(uid, ns) \<in> set (orphans known ms)" for uid ns known
      using orphans_set [of uid known ms n] that out by auto
    then have "preserves (holds {n} (boxes (st_docker s))) (reap_groups R (orphans known ms))" for known
      by (intro holds_groups) auto
    then have "preserves (holds {n} (boxes (st_docker s)))
      (if length ms = 0 then ret () else sbind (gets (\<lambda>s. ka_listerList (rc_kube R) (st_kube s))) (\<lambda>r.
         sbind (of_sum r) (\<lambda>pods. reap_groups R (orphans (map p_uid pods) ms))))"
      by (intro preserves_intros)
    from preservesD [OF this, of s r t] assms(1) list u Inr show ?thesis by (simp add: reapOrphans_def holds_def)
  qed (use assms(1) list u in \<open>auto simp: reapOrphans_def\<close>)
qed

lemma foreign_do:
  assumes "kubelet_do R a s = (r, t)" and "foreign n (st_docker s)"
  shows "boxes (st_docker t) n = boxes (st_docker s) n"
proof (cases a)
  case (OnAdd obj)
  with assms(1) show ?thesis by (auto simp: on_add_def on_queue_def split: option.splits)
next
  case (OnUpdate old obj)
  with assms(1) show ?thesis by (auto simp: on_update_def on_queue_def split: option.splits)
next
  case (OnDelete obj)
  with assms(1) on_delete_run [of R obj s r t] foreign_uid [of _ "s\<lparr>st_failed := _\<rparr>" _ t n] assms(2)
  show ?thesis by auto
next
  case OnWork
  with assms(1) obtain x where "processNext R s = (x, t)"
    by (auto simp: sbind_def split: prod.splits sum.splits)
  from foreign_work [OF this assms(2)] show ?thesis .
next
  case OnReap
  with assms(1) obtain x where "reapOrphans R s = (x, t)"
    by (auto simp: sbind_def attempt_def) (metis prod.collapse)
  from foreign_orphans [OF this assms(2)] show ?thesis .
qed

end

text \<open>
  C38: The kubelet leaves foreign containers alone. In every run of the kubelet, whatever its goroutines do
  in which order, whatever the API server holds and whatever calls fail, a container whose name does
  not start with \<open>klite_\<close> and which has no pod's UID stays as it is, and no such container appears.
\<close>

theorem foreign_containers_are_left_alone:
  assumes "container_runtime (rc_docker R) boxes" and "kubelet_run R boxes s t"
    and "\<not> own_name n" and "\<forall>u v. boxes (st_docker s) n = Some (u, v) \<longrightarrow> u = []"
  shows "boxes (st_docker t) n = boxes (st_docker s) n"
  using assms(2)
proof (induction rule: kubelet_run.induct)
  case (act t uuid now a r u)
  let ?R = "R\<lparr>rc_now := now, rc_uuid := uuid\<rparr>"
  have k: "kubelet ?R boxes" using assms(1) by (intro kubelet.intro) simp
  from act.IH assms(3,4) have "kubelet.foreign boxes n (st_docker t)" by (simp add: kubelet.foreign_def [OF k])
  from kubelet.foreign_do [OF k act.hyps(2) this] act.IH show ?case by simp
qed (use assms(3) in simp_all)

section \<open>The worker\<close>

text \<open>Reconciliation leaves the queue alone.\<close>

definition queue_is :: "'q \<Rightarrow> ('d, 'k, 'q) rstate \<Rightarrow> bool" where
  "queue_is q s \<longleftrightarrow> st_queue s = q"

lemma queue_calls:
  "preserves (queue_is q) (on_docker m)" "preserves (queue_is q) (on_kube m')"
  by (simp_all add: preserves_def on_docker_def on_kube_def queue_is_def split_beta)

lemma queue_quiet: "queue_is q (s\<lparr>st_seq := i, st_kube := k, st_failed := F\<rparr>) = queue_is q s"
  by (simp add: queue_is_def)

lemmas queue_rules = preserves_intros queue_calls preserves_quiet [of "queue_is q" for q, OF queue_quiet]

lemma queue_specs_from: "preserves (queue_is q) (ContainerSpecsFromPod err_text kube pod volumeRoot)"
  using specs_frame [OF prod.collapse [symmetric]] by (fastforce simp: preserves_def queue_is_def)

lemma preserves_get_error:
  "(\<And>x. preserves P (f x)) \<Longrightarrow> (\<And>m. preserves P (g m)) \<Longrightarrow> preserves P (case e of IsNotFound x \<Rightarrow> f x | OtherError m \<Rightarrow> g m)"
  by (cases e) simp_all

lemma queue_reconcile_specs: "preserves (queue_is q) (reconcile_specs R pod views specs)"
proof (induction specs arbitrary: views)
  case (Cons spec specs)
  then show ?case
    by (simp only: reconcile_specs.simps Let_def start_container_def) (intro queue_rules)
qed (simp, intro queue_rules)

lemma queue_stop_all: "preserves (queue_is q) (stop_all R pod grace names)"
proof (induction names)
  case (Cons n names)
  then show ?case by (simp only: stop_all.simps) (intro queue_rules)
qed (simp add: preserves_def)

lemma queue_key: "preserves (queue_is q) (reconcileKey R key)"
proof -
  have "preserves (queue_is q) (terminatePod R pod)" for pod
    unfolding terminatePod_def containerNamesForPod_def containerNamesByLabel_def Let_def
    by (intro queue_rules queue_stop_all preserves_get_error)
  then have "preserves (queue_is q) (reconcilePod R pod)" for pod
    unfolding reconcilePod_def by (intro queue_rules queue_specs_from queue_reconcile_specs)
  then show ?thesis
    unfolding reconcileKey_def by (intro queue_rules preserves_get_error)
qed

text \<open>
  What client-go documents of a queue that is shut down: it takes no more keys, hands out those it has,
  and then tells the worker to stop. \<open>left\<close> counts the keys still to be handed out.
\<close>

definition closing :: "'q work_queue \<Rightarrow> ('q \<Rightarrow> bool) \<Rightarrow> ('q \<Rightarrow> nat) \<Rightarrow> bool" where
  "closing Q shut left \<longleftrightarrow>
     (\<forall>q key q'. shut q \<and> wq_Get Q q = (Some key, q') \<longrightarrow> shut q' \<and> left q' < left q) \<and>
     (\<forall>q key. shut q \<longrightarrow> shut (wq_AddRateLimited Q key q) \<and> left (wq_AddRateLimited Q key q) \<le> left q \<and>
        shut (wq_Forget Q key q) \<and> left (wq_Forget Q key q) \<le> left q \<and>
        shut (wq_Done Q key q) \<and> left (wq_Done Q key q) \<le> left q)"

lemma closing_turn:
  assumes "closing (rc_queue R) shut left" and "shut (st_queue s)" and "processNext R s = (Inr True, t)"
  shows "shut (st_queue t) \<and> left (st_queue t) < left (st_queue s)"
  using assms(3)
proof (cases rule: processNext_run)
  case (work key q x u)
  from preservesD [OF queue_key _ work(2), of q] have u: "st_queue u = q" by (simp add: queue_is_def)
  let ?q = "(case x of Inl _ \<Rightarrow> wq_AddRateLimited (rc_queue R) key | Inr _ \<Rightarrow> wq_Forget (rc_queue R) key) q"
  from assms(1,2) work(1) have q: "shut q" "left q < left (st_queue s)" by (auto simp: closing_def)
  then have "shut ?q \<and> left ?q \<le> left q" using assms(1) by (cases x) (auto simp: closing_def)
  moreover then have "shut (wq_Done (rc_queue R) key ?q) \<and> left (wq_Done (rc_queue R) key ?q) \<le> left ?q"
    using assms(1) by (auto simp: closing_def)
  ultimately show ?thesis using work(4) u q by simp
qed simp

lemma processNext_no_error: "processNext R s \<noteq> (Inl e, t)"
  by (auto elim: processNext_run)

text \<open>
  C40: The worker stops. Once the queue is shut down, \<open>runWorker\<close> returns: after finitely many turns it has
  been told that no key is left, whether the reconciliations succeed, fail or are queued again.
\<close>

theorem worker_stops:
  assumes "closing (rc_queue R) shut left" and "shut (st_queue s)"
  shows "\<exists>t q. runWorker R s = Some t \<and> wq_Get (rc_queue R) q = (None, st_queue t)"
  using assms(2)
proof (induction "left (st_queue s)" arbitrary: s rule: less_induct)
  case less
  obtain r t where run: "processNext R s = (r, t)" by fastforce
  then show ?case
  proof (cases rule: processNext_run)
    case (shut q)
    with run show ?thesis by (auto simp: runWorker.simps [of R s])
  next
    case (work key q x u)
    with run have again: "processNext R s = (Inr True, t)" by simp
    from less.hyps [of t] closing_turn [OF assms(1) less.prems again] again show ?thesis
      by (auto simp: runWorker.simps [of R s])
  qed
qed

text \<open>A queue that is shut down or not, with its keys.\<close>

definition demo_closing_queue :: "(bool \<times> string list) work_queue" where
  "demo_closing_queue =
     \<lparr>wq_Add = \<lambda>k (c, q). if c \<or> k \<in> set q then (c, q) else (c, q @ [k]),
      wq_Get = \<lambda>(c, q). (case q of [] \<Rightarrow> (None, (c, [])) | k # q \<Rightarrow> (Some k, (c, q))),
      wq_Done = \<lambda>k q. q, wq_AddRateLimited = \<lambda>k (c, q). if c then (c, q) else (c, q @ [k]), wq_Forget = \<lambda>k q. q\<rparr>"

lemma demo_closing: "closing demo_closing_queue fst (length \<circ> snd)"
  by (auto simp: closing_def demo_closing_queue_def split: list.splits)

definition demo_closing_reconciler :: "(daemon, api_log, bool \<times> string list) reconciler" where
  "demo_closing_reconciler =
     \<lparr>rc_kube = demo_api, rc_docker = dockerRT demo_cli, rc_queue = demo_closing_queue, rc_host = ''kubelet-lite'',
      rc_volumeRoot = ''/volumes'', rc_splitKey = rc_splitKey demo_reconciler, rc_text = \<lambda>_. ''error'', rc_now = 9, rc_uuid = ''uuid''\<rparr>"

definition demo_closing_state :: "(daemon, api_log, bool \<times> string list) rstate" where
  "demo_closing_state =
     \<lparr>fs_root = Dir [], fs_cwd = [], fs_faults = [], st_docker = demo_daemon,
      st_kube = \<lparr>al_events = [], al_status = [], al_deleted = [], al_pods = [demo_pod]\<rparr>,
      st_queue = (True, [''default/web'', ''default/other'']), st_failed = Map.empty, st_seq = 0\<rparr>"

theorem worker_stops_witness:
  "\<exists>t q. runWorker demo_closing_reconciler demo_closing_state = Some t \<and> wq_Get demo_closing_queue q = (None, st_queue t)"
proof -
  have Q: "rc_queue demo_closing_reconciler = demo_closing_queue" by (simp add: demo_closing_reconciler_def)
  show ?thesis
    using worker_stops [of demo_closing_reconciler fst "length \<circ> snd" demo_closing_state] demo_closing
    by (simp add: Q demo_closing_state_def)
qed

text \<open>A registry beside the pod's container, whose pod is gone: the reaper leaves it.\<close>

definition demo_shared_daemon :: daemon where
  "demo_shared_daemon =
     demo_daemon @ [(''registry'', (snd (hd demo_daemon))\<lparr>bx_config := (bx_config (snd (hd demo_daemon)))\<lparr>dc_Labels := []\<rparr>\<rparr>)]"

theorem foreign_containers_are_left_alone_witness:
  "demo_boxes (st_docker (snd (kubelet_do demo_reconciler OnReap (demo_state [] demo_shared_daemon)))) ''registry'' =
     demo_boxes demo_shared_daemon ''registry'' \<and> demo_boxes demo_shared_daemon ''registry'' \<noteq> None"
proof -
  let ?s = "demo_state [] demo_shared_daemon"
  have "demo_reconciler\<lparr>rc_now := 9, rc_uuid := ''uuid''\<rparr> = demo_reconciler" by (simp add: demo_reconciler_def)
  then have "kubelet_do (demo_reconciler\<lparr>rc_now := 9, rc_uuid := ''uuid''\<rparr>) OnReap ?s =
      (fst (kubelet_do demo_reconciler OnReap ?s), snd (kubelet_do demo_reconciler OnReap ?s))" by simp
  from kubelet_run.act [OF kubelet_run.start this]
  have run: "kubelet_run demo_reconciler demo_boxes ?s (snd (kubelet_do demo_reconciler OnReap ?s))" .
  have "demo_boxes demo_shared_daemon ''registry'' \<noteq> None \<and>
      (\<forall>u v. demo_boxes demo_shared_daemon ''registry'' = Some (u, v) \<longrightarrow> u = [])"
    by (simp add: boxes_of_def demo_box_def demo_shared_daemon_def demo_daemon_def uid_label_def)
  with foreign_containers_are_left_alone [OF demo_runtime run, of "''registry''"] show ?thesis
    by (simp add: own_name_def has_prefix_def demo_state_docker)
qed

section \<open>The end of a pod\<close>

context kubelet
begin

lemma reap_names_succeed:
  assumes "\<And>n d. fst (rt_Remove (rc_docker R) n d) = Inr ()"
  shows "fst (reap_names R names s) = Inr ()"
proof (induction names arbitrary: s)
  case (Cons n names)
  obtain x u where st: "on_docker (rt_Stop (rc_docker R) n 10000000000) s = (x, u)" by fastforce
  have "fst (on_docker (rt_Remove (rc_docker R) n) u) = Inr ()" using assms by (simp add: on_docker_def split_beta)
  then obtain v where "on_docker (rt_Remove (rc_docker R) n) u = (Inr (), v)" by (metis prod.collapse)
  with st Cons show ?case by (simp add: sbind_def attempt_def map_err_def)
qed simp

lemma reap_uid_succeeds:
  assumes "\<And>n d. fst (rt_Remove (rc_docker R) n d) = Inr ()"
  shows "fst (reapByUID R uid s) = Inr ()"
proof -
  obtain ns t where names: "containerNamesByLabel R uid s = (Inr ns, t)"
    by (cases "on_docker (rt_ListManagedContainers (rc_docker R)) s"; cases "fst (on_docker (rt_ListManagedContainers (rc_docker R)) s)")
      (auto simp: containerNamesByLabel_def sbind_def attempt_def)
  obtain v where "reap_names R (rev ns) t = (Inr (), v)" using reap_names_succeed [OF assms] by (metis prod.collapse)
  moreover have "fst (remove_volumes R uid w) = Inr ()" for w
    by (auto simp: remove_volumes_def sbind_def attempt_def split: prod.splits)
  ultimately show ?thesis using names by (simp add: reapByUID_def)
qed

lemma reap_uid_failed: "preserves (\<lambda>s. st_failed s = F) (reapByUID R uid)"
proof -
  have d: "preserves (\<lambda>s. st_failed s = F) (on_docker m)" for m :: "('d, 'e, 'a) sem"
    by (simp add: preserves_def on_docker_def split_beta)
  have f: "preserves (\<lambda>s :: ('d, 'k, 'q) rstate. st_failed s = F) (os_remove_all p)" for p
  proof (rule preservesI)
    fix s :: "('d, 'k, 'q) rstate" assume "st_failed s = F"
    moreover have "only_files (os_remove_all p :: (('d, 'k, 'q) rstate, os_error, unit) sem)" by (rule only_files_calls)
    ultimately show "st_failed (snd (os_remove_all p s)) = F"
      using rstate_more [of "snd (os_remove_all p s)" s] by (simp add: only_files_def)
  qed
  have r: "preserves (\<lambda>s. st_failed s = F) (reap_names R names)" for names
  proof (induction names)
    case (Cons n names)
    then show ?case by (simp only: reap_names.simps) (intro preserves_intros d)
  qed (simp add: preserves_def)
  show ?thesis
    unfolding reapByUID_def containerNamesByLabel_def remove_volumes_def by (intro preserves_intros d f r)
qed

end

text \<open>
  C39: A deleted pod is gone. Let the reconciliation of a pod with containers that is being deleted return without an error
  and the informer then report its deletion, with a daemon that can list, stop and remove its containers. Then the API server
  was asked to delete the pod with grace period 0, no container with the pod's UID is left, containers
  of other pods are as they were, no failure is remembered, and a reconciliation of its key that no
  longer finds the pod does nothing.
\<close>

theorem deleted_pod_is_gone:
  assumes "container_runtime (rc_docker R) boxes" and "p_uid pod \<noteq> []" and "p_deletionTimestamp pod \<noteq> None"
    and "p_containers pod \<noteq> []" and "reconcilePod R pod s = (Inr (), t)" and "on_delete R (PodObject pod) t = (r, u)"
    and "\<And>n g d. fst (rt_Stop (rc_docker R) n g d) = Inr ()" and "\<And>n d. fst (rt_Remove (rc_docker R) n d) = Inr ()"
    and "\<And>e d d'. rt_ListManagedContainers (rc_docker R) d \<noteq> (Inl e, d')"
  shows "(\<exists>k x. ka_deletePod (rc_kube R) (p_namespace pod) (p_name pod) 0 k = (x, st_kube t)) \<and>
    (\<forall>n v. boxes (st_docker u) n \<noteq> Some (p_uid pod, v)) \<and>
    (\<forall>n. n \<notin> (\<lambda>c. ContainerName (p_uid pod) (c_name c)) ` set (p_containers pod) \<and>
       (\<forall>v. boxes (st_docker s) n \<noteq> Some (p_uid pod, v)) \<longrightarrow> boxes (st_docker u) n = boxes (st_docker s) n) \<and>
    st_failed u (p_uid pod) = None \<and>
    (\<forall>key ns name m. rc_splitKey R key = Inr (ns, name) \<and>
       ka_listerGet (rc_kube R) (st_kube u) ns name = Inl (IsNotFound m) \<longrightarrow> reconcileKey R key u = (Inr (), u))"
proof -
  have k: "kubelet R boxes" by (rule kubelet.intro [OF assms(1)])
  from assms(2,3,5) have "terminatePod R pod s = (Inr (), t)" by (simp add: reconcilePod_def)
  note ended = kubelet.terminated [OF k this assms(4,7)]
  let ?t = "t\<lparr>st_failed := (st_failed t)(p_uid pod := None)\<rparr>"
  obtain x where "reapByUID R (p_uid pod) ?t = (x, u)"
    using assms(6) by (auto simp: on_delete_def sbind_def attempt_def) (metis prod.collapse)
  with kubelet.reap_uid_succeeds [OF k assms(8), of "p_uid pod" ?t] have reap: "reapByUID R (p_uid pod) ?t = (Inr (), u)" by simp
  have gone: "boxes (st_docker u) n \<noteq> Some (p_uid pod, v)" for n v
    using kubelet.reap_uid_complete [OF k reap assms(2)] assms(9) by blast
  moreover have "boxes (st_docker u) n = boxes (st_docker s) n"
    if "n \<notin> (\<lambda>c. ContainerName (p_uid pod) (c_name c)) ` set (p_containers pod)"
      and "\<forall>v. boxes (st_docker s) n \<noteq> Some (p_uid pod, v)" for n
  proof -
    have "boxes (st_docker t) n = boxes (st_docker s) n" using ended that(1) by blast
    with kubelet.reap_uid_safe [OF k reap assms(2), of n] that(2) show ?thesis by simp
  qed
  moreover have "st_failed u (p_uid pod) = None"
    using preservesD [OF kubelet.reap_uid_failed [OF k] _ reap, of "st_failed ?t"] by simp
  moreover have "reconcileKey R key u = (Inr (), u)"
    if "rc_splitKey R key = Inr (ns, name)" and "ka_listerGet (rc_kube R) (st_kube u) ns name = Inl (IsNotFound m)" for key ns name m
    using that by (simp add: reconcileKey_def sbind_def)
  ultimately show ?thesis using ended by blast
qed

definition dying_pod :: pod where
  "dying_pod = demo_pod\<lparr>p_deletionTimestamp := Some 5\<rparr>"

lemma demo_list: "rt_ListManagedContainers (rc_docker demo_reconciler) d \<noteq> (Inl e, d')"
  by (simp add: demo_reconciler_def dockerRT_def ListManagedContainers_def demo_listed(1) sbind_def map_err_def)

theorem deleted_pod_is_gone_witness:
  "\<forall>n v. demo_boxes (st_docker (snd (on_delete demo_reconciler (PodObject dying_pod)
     (snd (reconcilePod demo_reconciler dying_pod (demo_state [dying_pod] demo_daemon)))))) n \<noteq> Some (''u1'', v)"
proof -
  let ?run = "reconcilePod demo_reconciler dying_pod (demo_state [dying_pod] demo_daemon)"
  have "fst ?run = Inr ()" by code_simp
  then have run: "?run = (Inr (), snd ?run)" by (metis prod.collapse)
  have d: "p_uid dying_pod = ''u1''" "p_deletionTimestamp dying_pod = Some 5" "p_containers dying_pod \<noteq> []"
    by (simp_all add: dying_pod_def demo_pod_def)
  show ?thesis
    using deleted_pod_is_gone [OF demo_runtime _ _ d(3) run prod.collapse [symmetric] demo_stop demo_remove demo_list]
    by (simp add: d)
qed

end
