(* ===== verification/Pki.thy ===== *)
theory Pki
  imports Filesystem
begin

text \<open>
  \<open>internal/pki/pki.go\<close>: the serving certificate and its authority on disk, and the kubeconfig. Keys,
  certificates, PEM blocks and IP addresses are operations of an interface; randomness is a seed that
  every draw advances. The clock is read once per call. File modes are not part of the file system.
\<close>

section \<open>The interface of the cryptographic library\<close>

record template =
  ct_SerialNumber :: int
  ct_CommonName :: string
  ct_NotBefore :: int
  ct_NotAfter :: int
  ct_KeyUsage :: "string list"
  ct_ExtKeyUsage :: "string list"
  ct_IsCA :: bool
  ct_IPAddresses :: "string list"
  ct_DNSNames :: "string list"

text \<open>
  \<open>x_ParseIP\<close> gives the text of the address, if the string is one. The parent of a certificate is its
  own template or a certificate. \<open>x_Verify\<close> is the check of a chain with the authority as only root,
  for server authentication, at a time. \<open>x_Serial\<close> and \<open>x_GenerateKey\<close> depend on the seed.
\<close>

record ('k, 'c) x509 =
  x_GenerateKey :: "nat \<Rightarrow> string + 'k"
  x_Serial :: "nat \<Rightarrow> int option"
  x_CreateCertificate :: "nat \<Rightarrow> template \<Rightarrow> template + 'c \<Rightarrow> 'k \<Rightarrow> 'k \<Rightarrow> string + bytes"
  x_ParseCertificate :: "bytes \<Rightarrow> string + 'c"
  x_NotBefore :: "'c \<Rightarrow> int"
  x_NotAfter :: "'c \<Rightarrow> int"
  x_Verify :: "'c \<Rightarrow> 'c \<Rightarrow> int \<Rightarrow> bool"
  x_VerifyHostname :: "'c \<Rightarrow> string \<Rightarrow> bool"
  x_MarshalPKCS1PrivateKey :: "'k \<Rightarrow> bytes"
  x_pemEncode :: "string \<Rightarrow> bytes \<Rightarrow> bytes"
  x_pemDecode :: "bytes \<Rightarrow> bytes option"
  x_ParseIP :: "string \<Rightarrow> string option"
  x_IsLoopback :: "string \<Rightarrow> bool"

record pki_state = fs_state +
  pk_seed :: nat

datatype pki_error =
    ValidityNotPositive int
  | MkdirErr os_error
  | GenerateCAKey string
  | CreateCACert string
  | GenerateServerKey string
  | ParseCA string
  | CreateServerCert string
  | OpenErr path os_error
  | EncodeErr path os_error
  | ChmodErr os_error
  | ReadCA os_error
  | Minify string
  | MkdirParent os_error
  | WriteConfig string

type_synonym 'a pki_op = "(pki_state, pki_error, 'a) sem"

section \<open>Helpers\<close>

text \<open>The two flags of the loop; an address counts only if the host is not the name.\<close>

definition ensureLoopback :: "('k, 'c) x509 \<Rightarrow> string list \<Rightarrow> string list" where
  "ensureLoopback cr hosts =
     (let (hasLocalhost, hasLoopbackIP) = fold (\<lambda>h (l, i).
            if h = ''localhost'' then (True, i)
            else if (case x_ParseIP cr h of Some ip \<Rightarrow> x_IsLoopback cr ip | None \<Rightarrow> False) then (l, True)
            else (l, i)) hosts (False, False);
          out = hosts;
          out = (if \<not> hasLocalhost then out @ [''localhost''] else out)
      in if \<not> hasLoopbackIP then out @ [''127.0.0.1''] else out)"

definition load_cert :: "('k, 'c) x509 \<Rightarrow> path \<Rightarrow> (pki_state, unit, 'c) sem" where
  "load_cert cr p =
     sbind (map_err (\<lambda>_. ()) (os_read_file p)) (\<lambda>b.
     case x_pemDecode cr b of
       None \<Rightarrow> throw ()
     | Some der \<Rightarrow> map_err (\<lambda>_. ()) (of_sum (x_ParseCertificate cr der)))"

text \<open>The checks of \<open>existingValid\<close> on the two certificates.\<close>

definition certs_valid :: "('k, 'c) x509 \<Rightarrow> int \<Rightarrow> string list \<Rightarrow> 'c \<Rightarrow> 'c \<Rightarrow> bool" where
  "certs_valid cr now hosts ca srv \<longleftrightarrow>
     \<not> (now < x_NotBefore cr ca \<or> x_NotAfter cr ca < now) \<and>
     \<not> (now < x_NotBefore cr srv \<or> x_NotAfter cr srv < now) \<and>
     x_Verify cr ca srv now \<and>
     list_all (\<lambda>h. case x_ParseIP cr h of
         Some ip \<Rightarrow> x_VerifyHostname cr srv ip
       | None \<Rightarrow> x_VerifyHostname cr srv h) hosts"

definition existingValid :: "('k, 'c) x509 \<Rightarrow> int \<Rightarrow> path \<Rightarrow> path \<Rightarrow> string list \<Rightarrow> (pki_state, pki_error, bool) sem" where
  "existingValid cr now caPath srvPath hosts =
     sbind (attempt (load_cert cr caPath)) (\<lambda>ca. case ca of
       Inl _ \<Rightarrow> ret False
     | Inr caCert \<Rightarrow>
         sbind (attempt (load_cert cr srvPath)) (\<lambda>srv. case srv of
           Inl _ \<Rightarrow> ret False
         | Inr srvCert \<Rightarrow> ret (certs_valid cr now hosts caCert srvCert)))"

definition fileExists :: "path \<Rightarrow> bool pki_op" where
  "fileExists p = sbind (attempt (os_stat p)) (\<lambda>r. ret (\<not> isl r))"

text \<open>\<open>os.Chmod\<close> needs the file and changes no content. The deferred \<open>Close\<close> comes last; its error is dropped.\<close>

definition os_chmod :: "path \<Rightarrow> ('x fs_state_scheme, os_error, unit) sem" where
  "os_chmod p = query (\<lambda>n. map_sum id (\<lambda>_. ()) (node_at n p))"

definition deferred_close :: "'a pki_op \<Rightarrow> 'a pki_op" where
  "deferred_close m = sbind (attempt m) (\<lambda>r. sbind (attempt f_close) (\<lambda>_. of_sum r))"

definition writePEM :: "('k, 'c) x509 \<Rightarrow> path \<Rightarrow> string \<Rightarrow> bytes \<Rightarrow> unit pki_op" where
  "writePEM cr p typ der =
     sbind (map_err (OpenErr p) (os_create p)) (\<lambda>_.
     deferred_close (
       sbind (map_err (EncodeErr p) (f_write p (x_pemEncode cr typ der))) (\<lambda>_.
       map_err ChmodErr (os_chmod p))))"

definition draw :: "nat pki_op" where
  "draw s = (Inr (pk_seed s), s\<lparr>pk_seed := Suc (pk_seed s)\<rparr>)"

text \<open>The fallback of \<open>serial\<close> is the time.\<close>

definition serial :: "('k, 'c) x509 \<Rightarrow> int \<Rightarrow> int pki_op" where
  "serial cr now = sbind draw (\<lambda>seed. ret (case x_Serial cr seed of Some n \<Rightarrow> n | None \<Rightarrow> now))"

section \<open>EnsureServerCert\<close>

abbreviation pki_minute :: int where
  "pki_minute \<equiv> 60000000000"

definition split_hosts :: "('k, 'c) x509 \<Rightarrow> string list \<Rightarrow> string list \<times> string list" where
  "split_hosts cr hosts =
     fold (\<lambda>h (ips, dns). case x_ParseIP cr h of Some ip \<Rightarrow> (ips @ [ip], dns) | None \<Rightarrow> (ips, dns @ [h])) hosts ([], [])"

text \<open>The two keys and certificates, and the four files.\<close>

definition generate :: "('k, 'c) x509 \<Rightarrow> int \<Rightarrow> string list \<Rightarrow> int \<Rightarrow> ('k \<times> bytes \<times> 'k \<times> bytes) pki_op" where
  "generate cr time hosts validity =
     sbind draw (\<lambda>r1.
     sbind (map_err GenerateCAKey (of_sum (x_GenerateKey cr r1))) (\<lambda>caKey.
     let now = time - pki_minute in
     sbind (serial cr time) (\<lambda>n1.
     let caTmpl = \<lparr>ct_SerialNumber = n1, ct_CommonName = ''experiment-k8s-apiserver-ca'', ct_NotBefore = now,
           ct_NotAfter = now + validity, ct_KeyUsage = [''CertSign'', ''CRLSign'', ''DigitalSignature''],
           ct_ExtKeyUsage = [], ct_IsCA = True, ct_IPAddresses = [], ct_DNSNames = []\<rparr> in
     sbind draw (\<lambda>r2.
     sbind (map_err CreateCACert (of_sum (x_CreateCertificate cr r2 caTmpl (Inl caTmpl) caKey caKey))) (\<lambda>caDER.
     sbind draw (\<lambda>r3.
     sbind (map_err GenerateServerKey (of_sum (x_GenerateKey cr r3))) (\<lambda>srvKey.
     sbind (serial cr time) (\<lambda>n2.
     let (ips, dns) = split_hosts cr hosts;
         srvTmpl = \<lparr>ct_SerialNumber = n2, ct_CommonName = ''experiment-k8s-apiserver'', ct_NotBefore = now,
           ct_NotAfter = now + validity, ct_KeyUsage = [''DigitalSignature'', ''KeyEncipherment''],
           ct_ExtKeyUsage = [''ServerAuth''], ct_IsCA = False, ct_IPAddresses = ips, ct_DNSNames = dns\<rparr> in
     sbind (map_err ParseCA (of_sum (x_ParseCertificate cr caDER))) (\<lambda>caCert.
     sbind draw (\<lambda>r4.
     sbind (map_err CreateServerCert (of_sum (x_CreateCertificate cr r4 srvTmpl (Inr caCert) srvKey caKey))) (\<lambda>srvDER.
     ret (caKey, caDER, srvKey, srvDER))))))))))))"

definition pki_path :: "path \<Rightarrow> string \<Rightarrow> string \<Rightarrow> path" where
  "pki_path cwd dir file = join_path cwd [dir, file]"

text \<open>Whether the material on disk is kept; then the paths are in the order of their use.\<close>

definition keep_existing :: "('k, 'c) x509 \<Rightarrow> int \<Rightarrow> string list \<Rightarrow> path \<Rightarrow> path \<Rightarrow> path \<Rightarrow> path \<Rightarrow> bool pki_op" where
  "keep_existing cr time hosts caCertPath caKeyPath srvCertPath srvKeyPath =
     sbind (existingValid cr time caCertPath srvCertPath hosts) (\<lambda>valid.
     if valid then
       sbind (fileExists caKeyPath) (\<lambda>b. if b then fileExists srvKeyPath else ret False)
     else ret False)"

definition issue :: "('k, 'c) x509 \<Rightarrow> int \<Rightarrow> string list \<Rightarrow> int \<Rightarrow> path \<Rightarrow> path \<Rightarrow> path \<Rightarrow> path \<Rightarrow> unit pki_op" where
  "issue cr time hosts validity caCertPath caKeyPath srvCertPath srvKeyPath =
     sbind (generate cr time hosts validity) (\<lambda>(caKey, caDER, srvKey, srvDER).
     sbind (writePEM cr caCertPath ''CERTIFICATE'' caDER) (\<lambda>_.
     sbind (writePEM cr caKeyPath ''RSA PRIVATE KEY'' (x_MarshalPKCS1PrivateKey cr caKey)) (\<lambda>_.
     sbind (writePEM cr srvCertPath ''CERTIFICATE'' srvDER) (\<lambda>_.
     writePEM cr srvKeyPath ''RSA PRIVATE KEY'' (x_MarshalPKCS1PrivateKey cr srvKey)))))"

definition EnsureServerCert :: "('k, 'c) x509 \<Rightarrow> int \<Rightarrow> string \<Rightarrow> string list \<Rightarrow> int \<Rightarrow> unit pki_op" where
  "EnsureServerCert cr time dir hosts validity =
     (if validity \<le> 0 then throw (ValidityNotPositive validity)
      else
        sbind (if dir = [] then throw (MkdirErr ENOENT)
               else sbind (gets (\<lambda>s. join_path (fs_cwd s) [dir])) (\<lambda>d. map_err MkdirErr (os_mkdir_all d))) (\<lambda>_.
        sbind (gets fs_cwd) (\<lambda>cwd.
        let hosts = ensureLoopback cr hosts;
            caCertPath = pki_path cwd dir ''ca.crt''; caKeyPath = pki_path cwd dir ''ca.key'';
            srvCertPath = pki_path cwd dir ''server.crt''; srvKeyPath = pki_path cwd dir ''server.key'' in
        sbind (keep_existing cr time hosts caCertPath caKeyPath srvCertPath srvKeyPath) (\<lambda>keep.
        if keep then ret ()
        else issue cr time hosts validity caCertPath caKeyPath srvCertPath srvKeyPath))))"

section \<open>WriteKubeconfig\<close>

text \<open>client-go's configuration; what an entry of type \<open>AuthInfo\<close> identifies the user by.\<close>

record auth_info =
  ai_Username :: string
  ai_Token :: string
  ai_ClientCertificateData :: bytes
  ai_ClientCertificate :: string
  ai_AuthProvider :: "string option"
  ai_Exec :: "string option"

definition empty_auth_info :: auth_info where
  "empty_auth_info = \<lparr>ai_Username = [], ai_Token = [], ai_ClientCertificateData = [], ai_ClientCertificate = [],
     ai_AuthProvider = None, ai_Exec = None\<rparr>"

record kubeconfig =
  kc_clusters :: "(string \<times> string \<times> bytes) list"
  kc_contexts :: "(string \<times> string \<times> string) list"
  kc_authInfos :: "(string \<times> auth_info) list"
  kc_current :: string

text \<open>
  client-go's \<open>MinifyConfig\<close>, \<open>WriteToFile\<close> and \<open>LoadFromFile\<close> are parameters. \<open>filepath_Dir\<close> is
  \<open>filepath.Dir\<close> as a path from the root: what stands before the last separator, or the working directory.
\<close>

record clientcmd =
  cc_MinifyConfig :: "kubeconfig \<Rightarrow> string + kubeconfig"
  cc_WriteToFile :: "kubeconfig \<Rightarrow> string \<Rightarrow> (pki_state, string, unit) sem"
  cc_LoadFromFile :: "string \<Rightarrow> (pki_state, string, kubeconfig) sem"

definition filepath_Dir :: "path \<Rightarrow> string \<Rightarrow> path" where
  "filepath_Dir cwd p =
     (let before = rev (dropWhile (\<lambda>c. c \<noteq> CHR ''/'') (rev p)) in if before = [] then cwd else join_path cwd [before])"

definition experiment_config :: "string \<Rightarrow> bytes \<Rightarrow> kubeconfig" where
  "experiment_config server caData =
     \<lparr>kc_clusters = [(''experiment'', server, caData)], kc_contexts = [(''experiment'', ''experiment'', ''anonymous'')],
      kc_authInfos = [(''anonymous'', empty_auth_info)], kc_current = ''experiment''\<rparr>"

definition WriteKubeconfig :: "clientcmd \<Rightarrow> string \<Rightarrow> string \<Rightarrow> path \<Rightarrow> unit pki_op" where
  "WriteKubeconfig cc p server caPath =
     sbind (map_err ReadCA (os_read_file caPath)) (\<lambda>caData.
     let cfg = experiment_config server caData in
     sbind (map_err Minify (of_sum (cc_MinifyConfig cc cfg))) (\<lambda>cfg.
     sbind (sbind (gets fs_cwd) (\<lambda>cwd. map_err MkdirParent (os_mkdir_all (filepath_Dir cwd p)))) (\<lambda>_.
     map_err WriteConfig (cc_WriteToFile cc cfg p))))"

section \<open>Laws of the library\<close>

text \<open>
  What the code relies on. PEM decodes what it encodes. A certificate created for valid names parses,
  has the times of its template in whole seconds (X.509 has no fractions) and covers the template's
  addresses and names. A server certificate signed by a self-signed signing authority's key verifies
  against it while both are valid. \<open>127.0.0.1\<close> is a loopback address and \<open>localhost\<close> a valid name.
\<close>

definition whole :: "int \<Rightarrow> int" where
  "whole t = t - t mod 1000000000"

definition covers :: "('k, 'c) x509 \<Rightarrow> template \<Rightarrow> 'c \<Rightarrow> bool" where
  "covers cr tm c \<longleftrightarrow>
     x_NotBefore cr c = whole (ct_NotBefore tm) \<and> x_NotAfter cr c = whole (ct_NotAfter tm) \<and>
     list_all (x_VerifyHostname cr c) (ct_IPAddresses tm) \<and> list_all (x_VerifyHostname cr c) (ct_DNSNames tm)"

definition x509_laws :: "('k, 'c) x509 \<Rightarrow> (string \<Rightarrow> bool) \<Rightarrow> bool" where
  "x509_laws cr valid_name \<longleftrightarrow>
     (\<forall>typ b. x_pemDecode cr (x_pemEncode cr typ b) = Some b) \<and>
     (\<forall>r tm par k k' der. x_CreateCertificate cr r tm par k k' = Inr der \<and> list_all valid_name (ct_DNSNames tm) \<longrightarrow>
        (\<exists>c. x_ParseCertificate cr der = Inr c \<and> covers cr tm c)) \<and>
     (\<forall>r caTm caKey caDER ca r' tm k der c now.
        x_CreateCertificate cr r caTm (Inl caTm) caKey caKey = Inr caDER \<and> ct_IsCA caTm \<and>
        ''CertSign'' \<in> set (ct_KeyUsage caTm) \<and> x_ParseCertificate cr caDER = Inr ca \<and>
        x_CreateCertificate cr r' tm (Inr ca) k caKey = Inr der \<and> ''ServerAuth'' \<in> set (ct_ExtKeyUsage tm) \<and>
        x_ParseCertificate cr der = Inr c \<and> x_NotBefore cr ca \<le> now \<and> now \<le> x_NotAfter cr ca \<and>
        x_NotBefore cr c \<le> now \<and> now \<le> x_NotAfter cr c \<longrightarrow>
        x_Verify cr ca c now) \<and>
     x_ParseIP cr ''127.0.0.1'' = Some ''127.0.0.1'' \<and> x_IsLoopback cr ''127.0.0.1'' \<and> valid_name ''localhost''"

lemma laws_pem: "x509_laws cr vn \<Longrightarrow> x_pemDecode cr (x_pemEncode cr typ b) = Some b"
  by (simp add: x509_laws_def)

lemma laws_create:
  "x509_laws cr vn \<Longrightarrow> x_CreateCertificate cr r tm par k k' = Inr der \<Longrightarrow> list_all vn (ct_DNSNames tm) \<Longrightarrow>
    \<exists>c. x_ParseCertificate cr der = Inr c \<and> covers cr tm c"
  unfolding x509_laws_def by blast

lemma laws_verify:
  "x509_laws cr vn \<Longrightarrow> x_CreateCertificate cr r caTm (Inl caTm) caKey caKey = Inr caDER \<Longrightarrow> ct_IsCA caTm \<Longrightarrow>
    ''CertSign'' \<in> set (ct_KeyUsage caTm) \<Longrightarrow> x_ParseCertificate cr caDER = Inr ca \<Longrightarrow>
    x_CreateCertificate cr r' tm (Inr ca) k caKey = Inr der \<Longrightarrow> ''ServerAuth'' \<in> set (ct_ExtKeyUsage tm) \<Longrightarrow>
    x_ParseCertificate cr der = Inr c \<Longrightarrow> x_NotBefore cr ca \<le> now \<Longrightarrow> now \<le> x_NotAfter cr ca \<Longrightarrow>
    x_NotBefore cr c \<le> now \<Longrightarrow> now \<le> x_NotAfter cr c \<Longrightarrow> x_Verify cr ca c now"
  unfolding x509_laws_def by blast

lemma laws_loopback:
  "x509_laws cr vn \<Longrightarrow> x_ParseIP cr ''127.0.0.1'' = Some ''127.0.0.1'' \<and> vn ''localhost''"
  by (simp add: x509_laws_def)

lemma whole_bounds: "whole t \<le> t" "t - 1000000000 < whole t"
  by (simp_all add: whole_def algebra_simps)

section \<open>Lemmas\<close>

lemma split_hosts_eq:
  "split_hosts cr hosts = (List.map_filter (x_ParseIP cr) hosts, filter (\<lambda>h. x_ParseIP cr h = None) hosts)"
proof -
  have "fold (\<lambda>h (ips, dns). case x_ParseIP cr h of Some ip \<Rightarrow> (ips @ [ip], dns) | None \<Rightarrow> (ips, dns @ [h])) hosts (is, ds) =
      (is @ List.map_filter (x_ParseIP cr) hosts, ds @ filter (\<lambda>h. x_ParseIP cr h = None) hosts)" for "is" ds
    by (induction hosts arbitrary: "is" ds) (auto simp: map_filter_simps split: option.splits)
  then show ?thesis by (simp add: split_hosts_def)
qed

definition loopback_host :: "('k, 'c) x509 \<Rightarrow> string \<Rightarrow> bool" where
  "loopback_host cr h \<longleftrightarrow> h \<noteq> ''localhost'' \<and> (\<exists>ip. x_ParseIP cr h = Some ip \<and> x_IsLoopback cr ip)"

lemma ensureLoopback_eq:
  "ensureLoopback cr hosts = hosts @ (if ''localhost'' \<in> set hosts then [] else [''localhost'']) @
     (if \<exists>h \<in> set hosts. loopback_host cr h then [] else [''127.0.0.1''])"
proof -
  have "fold (\<lambda>h (l, i). if h = ''localhost'' then (True, i)
      else if (case x_ParseIP cr h of Some ip \<Rightarrow> x_IsLoopback cr ip | None \<Rightarrow> False) then (l, True) else (l, i)) hosts (a, b) =
    (a \<or> ''localhost'' \<in> set hosts, b \<or> (\<exists>h \<in> set hosts. loopback_host cr h))" for a b
    by (induction hosts arbitrary: a b) (auto simp: loopback_host_def split: option.splits)
  then show ?thesis by (simp add: ensureLoopback_def Let_def)
qed

definition cert_file :: "('k, 'c) x509 \<Rightarrow> (path \<Rightarrow> bytes option) \<Rightarrow> path \<Rightarrow> 'c option" where
  "cert_file cr F p =
     (case F p of
        None \<Rightarrow> None
      | Some b \<Rightarrow> (case x_pemDecode cr b of
          None \<Rightarrow> None
        | Some der \<Rightarrow> (case x_ParseCertificate cr der of Inl _ \<Rightarrow> None | Inr c \<Rightarrow> Some c)))"

lemma load_cert_Inr: "load_cert cr p s = (Inr c, t) \<Longrightarrow> cert_file cr (files s) p = Some c"
  by (auto simp: load_cert_def sbind_Inr_iff cert_file_def dest!: os_read_file_Inr split: option.splits)

lemma load_cert_no_fault:
  "fs_faults s = [] \<Longrightarrow> cert_file cr (files s) p = Some c \<Longrightarrow> load_cert cr p s = (Inr c, s)"
  by (auto simp: load_cert_def cert_file_def os_read_file_def query_no_fault file_at_def sbind_def map_err_def
      split: option.splits sum.splits node.splits)

text \<open>The checks and the queries leave the files alone.\<close>

definition same_disk :: "node \<Rightarrow> path \<Rightarrow> nat \<Rightarrow> pki_state \<Rightarrow> bool" where
  "same_disk n cwd seed s \<longleftrightarrow> fs_root s = n \<and> fs_cwd s = cwd \<and> pk_seed s = seed"

lemma same_disk_refl: "same_disk (fs_root s) (fs_cwd s) (pk_seed s) s"
  by (simp add: same_disk_def)

lemma pk_seed_more: "fs_state.more t = fs_state.more s \<Longrightarrow> pk_seed t = pk_seed s"
  by (cases s; cases t) simp

lemma preserves_disk_query: "preserves (same_disk n cwd seed) (query f)"
proof (rule preservesI)
  fix s assume "same_disk n cwd seed s"
  moreover have "pk_seed (snd (query f s)) = pk_seed s"
    unfolding query_def by (rule pk_seed_more) (rule syscall_ext)
  moreover have "fs_cwd (snd (query f s)) = fs_cwd s" by (simp add: query_def syscall_ext)
  ultimately show "same_disk n cwd seed (snd (query f s))" by (simp add: same_disk_def)
qed

lemma preserves_disk [preserves_intros]:
  "preserves (same_disk n cwd seed) (os_read_file p)" "preserves (same_disk n cwd seed) (os_stat p)"
  "preserves (same_disk n cwd seed) (os_chmod p)"
  unfolding os_read_file_def os_stat_def os_chmod_def by (rule preserves_disk_query)+

lemma preserves_disk_checks:
  "preserves (same_disk n cwd seed) (load_cert cr p)"
  "preserves (same_disk n cwd seed) (fileExists p)"
  "preserves (same_disk n cwd seed) (existingValid cr now p q hosts)"
  unfolding load_cert_def fileExists_def existingValid_def by (intro preserves_intros)+

lemma not_Inl_unit_iff: "a \<noteq> Inl () \<longleftrightarrow> (\<exists>y. a = Inr y)"
  by (cases a) auto

lemma existingValid_Inr:
  assumes "existingValid cr now p q hosts s = (Inr True, t)"
  shows "\<exists>ca srv. cert_file cr (files s) p = Some ca \<and> cert_file cr (files s) q = Some srv \<and> certs_valid cr now hosts ca srv"
proof -
  from assms obtain ca srv u where 1: "load_cert cr p s = (Inr ca, u)" and 2: "load_cert cr q u = (Inr srv, t)"
    and v: "certs_valid cr now hosts ca srv"
    by (auto simp: existingValid_def sbind_Inr_iff not_Inl_unit_iff split: sum.split_asm)
  have "fs_root u = fs_root s"
    using preservesD [OF preserves_disk_checks(1) same_disk_refl 1] by (simp add: same_disk_def)
  with load_cert_Inr [OF 1] load_cert_Inr [OF 2] v show ?thesis by auto
qed

lemma fileExists_Inr:
  assumes "fileExists p s = (Inr True, t)"
  shows "files s p \<noteq> None \<or> dir_at (fs_root s) p"
proof -
  from assms obtain n where "os_stat p s = (Inr n, t)"
    by (auto simp: fileExists_def sbind_Inr_iff isl_def)
  then have "node_at (fs_root s) p = Inr n" unfolding os_stat_def by (rule query_Inr)
  then show ?thesis by (cases n) (auto simp: file_at_def dir_at_def)
qed

lemma writePEM_Inr:
  assumes "writePEM cr p typ der s = (Inr (), t)"
  shows "files t = (files s)(p \<mapsto> x_pemEncode cr typ der)" "fs_cwd t = fs_cwd s"
proof -
  from assms obtain s1 s2 s3 r where 1: "os_create p s = (Inr (), s1)" and 2: "f_write p (x_pemEncode cr typ der) s1 = (Inr (), s2)"
    and 3: "os_chmod p s2 = (Inr (), s3)" and 4: "f_close s3 = (r, t)"
    by (auto simp: writePEM_def deferred_close_def sbind_Inr_iff)
  have "fs_root s3 = fs_root s2" "fs_cwd s3 = fs_cwd s2"
    using preservesD [OF preserves_disk(3) same_disk_refl 3] by (simp_all add: same_disk_def)
  moreover have "fs_root t = fs_root s3" using 4 by (cases r) (auto simp: f_close_def dest: change_Inr change_Inl)
  ultimately show "files t = (files s)(p \<mapsto> x_pemEncode cr typ der)"
    using os_create_Inr [OF 1] f_write_Inr [OF 2] by simp
  have "fs_cwd (snd (os_create p s)) = fs_cwd s" "fs_cwd (snd (f_write p (x_pemEncode cr typ der) s1)) = fs_cwd s1"
    "fs_cwd (snd (f_close s3)) = fs_cwd s3" by (simp_all add: frame_simps)
  with 1 2 4 \<open>fs_cwd s3 = fs_cwd s2\<close> show "fs_cwd t = fs_cwd s" by simp
qed

lemma draw_disk: "draw s = (r, t) \<Longrightarrow> fs_root t = fs_root s \<and> fs_cwd t = fs_cwd s \<and> fs_faults t = fs_faults s"
  by (auto simp: draw_def)

text \<open>What \<open>generate\<close> gives is valid from now on, for the hosts it was asked for.\<close>

lemma serial_disk: "serial cr now s = (r, t) \<Longrightarrow> fs_root t = fs_root s \<and> fs_cwd t = fs_cwd s \<and> fs_faults t = fs_faults s"
  by (auto simp: serial_def draw_def)

lemma generate_disk:
  "generate cr time hosts validity s = (Inr x, t) \<Longrightarrow>
    fs_root t = fs_root s \<and> fs_cwd t = fs_cwd s \<and> fs_faults t = fs_faults s"
  by (auto simp: generate_def Let_def sbind_Inr_iff split_hosts_eq dest!: draw_disk serial_disk)

lemma generate_Inr:
  assumes "generate cr time hosts validity s = (Inr (caKey, caDER, srvKey, srvDER), t)" and laws: "x509_laws cr vn"
    and v: "pki_minute + 1000000000 \<le> validity" and names: "\<forall>h \<in> set hosts. x_ParseIP cr h = None \<longrightarrow> vn h"
  shows "\<exists>ca srv. x_ParseCertificate cr caDER = Inr ca \<and> x_ParseCertificate cr srvDER = Inr srv \<and>
    certs_valid cr time hosts ca srv"
proof -
  from assms(1) obtain r2 r4 caTm srvTm ca where
    1: "x_CreateCertificate cr r2 caTm (Inl caTm) caKey caKey = Inr caDER" and
    2: "x_ParseCertificate cr caDER = Inr ca" and
    3: "x_CreateCertificate cr r4 srvTm (Inr ca) srvKey caKey = Inr srvDER" and
    caTm: "ct_IsCA caTm" "''CertSign'' \<in> set (ct_KeyUsage caTm)" "ct_DNSNames caTm = []"
      "ct_NotBefore caTm = time - pki_minute" "ct_NotAfter caTm = time - pki_minute + validity" and
    srvTm: "''ServerAuth'' \<in> set (ct_ExtKeyUsage srvTm)" "ct_IPAddresses srvTm = List.map_filter (x_ParseIP cr) hosts"
      "ct_DNSNames srvTm = filter (\<lambda>h. x_ParseIP cr h = None) hosts"
      "ct_NotBefore srvTm = time - pki_minute" "ct_NotAfter srvTm = time - pki_minute + validity"
    by (auto simp: generate_def Let_def sbind_Inr_iff split_hosts_eq)
  from laws_create [OF laws 1] 2 caTm(3) have ca: "covers cr caTm ca" by auto
  from laws_create [OF laws 3] names srvTm(3) obtain srv where
    4: "x_ParseCertificate cr srvDER = Inr srv" and srv: "covers cr srvTm srv"
    by (auto simp: list_all_iff)
  have times: "x_NotBefore cr ca \<le> time" "time \<le> x_NotAfter cr ca" "x_NotBefore cr srv \<le> time" "time \<le> x_NotAfter cr srv"
    using ca srv v caTm(4,5) srvTm(4,5) whole_bounds [of "time - pki_minute"]
      whole_bounds [of "time - pki_minute + validity"] by (auto simp: covers_def)
  moreover from laws_verify [OF laws 1 caTm(1,2) 2 3 srvTm(1) 4 times] have "x_Verify cr ca srv time" .
  moreover have "list_all (\<lambda>h. case x_ParseIP cr h of Some ip \<Rightarrow> x_VerifyHostname cr srv ip
       | None \<Rightarrow> x_VerifyHostname cr srv h) hosts"
    using srv srvTm(2,3) by (auto simp: covers_def list_all_iff List.map_filter_def split: option.splits)
  ultimately show ?thesis using 2 4 by (auto simp: certs_valid_def)
qed

section \<open>What a run leaves on disk\<close>

text \<open>Both certificates are there and good for the hosts, and both keys are there.\<close>

definition exists_at :: "node \<Rightarrow> path \<Rightarrow> bool" where
  "exists_at n p \<longleftrightarrow> file_at n p \<noteq> None \<or> dir_at n p"

definition serving_ready :: "('k, 'c) x509 \<Rightarrow> int \<Rightarrow> string list \<Rightarrow> path \<Rightarrow> node \<Rightarrow> bool" where
  "serving_ready cr now hosts d n \<longleftrightarrow>
     (case (cert_file cr (file_at n) (d @ [''ca.crt'']), cert_file cr (file_at n) (d @ [''server.crt''])) of
        (Some ca, Some srv) \<Rightarrow> certs_valid cr now hosts ca srv
      | _ \<Rightarrow> False) \<and>
     exists_at n (d @ [''ca.key'']) \<and> exists_at n (d @ [''server.key''])"

lemma exists_at_iff: "exists_at n p \<longleftrightarrow> (\<exists>m. node_at n p = Inr m)"
  by (auto simp: exists_at_def file_at_def dir_at_def split: sum.splits node.splits)

lemma pki_path_eq:
  assumes "dir \<noteq> []"
  shows "pki_path cwd dir ''ca.crt'' = join_path cwd [dir] @ [''ca.crt'']"
    "pki_path cwd dir ''ca.key'' = join_path cwd [dir] @ [''ca.key'']"
    "pki_path cwd dir ''server.crt'' = join_path cwd [dir] @ [''server.crt'']"
    "pki_path cwd dir ''server.key'' = join_path cwd [dir] @ [''server.key'']"
  using assms unfolding pki_path_def by (subst join_path_plain; simp add: plain_seg_def)+

lemma ensureLoopback_names:
  assumes "x509_laws cr vn" and "\<forall>h \<in> set hosts. x_ParseIP cr h = None \<longrightarrow> vn h"
  shows "\<forall>h \<in> set (ensureLoopback cr hosts). x_ParseIP cr h = None \<longrightarrow> vn h"
  using assms laws_loopback [OF assms(1)] by (auto simp: ensureLoopback_eq split: if_splits)

lemma checks_no_error:
  "fileExists p s \<noteq> (Inl e, t)" "existingValid cr time p q hosts s \<noteq> (Inl e, t)"
  by (auto simp: fileExists_def existingValid_def sbind_Inl_iff not_Inl_unit_iff split: sum.split_asm)

lemma keep_existing_no_error: "keep_existing cr time hosts p1 p2 p3 p4 s \<noteq> (Inl e, t)"
  by (auto simp: keep_existing_def sbind_Inl_iff checks_no_error split: if_split_asm)

lemma keep_existing_disk:
  assumes "keep_existing cr time hosts p1 p2 p3 p4 s = (r, t)"
  shows "fs_root t = fs_root s" "fs_cwd t = fs_cwd s" "pk_seed t = pk_seed s"
proof -
  have "preserves (same_disk (fs_root s) (fs_cwd s) (pk_seed s)) (keep_existing cr time hosts p1 p2 p3 p4)"
    unfolding keep_existing_def by (intro preserves_intros preserves_disk_checks)
  from preservesD [OF this same_disk_refl assms]
  show "fs_root t = fs_root s" "fs_cwd t = fs_cwd s" "pk_seed t = pk_seed s" by (simp_all add: same_disk_def)
qed

lemma keep_existing_ready:
  assumes "keep_existing cr time hosts (d @ [''ca.crt'']) (d @ [''ca.key'']) (d @ [''server.crt'']) (d @ [''server.key'']) s = (Inr True, t)"
  shows "serving_ready cr time hosts d (fs_root s)"
proof -
  from assms obtain u v where
    1: "existingValid cr time (d @ [''ca.crt'']) (d @ [''server.crt'']) hosts s = (Inr True, u)" and
    2: "fileExists (d @ [''ca.key'']) u = (Inr True, v)" and 3: "fileExists (d @ [''server.key'']) v = (Inr True, t)"
    by (auto simp: keep_existing_def sbind_Inr_iff split: if_split_asm)
  have "fs_root u = fs_root s" "fs_root v = fs_root u"
    using preservesD [OF preserves_disk_checks(3) same_disk_refl 1] preservesD [OF preserves_disk_checks(2) same_disk_refl 2]
    by (simp_all add: same_disk_def)
  with existingValid_Inr [OF 1] fileExists_Inr [OF 2] fileExists_Inr [OF 3]
  show ?thesis by (auto simp: serving_ready_def exists_at_def)
qed

lemma mkdir_pki:
  assumes "os_mkdir_all d s = (r, t)"
  shows "files t = files s" "fs_cwd t = fs_cwd s" "pk_seed t = pk_seed s"
proof -
  show "files t = files s" by (rule os_mkdir_all_files [OF assms])
  have "t = snd (os_mkdir_all d s)" using assms by simp
  then have "fs_cwd t = fs_cwd s" "fs_state.more t = fs_state.more s"
    by (simp_all add: os_mkdir_all_def change_def syscall_ext)
  then show "fs_cwd t = fs_cwd s" "pk_seed t = pk_seed s" by (simp, intro pk_seed_more)
qed

text \<open>The two ways a run past the directory goes: the material is kept, or issued anew.\<close>

lemma EnsureServerCert_cases:
  assumes run: "EnsureServerCert cr time dir hosts validity s = (r, t)" and "\<forall>e. r \<noteq> Inl (MkdirErr e)"
    and "0 < validity"
  defines "d \<equiv> join_path (fs_cwd s) [dir]" and "hs \<equiv> ensureLoopback cr hosts"
  obtains (keep) "dir \<noteq> []" "r = Inr ()" "files t = files s" "fs_cwd t = fs_cwd s" "serving_ready cr time hs d (fs_root t)"
    | (new) u where "dir \<noteq> []" "files u = files s" "fs_cwd u = fs_cwd s"
      "issue cr time hs validity (d @ [''ca.crt'']) (d @ [''ca.key'']) (d @ [''server.crt'']) (d @ [''server.key'']) u = (r, t)"
proof -
  have dir: "dir \<noteq> []" using assms(1-3) by (auto simp: EnsureServerCert_def split: if_splits)
  let ?keep = "keep_existing cr time hs (d @ [''ca.crt'']) (d @ [''ca.key'']) (d @ [''server.crt'']) (d @ [''server.key''])"
  obtain r1 s1 where 1: "os_mkdir_all d s = (r1, s1)" by fastforce
  with assms(1-3) dir have r1: "r1 = Inr ()"
    by (cases r1) (auto simp: EnsureServerCert_def d_def [symmetric] sbind_def map_err_def split: if_splits)
  note s1 = mkdir_pki [OF 1]
  obtain r2 s2 where 2: "?keep s1 = (r2, s2)" by fastforce
  note s2 = keep_existing_disk [OF 2]
  from run dir 1 2 r1 assms(3) s1(2) have *:
    "(case r2 of Inl e \<Rightarrow> (Inl e, s2) | Inr k \<Rightarrow> if k then (Inr (), s2) else
      issue cr time hs validity (d @ [''ca.crt'']) (d @ [''ca.key'']) (d @ [''server.crt'']) (d @ [''server.key'']) s2) = (r, t)"
    by (cases r2) (auto simp: EnsureServerCert_def pki_path_eq Let_def sbind_def map_err_def d_def hs_def)
  show thesis
  proof (cases r2)
    case (Inr k)
    then show thesis
      using * 2 s1 s2 dir keep_existing_ready [of cr time hs d s1] keep new [of s2] by (cases k) auto
  qed (use 2 in \<open>simp add: keep_existing_no_error\<close>)
qed

lemma writePEM_OpenErr:
  assumes "writePEM cr p typ der s = (Inl (OpenErr q e), t)"
  shows "p = q" "files t = files s" "fs_cwd t = fs_cwd s"
proof -
  from assms have 1: "os_create p s = (Inl e, t)" and "p = q"
    by (auto simp: writePEM_def deferred_close_def sbind_Inl_iff)
  then show "p = q" "files t = files s" by (auto simp: os_create_def dest: change_Inl)
  have "fs_cwd (snd (os_create p s)) = fs_cwd s" by (simp add: frame_simps)
  with 1 show "fs_cwd t = fs_cwd s" by simp
qed

lemma generate_no_OpenErr: "generate cr time hosts validity s \<noteq> (Inl (OpenErr q e), t)"
  by (auto simp: generate_def Let_def sbind_Inl_iff split_hosts_eq serial_def draw_def)

text \<open>An issue that gets as far as the last file.\<close>

lemma issue_last:
  assumes run: "issue cr time hosts validity (d @ [''ca.crt'']) (d @ [''ca.key'']) (d @ [''server.crt'']) (d @ [''server.key'']) s = (r, t)"
    and r: "r = Inr () \<or> (\<exists>e. r = Inl (OpenErr (d @ [''server.key'']) e))"
  obtains caKey caDER srvKey srvDER u v
  where "generate cr time hosts validity s = (Inr (caKey, caDER, srvKey, srvDER), u)"
    "files v = (files s)(d @ [''ca.crt''] \<mapsto> x_pemEncode cr ''CERTIFICATE'' caDER,
       d @ [''ca.key''] \<mapsto> x_pemEncode cr ''RSA PRIVATE KEY'' (x_MarshalPKCS1PrivateKey cr caKey),
       d @ [''server.crt''] \<mapsto> x_pemEncode cr ''CERTIFICATE'' srvDER)"
    "fs_cwd v = fs_cwd s"
    "writePEM cr (d @ [''server.key'']) ''RSA PRIVATE KEY'' (x_MarshalPKCS1PrivateKey cr srvKey) v = (r, t)"
proof -
  from run r obtain caKey caDER srvKey srvDER u s1 s2 s3 where
    g: "generate cr time hosts validity s = (Inr (caKey, caDER, srvKey, srvDER), u)" and
    1: "writePEM cr (d @ [''ca.crt'']) ''CERTIFICATE'' caDER u = (Inr (), s1)" and
    2: "writePEM cr (d @ [''ca.key'']) ''RSA PRIVATE KEY'' (x_MarshalPKCS1PrivateKey cr caKey) s1 = (Inr (), s2)" and
    3: "writePEM cr (d @ [''server.crt'']) ''CERTIFICATE'' srvDER s2 = (Inr (), s3)" and
    4: "writePEM cr (d @ [''server.key'']) ''RSA PRIVATE KEY'' (x_MarshalPKCS1PrivateKey cr srvKey) s3 = (r, t)"
    unfolding issue_def
    by (fastforce simp: sbind_Inr_iff sbind_Inl_iff generate_no_OpenErr dest: writePEM_OpenErr(1))
  from generate_disk [OF g] have "files u = files s" "fs_cwd u = fs_cwd s" by simp_all
  with writePEM_Inr [OF 1] writePEM_Inr [OF 2] writePEM_Inr [OF 3]
  show thesis by (intro that [OF g _ _ 4]) simp_all
qed

lemma issued_ready:
  assumes g: "generate cr time hosts validity s = (Inr (caKey, caDER, srvKey, srvDER), u)"
    and "files t (d @ [''ca.crt'']) = Some (x_pemEncode cr ''CERTIFICATE'' caDER)"
    and "files t (d @ [''server.crt'']) = Some (x_pemEncode cr ''CERTIFICATE'' srvDER)"
    and "files t (d @ [''ca.key'']) \<noteq> None" and "files t (d @ [''server.key'']) \<noteq> None"
    and laws: "x509_laws cr vn" and v: "pki_minute + 1000000000 \<le> validity"
    and names: "\<forall>h \<in> set hosts. x_ParseIP cr h = None \<longrightarrow> vn h"
  shows "serving_ready cr time hosts d (fs_root t)"
  using assms(2-5) generate_Inr [OF g laws v names]
  by (auto simp: serving_ready_def exists_at_def cert_file_def laws_pem [OF laws])

lemma EnsureServerCert_issued:
  assumes run: "EnsureServerCert cr time dir hosts validity s = (r, t)"
    and r: "r = Inr () \<or> (\<exists>e. r = Inl (OpenErr (pki_path (fs_cwd s) dir ''server.key'') e))"
    and laws: "x509_laws cr vn" and v: "pki_minute + 1000000000 \<le> validity"
    and names: "\<forall>h \<in> set hosts. x_ParseIP cr h = None \<longrightarrow> vn h"
  defines "d \<equiv> join_path (fs_cwd s) [dir]" and "hs \<equiv> ensureLoopback cr hosts"
  shows "r = Inr () \<Longrightarrow> serving_ready cr time hs d (fs_root t)"
    and "r = Inl (OpenErr (pki_path (fs_cwd s) dir ''server.key'') e) \<Longrightarrow> files s (d @ [''server.key'']) = Some old \<Longrightarrow>
      \<exists>caKey caDER srvKey srvDER w u. generate cr time hs validity w = (Inr (caKey, caDER, srvKey, srvDER), u) \<and>
        files t (d @ [''server.crt'']) = Some (x_pemEncode cr ''CERTIFICATE'' srvDER) \<and>
        files t (d @ [''server.key'']) = Some old \<and> serving_ready cr time hs d (fs_root t) \<and> fs_cwd t = fs_cwd s \<and> dir \<noteq> []"
proof -
  note names' = ensureLoopback_names [OF laws names, folded hs_def]
  have "\<forall>e. r \<noteq> Inl (MkdirErr e)" "0 < validity" using r v by auto
  note cs = EnsureServerCert_cases [OF run this, folded d_def hs_def]
  show "serving_ready cr time hs d (fs_root t)" if "r = Inr ()"
  proof (rule cs)
    fix w assume "issue cr time hs validity (d @ [''ca.crt'']) (d @ [''ca.key'']) (d @ [''server.crt'']) (d @ [''server.key'']) w = (r, t)"
    then show ?thesis
    proof (rule issue_last)
      fix caKey caDER srvKey srvDER u x
      assume g: "generate cr time hs validity w = (Inr (caKey, caDER, srvKey, srvDER), u)"
      assume "writePEM cr (d @ [''server.key'']) ''RSA PRIVATE KEY'' (x_MarshalPKCS1PrivateKey cr srvKey) x = (r, t)"
        and "files x = (files w)(d @ [''ca.crt''] \<mapsto> x_pemEncode cr ''CERTIFICATE'' caDER,
          d @ [''ca.key''] \<mapsto> x_pemEncode cr ''RSA PRIVATE KEY'' (x_MarshalPKCS1PrivateKey cr caKey),
          d @ [''server.crt''] \<mapsto> x_pemEncode cr ''CERTIFICATE'' srvDER)"
      with writePEM_Inr(1) [of cr "d @ [''server.key'']"] that
      show ?thesis by (intro issued_ready [OF g _ _ _ _ laws v names']) auto
    qed (use that in simp)
  qed
  show "\<exists>caKey caDER srvKey srvDER w u. generate cr time hs validity w = (Inr (caKey, caDER, srvKey, srvDER), u) \<and>
        files t (d @ [''server.crt'']) = Some (x_pemEncode cr ''CERTIFICATE'' srvDER) \<and>
        files t (d @ [''server.key'']) = Some old \<and> serving_ready cr time hs d (fs_root t) \<and> fs_cwd t = fs_cwd s \<and> dir \<noteq> []"
    if e: "r = Inl (OpenErr (pki_path (fs_cwd s) dir ''server.key'') e)" and old: "files s (d @ [''server.key'']) = Some old"
  proof (rule cs)
    fix w assume dir: "dir \<noteq> []" and w: "files w = files s" "fs_cwd w = fs_cwd s"
      and i: "issue cr time hs validity (d @ [''ca.crt'']) (d @ [''ca.key'']) (d @ [''server.crt'']) (d @ [''server.key'']) w = (r, t)"
    note e' = e [unfolded pki_path_eq [OF dir], folded d_def]
    from i show ?thesis
    proof (rule issue_last)
      fix caKey caDER srvKey srvDER u x
      assume g: "generate cr time hs validity w = (Inr (caKey, caDER, srvKey, srvDER), u)"
        and x: "files x = (files w)(d @ [''ca.crt''] \<mapsto> x_pemEncode cr ''CERTIFICATE'' caDER,
          d @ [''ca.key''] \<mapsto> x_pemEncode cr ''RSA PRIVATE KEY'' (x_MarshalPKCS1PrivateKey cr caKey),
          d @ [''server.crt''] \<mapsto> x_pemEncode cr ''CERTIFICATE'' srvDER)" "fs_cwd x = fs_cwd w"
        and "writePEM cr (d @ [''server.key'']) ''RSA PRIVATE KEY'' (x_MarshalPKCS1PrivateKey cr srvKey) x = (r, t)"
      with e' have t: "files t = files x" "fs_cwd t = fs_cwd x" by (auto dest: writePEM_OpenErr)
      have "serving_ready cr time hs d (fs_root t)"
        using t x w old by (intro issued_ready [OF g _ _ _ _ laws v names']) auto
      moreover have "files t (d @ [''server.crt'']) = Some (x_pemEncode cr ''CERTIFICATE'' srvDER)"
        "files t (d @ [''server.key'']) = Some old" "fs_cwd t = fs_cwd s" using t x w old by auto
      ultimately show ?thesis using g dir by blast
    qed (use e' in auto)
  qed (use e in simp)
qed

lemma EnsureServerCert_cwd:
  assumes "EnsureServerCert cr time dir hosts validity s = (Inr (), t)" and "0 < validity"
  shows "fs_cwd t = fs_cwd s"
  using assms(1) _ assms(2)
proof (rule EnsureServerCert_cases)
  let ?d = "join_path (fs_cwd s) [dir]"
  fix u assume u: "fs_cwd u = fs_cwd s"
    and i: "issue cr time (ensureLoopback cr hosts) validity (?d @ [''ca.crt'']) (?d @ [''ca.key'']) (?d @ [''server.crt'']) (?d @ [''server.key'']) u = (Inr (), t)"
  from i show ?thesis by (rule issue_last) (use u in \<open>auto dest: writePEM_Inr(2)\<close>)
qed auto

text \<open>Without faults, good material is kept as it is.\<close>

lemma fileExists_no_fault: "fs_faults s = [] \<Longrightarrow> exists_at (fs_root s) p \<Longrightarrow> fileExists p s = (Inr True, s)"
  by (auto simp: fileExists_def os_stat_def query_no_fault exists_at_iff sbind_def attempt_def)

lemma keep_existing_no_fault:
  assumes "fs_faults s = []" and "serving_ready cr time hosts d (fs_root s)"
  shows "keep_existing cr time hosts (d @ [''ca.crt'']) (d @ [''ca.key'']) (d @ [''server.crt'']) (d @ [''server.key'']) s = (Inr True, s)"
proof -
  from assms(2) obtain ca srv where "cert_file cr (files s) (d @ [''ca.crt'']) = Some ca"
    "cert_file cr (files s) (d @ [''server.crt'']) = Some srv" "certs_valid cr time hosts ca srv"
    "exists_at (fs_root s) (d @ [''ca.key''])" "exists_at (fs_root s) (d @ [''server.key''])"
    by (auto simp: serving_ready_def split: option.splits)
  with assms(1) show ?thesis
    by (simp add: keep_existing_def existingValid_def load_cert_no_fault fileExists_no_fault sbind_def attempt_def)
qed

lemma existing_dir:
  assumes "file_at n (d @ [x]) = Some b"
  obtains n' where "mkdirs_at d n = Inr n'" "\<And>q. exists_at n q \<Longrightarrow> exists_at n' q" "file_at n' = file_at n"
proof -
  have "file_at n q = None" if "prefix q d" for q
  proof (rule ccontr)
    assume "file_at n q \<noteq> None"
    then obtain c where "node_at n q = Inr (File c)" by (auto simp: file_at_def split: sum.splits node.splits)
    moreover from that obtain z where "d = q @ z" by (auto simp: prefix_def)
    ultimately show False using assms by (simp add: file_at_def node_at_append split: if_split_asm)
  qed
  from mkdirs_ok [OF this] obtain n' where n': "mkdirs_at d n = Inr n'" "\<forall>q. dir_at n' q \<longleftrightarrow> dir_at n q \<or> prefix q d"
    by blast
  then show thesis by (intro that [of n']) (auto simp: exists_at_def file_at_mkdirs fun_eq_iff)
qed

lemma ready_is_kept:
  assumes "fs_faults s = []" and "dir \<noteq> []" and "0 < validity"
    and ready: "serving_ready cr time (ensureLoopback cr hosts) (join_path (fs_cwd s) [dir]) (fs_root s)"
  shows "\<exists>t. EnsureServerCert cr time dir hosts validity s = (Inr (), t) \<and> files t = files s \<and> pk_seed t = pk_seed s"
proof -
  let ?d = "join_path (fs_cwd s) [dir]"
  from ready obtain b where "files s (?d @ [''ca.crt'']) = Some b"
    by (auto simp: serving_ready_def cert_file_def split: option.splits)
  then obtain n where n: "mkdirs_at ?d (fs_root s) = Inr n" "file_at n = files s" "\<And>q. exists_at (fs_root s) q \<Longrightarrow> exists_at n q"
    using existing_dir by metis
  let ?s = "s\<lparr>fs_root := n\<rparr>"
  have "serving_ready cr time (ensureLoopback cr hosts) ?d (fs_root ?s)"
    using ready n(2,3) by (auto simp: serving_ready_def)
  from keep_existing_no_fault [OF _ this] assms(1) n(1) assms(2,3)
  have "EnsureServerCert cr time dir hosts validity s = (Inr (), ?s)"
    by (simp add: EnsureServerCert_def os_mkdir_all_def change_no_fault pki_path_eq Let_def sbind_def map_err_def)
  with n(2) show ?thesis by simp
qed

section \<open>Properties\<close>

text \<open>
  C32: After a run that returns no error, with a validity of at least 61 seconds, the directory holds an
  authority and a serving certificate that verifies against it now, for every requested host, for
  \<open>localhost\<close> and for a loopback address, and both key files exist.
\<close>

theorem serving_certificate_is_ready:
  assumes "EnsureServerCert cr time dir hosts validity s = (Inr (), t)" and "x509_laws cr vn"
    and "pki_minute + 1000000000 \<le> validity" and "\<forall>h \<in> set hosts. x_ParseIP cr h = None \<longrightarrow> vn h"
  shows "serving_ready cr time (ensureLoopback cr hosts) (join_path (fs_cwd s) [dir]) (fs_root t) \<and>
    set hosts \<union> {''localhost''} \<subseteq> set (ensureLoopback cr hosts) \<and>
    (\<exists>h \<in> set (ensureLoopback cr hosts). loopback_host cr h)"
proof -
  have "loopback_host cr ''127.0.0.1''" using assms(2) by (simp add: loopback_host_def x509_laws_def)
  then have "set hosts \<union> {''localhost''} \<subseteq> set (ensureLoopback cr hosts)"
    "\<exists>h \<in> set (ensureLoopback cr hosts). loopback_host cr h" by (auto simp: ensureLoopback_eq)
  with EnsureServerCert_issued(1) [OF assms(1) _ assms(2-4)] show ?thesis by simp
qed

text \<open>
  A run on a directory whose material is good for the hosts now changes no file and draws no
  randomness.
\<close>

theorem good_material_is_untouched:
  assumes "fs_faults s = []" and "dir \<noteq> []" and "0 < validity"
    and "serving_ready cr time (ensureLoopback cr hosts) (join_path (fs_cwd s) [dir]) (fs_root s)"
  shows "\<exists>t. EnsureServerCert cr time dir hosts validity s = (Inr (), t) \<and> files t = files s \<and> pk_seed t = pk_seed s"
  using assms by (rule ready_is_kept)

text \<open>
  C33: A run that issues new material and cannot open \<open>server.key\<close> leaves the new certificate beside the old
  key, and the next run, without faults, reports success and keeps that pair.
\<close>

theorem mismatched_key_is_kept:
  assumes "EnsureServerCert cr time dir hosts validity s = (Inl (OpenErr (pki_path (fs_cwd s) dir ''server.key'') e), t)"
    and "files s (pki_path (fs_cwd s) dir ''server.key'') = Some old" and "x509_laws cr vn"
    and "pki_minute + 1000000000 \<le> validity" and "\<forall>h \<in> set hosts. x_ParseIP cr h = None \<longrightarrow> vn h"
  shows "\<exists>u caKey caDER srvKey srvDER w w'. EnsureServerCert cr time dir hosts validity (t\<lparr>fs_faults := []\<rparr>) = (Inr (), u) \<and>
    generate cr time (ensureLoopback cr hosts) validity w = (Inr (caKey, caDER, srvKey, srvDER), w') \<and>
    files u (pki_path (fs_cwd s) dir ''server.crt'') = Some (x_pemEncode cr ''CERTIFICATE'' srvDER) \<and>
    files u (pki_path (fs_cwd s) dir ''server.key'') = Some old"
proof -
  have dir: "dir \<noteq> []" using assms(1) by (auto simp: EnsureServerCert_def split: if_splits)
  note p = pki_path_eq [OF dir]
  obtain caKey caDER srvKey srvDER w w' where
    g: "generate cr time (ensureLoopback cr hosts) validity w = (Inr (caKey, caDER, srvKey, srvDER), w')" and
    f: "files t (pki_path (fs_cwd s) dir ''server.crt'') = Some (x_pemEncode cr ''CERTIFICATE'' srvDER)"
      "files t (pki_path (fs_cwd s) dir ''server.key'') = Some old" and
    ready: "serving_ready cr time (ensureLoopback cr hosts) (join_path (fs_cwd s) [dir]) (fs_root t)" "fs_cwd t = fs_cwd s"
    using EnsureServerCert_issued(2) [OF assms(1) _ assms(3-5) refl] assms(2) unfolding p by blast
  from ready_is_kept [of "t\<lparr>fs_faults := []\<rparr>" dir validity cr time hosts] ready dir assms(4)
  obtain u where "EnsureServerCert cr time dir hosts validity (t\<lparr>fs_faults := []\<rparr>) = (Inr (), u)" "files u = files t"
    by auto
  with g f show ?thesis by metis
qed

text \<open>
  A validity of a minute or less is accepted, but the certificates it gives are expired: the minute is
  taken off the start of the validity and so off its end.
\<close>

lemma short_validity_is_expired:
  assumes g: "generate cr time hosts validity s = (Inr (caKey, caDER, srvKey, srvDER), t)" and laws: "x509_laws cr vn"
    and v: "validity \<le> pki_minute" and "x_ParseCertificate cr caDER = Inr ca" and "time < now"
  shows "\<not> certs_valid cr now hosts ca srv"
proof -
  from g obtain r caTm where c: "x_CreateCertificate cr r caTm (Inl caTm) caKey caKey = Inr caDER"
    and tm: "ct_DNSNames caTm = []" "ct_NotAfter caTm = time - pki_minute + validity"
    by (auto simp: generate_def Let_def sbind_Inr_iff split_hosts_eq)
  from laws_create [OF laws c] tm assms(4) have "x_NotAfter cr ca = whole (time - pki_minute + validity)"
    by (auto simp: covers_def)
  with v assms(5) whole_bounds(1) [of "time - pki_minute + validity"] show ?thesis by (simp add: certs_valid_def)
qed

section \<open>An instance\<close>

text \<open>Two certificates, told apart by whether they are the authority's, valid for the first year.\<close>

definition demo_x509 :: "(nat, bool) x509" where
  "demo_x509 =
     \<lparr>x_GenerateKey = Inr, x_Serial = (\<lambda>r. Some (int r)),
      x_CreateCertificate = (\<lambda>r tm par k k'.
        if ct_NotBefore tm = 0 \<and> ct_NotAfter tm = 31536000000000000 \<and>
           list_all (\<lambda>h. h = ''localhost'') (ct_DNSNames tm) \<and> list_all (\<lambda>h. h = ''127.0.0.1'') (ct_IPAddresses tm)
        then Inr (if ct_IsCA tm then ''ca'' else ''server'') else Inl ''refused''),
      x_ParseCertificate = (\<lambda>b. if b = ''ca'' then Inr True else if b = ''server'' then Inr False else Inl ''malformed''),
      x_NotBefore = (\<lambda>c. 0), x_NotAfter = (\<lambda>c. 31536000000000000), x_Verify = (\<lambda>ca c now. ca),
      x_VerifyHostname = (\<lambda>c h. h \<in> {''localhost'', ''127.0.0.1''}),
      x_MarshalPKCS1PrivateKey = (\<lambda>k. ''key''), x_pemEncode = (\<lambda>typ b. b), x_pemDecode = Some,
      x_ParseIP = (\<lambda>h. if h = ''127.0.0.1'' then Some h else None), x_IsLoopback = (\<lambda>ip. ip = ''127.0.0.1'')\<rparr>"

lemma demo_laws: "x509_laws demo_x509 (\<lambda>h. h = ''localhost'')"
  unfolding x509_laws_def
  by (intro conjI allI impI)
    (auto simp: demo_x509_def covers_def whole_def list_all_iff split: if_splits)

definition demo_run :: "(string \<times> node) list \<Rightarrow> fault list \<Rightarrow> (pki_error + unit) \<times> pki_state" where
  "demo_run pki faults =
     EnsureServerCert demo_x509 60000000000 ''/pki'' [''localhost''] 31536000000000000
       \<lparr>fs_root = Dir [(''pki'', Dir pki)], fs_cwd = [], fs_faults = faults, pk_seed = 0\<rparr>"

lemma demo_first_run: "demo_run [] [] = (Inr (), snd (demo_run [] []))"
proof -
  have "fst (demo_run [] []) = Inr ()" by code_simp
  then show ?thesis by (metis prod.collapse)
qed

lemma demo_paths: "join_path [] [''/pki''] = [''pki'']" "pki_path [] ''/pki'' ''server.key'' = [''pki'', ''server.key'']"
  by code_simp+

theorem serving_certificate_is_ready_witness:
  "serving_ready demo_x509 60000000000 (ensureLoopback demo_x509 [''localhost'']) [''pki''] (fs_root (snd (demo_run [] [])))"
  using serving_certificate_is_ready [OF demo_first_run [unfolded demo_run_def] demo_laws]
  by (simp add: demo_run_def demo_paths)

text \<open>Half an hour later the same request finds the material good.\<close>

theorem good_material_is_untouched_witness:
  "\<exists>t. EnsureServerCert demo_x509 1800000000000 ''/pki'' [''localhost''] 31536000000000000 (snd (demo_run [] [])) = (Inr (), t) \<and>
    files t = files (snd (demo_run [] [])) \<and> pk_seed t = pk_seed (snd (demo_run [] []))"
proof (rule good_material_is_untouched)
  show "fs_faults (snd (demo_run [] [])) = []" by code_simp
  show "serving_ready demo_x509 1800000000000 (ensureLoopback demo_x509 [''localhost''])
      (join_path (fs_cwd (snd (demo_run [] []))) [''/pki'']) (fs_root (snd (demo_run [] [])))" by code_simp
qed simp_all

text \<open>The fourth file is not opened: the calls before it are one directory, one read and four on each file.\<close>

lemma demo_torn_run:
  "demo_run [(''server.key'', File ''old'')] (replicate 14 NoFault @ [Fault EIO 0]) =
    (Inl (OpenErr [''pki'', ''server.key''] EIO), snd (demo_run [(''server.key'', File ''old'')] (replicate 14 NoFault @ [Fault EIO 0])))"
proof -
  have "fst (demo_run [(''server.key'', File ''old'')] (replicate 14 NoFault @ [Fault EIO 0])) =
    Inl (OpenErr [''pki'', ''server.key''] EIO)" by code_simp
  then show ?thesis by (metis prod.collapse)
qed

theorem mismatched_key_is_kept_witness:
  "\<exists>u caKey caDER srvKey srvDER w w'.
    EnsureServerCert demo_x509 60000000000 ''/pki'' [''localhost''] 31536000000000000
      (snd (demo_run [(''server.key'', File ''old'')] (replicate 14 NoFault @ [Fault EIO 0])) \<lparr>fs_faults := []\<rparr>) = (Inr (), u) \<and>
    generate demo_x509 60000000000 (ensureLoopback demo_x509 [''localhost'']) 31536000000000000 w = (Inr (caKey, caDER, srvKey, srvDER), w') \<and>
    files u [''pki'', ''server.crt''] = Some (x_pemEncode demo_x509 ''CERTIFICATE'' srvDER) \<and>
    files u [''pki'', ''server.key''] = Some ''old''"
proof -
  have p: "pki_path [] ''/pki'' ''server.crt'' = [''pki'', ''server.crt'']" by code_simp
  show ?thesis
    using mismatched_key_is_kept [of demo_x509 60000000000 "''/pki''" "[''localhost'']" 31536000000000000
        "\<lparr>fs_root = Dir [(''pki'', Dir [(''server.key'', File ''old'')])], fs_cwd = [],
          fs_faults = replicate 14 NoFault @ [Fault EIO 0], pk_seed = 0\<rparr>" EIO _ "''old''", OF _ _ demo_laws]
      demo_torn_run
    by (simp add: demo_run_def demo_paths p)
qed

end
