(* ===== verification/Startup.thy ===== *)
theory Startup
  imports Pki
begin

text \<open>
  Start-up of the API server: \<open>WaitForReady\<close> of \<open>internal/apiserver/apiserver.go\<close>, and the preparation of
  the disk by \<open>run\<close> of \<open>cmd/apiserver/main.go\<close>: directories, certificates, kubeconfig. client-go is a
  parameter.
\<close>

section \<open>WaitForReady\<close>

text \<open>
  Times are nanoseconds. A dial at a time tells whether the server accepted and how long it took; the
  context has an error from its cancellation on. Only dialling and sleeping take time.
\<close>

abbreviation millisecond :: int where
  "millisecond \<equiv> 1000000"

function wait_loop ::
  "(int \<Rightarrow> bool \<times> nat) \<Rightarrow> (int \<Rightarrow> string option) \<Rightarrow> string \<Rightarrow> int \<Rightarrow> int \<Rightarrow> (string + unit) \<times> int" where
  "wait_loop dial ctxErr addr deadline now =
     (if now < deadline then
        (case ctxErr now of
           Some e \<Rightarrow> (Inl e, now)
         | None \<Rightarrow>
             (case dial now of
                (True, d) \<Rightarrow> (Inr (), now + int d)
              | (False, d) \<Rightarrow> wait_loop dial ctxErr addr deadline (now + int d + 200 * millisecond)))
      else (Inl (''apiserver at '' @ addr @ '' not ready''), now))"
  by pat_completeness auto

termination by (relation "measure (\<lambda>(_, _, _, deadline, now). nat (deadline - now))") auto

definition WaitForReady ::
  "(int \<Rightarrow> bool \<times> nat) \<Rightarrow> (int \<Rightarrow> string option) \<Rightarrow> string \<Rightarrow> int \<Rightarrow> int \<Rightarrow> (string + unit) \<times> int" where
  "WaitForReady dial ctxErr addr timeout now = wait_loop dial ctxErr addr (now + timeout) now"

declare wait_loop.simps [simp del]

lemma wait_loop_step:
  "now < deadline \<Longrightarrow> ctxErr now = None \<Longrightarrow> \<not> fst (dial now) \<Longrightarrow> wait_loop dial ctxErr addr deadline now =
     wait_loop dial ctxErr addr deadline (now + int (snd (dial now)) + 200 * millisecond)"
  by (cases "dial now") (simp add: wait_loop.simps [of dial ctxErr addr deadline now])

lemma wait_loop_end:
  "deadline \<le> now \<Longrightarrow> wait_loop dial ctxErr addr deadline now = (Inl (''apiserver at '' @ addr @ '' not ready''), now)"
  "now < deadline \<Longrightarrow> ctxErr now = Some e \<Longrightarrow> wait_loop dial ctxErr addr deadline now = (Inl e, now)"
  "now < deadline \<Longrightarrow> ctxErr now = None \<Longrightarrow> fst (dial now) \<Longrightarrow>
    wait_loop dial ctxErr addr deadline now = (Inr (), now + int (snd (dial now)))"
  by (cases "dial now"; simp add: wait_loop.simps [of dial ctxErr addr deadline now])+

text \<open>An iteration ends the loop, or the next starts after at least 200 and at most 700 milliseconds.\<close>

lemma wait_loop_cases [consumes 1, case_names late cancelled accepted again]:
  assumes "int (snd (dial now)) \<le> 500 * millisecond"
  obtains "deadline \<le> now" | e where "now < deadline" "ctxErr now = Some e"
    | "now < deadline" "ctxErr now = None" "fst (dial now)"
    | next_try where "now < deadline" "ctxErr now = None" "\<not> fst (dial now)"
      "wait_loop dial ctxErr addr deadline now = wait_loop dial ctxErr addr deadline next_try"
      "now + 200 * millisecond \<le> next_try" "next_try \<le> now + 700 * millisecond"
  using assms by (cases "ctxErr now"; cases "now < deadline"; cases "fst (dial now)") (auto simp: wait_loop_step)

lemma wait_loop_bounded:
  assumes d: "\<And>t. int (snd (dial t)) \<le> 500 * millisecond" and "wait_loop dial ctxErr addr deadline now = (r, t)"
  shows "now \<le> t \<and> (t = now \<or> t < deadline + 700 * millisecond)"
  using assms(2)
proof (induction "nat (deadline - now)" arbitrary: now rule: less_induct)
  case less
  from d [of now] show ?case
  proof (cases rule: wait_loop_cases [where deadline = deadline and ctxErr = ctxErr and addr = addr])
    case (again n)
    with less.prems have "wait_loop dial ctxErr addr deadline n = (r, t)" by simp
    with less.hyps [of n] again show ?thesis by auto
  qed (use less.prems d [of now] in \<open>auto simp: wait_loop_end\<close>)
qed

lemma wait_loop_finds:
  assumes d: "\<And>t. int (snd (dial t)) \<le> 500 * millisecond" and up: "\<And>t. up \<le> t \<Longrightarrow> fst (dial t)"
    and c: "\<And>t. ctxErr t = None" and "up + 700 * millisecond < deadline" and "now \<le> up + 700 * millisecond"
  shows "\<exists>t. wait_loop dial ctxErr addr deadline now = (Inr (), t) \<and> t \<le> up + 1200 * millisecond"
  using assms(5)
proof (induction "nat (deadline - now)" arbitrary: now rule: less_induct)
  case less
  from d [of now] show ?case
  proof (cases rule: wait_loop_cases [where deadline = deadline and ctxErr = ctxErr and addr = addr])
    case accepted
    with less.prems d [of now] show ?thesis by (auto simp: wait_loop_end)
  next
    case (again n)
    with up [of now] have "now < up" by (cases "up \<le> now") auto
    with again less.hyps [of n] show ?thesis by auto
  qed (use less.prems assms(4) c in auto)
qed

text \<open>
  C35: Waiting ends, whatever the server does: at the latest 700 milliseconds after the deadline. If
  the server accepts connections from some moment on that is more than 700 milliseconds before the
  deadline and the context is not cancelled, the wait succeeds within 1.2 seconds of that moment.
\<close>

theorem waiting_ends:
  assumes "\<And>t. int (snd (dial t)) \<le> 500 * millisecond" and "0 < timeout"
  shows "(\<exists>r t. WaitForReady dial ctxErr addr timeout now = (r, t) \<and> now \<le> t \<and> t < now + timeout + 700 * millisecond) \<and>
    (now \<le> up \<and> up + 700 * millisecond < now + timeout \<and> (\<forall>t \<ge> up. fst (dial t)) \<and> (\<forall>t. ctxErr t = None) \<longrightarrow>
      (\<exists>t. WaitForReady dial ctxErr addr timeout now = (Inr (), t) \<and> t \<le> up + 1200 * millisecond))"
proof (intro conjI impI)
  obtain r t where "WaitForReady dial ctxErr addr timeout now = (r, t)" by fastforce
  with wait_loop_bounded [OF assms(1)] assms(2)
  show "\<exists>r t. WaitForReady dial ctxErr addr timeout now = (r, t) \<and> now \<le> t \<and> t < now + timeout + 700 * millisecond"
    by (fastforce simp: WaitForReady_def)
qed (use wait_loop_finds [OF assms(1), of up] in \<open>auto simp: WaitForReady_def\<close>)

theorem waiting_ends_witness:
  "\<exists>t. WaitForReady (\<lambda>t. (2000000000 \<le> t, 1000000)) (\<lambda>t. None) ''127.0.0.1:6443'' 5000000000 0 = (Inr (), t) \<and>
    t \<le> 3200000000"
  using waiting_ends [of "\<lambda>t. (2000000000 \<le> t, 1000000)" 5000000000 "\<lambda>t. None" "''127.0.0.1:6443''" 0 2000000000] by simp

section \<open>The disk before the server is built\<close>

definition patch_auth_info :: "auth_info \<Rightarrow> auth_info" where
  "patch_auth_info ai =
     (if ai_Username ai = [] \<and> ai_Token ai = [] \<and> length (ai_ClientCertificateData ai) = 0 \<and>
         ai_ClientCertificate ai = [] \<and> ai_AuthProvider ai = None \<and> ai_Exec ai = None
      then ai\<lparr>ai_Username := ''anonymous''\<rparr> else ai)"

definition patchKubeconfigForAnonymous :: "clientcmd \<Rightarrow> string \<Rightarrow> (pki_state, string, unit) sem" where
  "patchKubeconfigForAnonymous cc p =
     sbind (cc_LoadFromFile cc p) (\<lambda>cfg.
     cc_WriteToFile cc (cfg\<lparr>kc_authInfos := map (\<lambda>(n, ai). (n, patch_auth_info ai)) (kc_authInfos cfg)\<rparr>) p)"

datatype start_error = MakeDir os_error | Pki_err pki_error | Kubeconfig_err pki_error | Patch_err string

definition mkdir_all :: "string \<Rightarrow> (pki_state, os_error, unit) sem" where
  "mkdir_all dir = (if dir = [] then throw ENOENT else sbind (gets (\<lambda>s. join_path (fs_cwd s) [dir])) os_mkdir_all)"

definition server_url :: "string \<Rightarrow> int \<Rightarrow> string" where
  "server_url bindAddr bindPort = ''https://'' @ bindAddr @ '':'' @ format_int bindPort"

abbreviation pki_year :: int where
  "pki_year \<equiv> 365 * 24 * 60 * pki_minute"

text \<open>\<open>run\<close> up to the call of \<open>Build\<close>.\<close>

definition prepare ::
  "('k, 'c) x509 \<Rightarrow> clientcmd \<Rightarrow> int \<Rightarrow> string \<Rightarrow> int \<Rightarrow> string \<Rightarrow> string \<Rightarrow> string \<Rightarrow> (pki_state, start_error, unit) sem" where
  "prepare cr cc time bindAddr bindPort certDir dataDir kubeconfigOut =
     sbind (map_err MakeDir (mkdir_all certDir)) (\<lambda>_.
     sbind (map_err MakeDir (mkdir_all dataDir)) (\<lambda>_.
     let hosts = [bindAddr, ''127.0.0.1'', ''localhost''] in
     sbind (map_err Pki_err (EnsureServerCert cr time certDir hosts pki_year)) (\<lambda>_.
     let server = server_url bindAddr bindPort in
     sbind (gets (\<lambda>s. pki_path (fs_cwd s) certDir ''ca.crt'')) (\<lambda>caPath.
     sbind (map_err Kubeconfig_err (WriteKubeconfig cc kubeconfigOut server caPath)) (\<lambda>_.
     map_err Patch_err (patchKubeconfigForAnonymous cc kubeconfigOut))))))"

text \<open>
  What client-go is relied on for: a configuration that is minimal already is not changed by minifying,
  \<open>WriteToFile\<close> writes the encoded configuration to its file and touches no other, and \<open>LoadFromFile\<close>
  gives back a configuration so written (names are keys of Go maps), changing nothing.
\<close>

definition named_once :: "kubeconfig \<Rightarrow> bool" where
  "named_once cfg \<longleftrightarrow> distinct (map fst (kc_clusters cfg)) \<and> distinct (map fst (kc_contexts cfg)) \<and>
     distinct (map fst (kc_authInfos cfg))"

definition minimal_config :: "kubeconfig \<Rightarrow> bool" where
  "minimal_config cfg \<longleftrightarrow>
     (case (kc_contexts cfg, kc_clusters cfg, kc_authInfos cfg) of
        ([(n, c, a)], [(c', _)], [(a', _)]) \<Rightarrow> n = kc_current cfg \<and> c' = c \<and> a' = a
      | _ \<Rightarrow> False)"

definition clientcmd_laws :: "clientcmd \<Rightarrow> (kubeconfig \<Rightarrow> bytes) \<Rightarrow> bool" where
  "clientcmd_laws cc enc \<longleftrightarrow>
     (\<forall>cfg cfg'. cc_MinifyConfig cc cfg = Inr cfg' \<and> minimal_config cfg \<longrightarrow> cfg' = cfg) \<and>
     (\<forall>cfg p s t. cc_WriteToFile cc cfg p s = (Inr (), t) \<longrightarrow>
        files t = (files s)(join_path (fs_cwd s) [p] \<mapsto> enc cfg) \<and> fs_cwd t = fs_cwd s \<and>
        (\<forall>q. dir_at (fs_root s) q \<longrightarrow> dir_at (fs_root t) q)) \<and>
     (\<forall>cfg cfg' p s t. cc_LoadFromFile cc p s = (Inr cfg', t) \<and> named_once cfg \<and>
        files s (join_path (fs_cwd s) [p]) = Some (enc cfg) \<longrightarrow>
        cfg' = cfg \<and> fs_root t = fs_root s \<and> fs_cwd t = fs_cwd s)"

lemma laws_write:
  "clientcmd_laws cc enc \<Longrightarrow> cc_WriteToFile cc cfg p s = (Inr (), t) \<Longrightarrow>
    files t = (files s)(join_path (fs_cwd s) [p] \<mapsto> enc cfg) \<and> fs_cwd t = fs_cwd s \<and>
    (\<forall>q. dir_at (fs_root s) q \<longrightarrow> dir_at (fs_root t) q)"
  unfolding clientcmd_laws_def by blast

lemma laws_load:
  "clientcmd_laws cc enc \<Longrightarrow> cc_LoadFromFile cc p s = (Inr cfg', t) \<Longrightarrow> named_once cfg \<Longrightarrow>
    files s (join_path (fs_cwd s) [p]) = Some (enc cfg) \<Longrightarrow> cfg' = cfg \<and> fs_root t = fs_root s \<and> fs_cwd t = fs_cwd s"
  unfolding clientcmd_laws_def by blast

lemma laws_minify: "clientcmd_laws cc enc \<Longrightarrow> cc_MinifyConfig cc cfg = Inr cfg' \<Longrightarrow> minimal_config cfg \<Longrightarrow> cfg' = cfg"
  unfolding clientcmd_laws_def by blast

lemma experiment_config_wf: "named_once (experiment_config server ca)" "minimal_config (experiment_config server ca)"
  by (simp_all add: named_once_def minimal_config_def experiment_config_def)

lemma dirs_mkdirs: "mkdirs_at p n = Inr n' \<Longrightarrow> dir_at n q \<Longrightarrow> dir_at n' q"
proof (induction p n arbitrary: n' q rule: mkdirs_at.induct)
  case (3 c cs es)
  then show ?case by (cases q) (auto simp: map_of_ins split: option.splits sum.splits)
qed auto

lemma mkdir_all_dirs:
  assumes "os_mkdir_all d s = (Inr u, t)"
  shows "dir_at (fs_root s) q \<Longrightarrow> dir_at (fs_root t) q"
  using assms unfolding os_mkdir_all_def by (auto dest!: change_Inr intro: dirs_mkdirs)

definition anonymous_config :: "string \<Rightarrow> bytes \<Rightarrow> kubeconfig" where
  "anonymous_config server ca =
     (experiment_config server ca)\<lparr>kc_authInfos := [(''anonymous'', empty_auth_info\<lparr>ai_Username := ''anonymous''\<rparr>)]\<rparr>"

lemma WriteKubeconfig_Inr:
  assumes "WriteKubeconfig cc p server caPath s = (Inr (), t)" and laws: "clientcmd_laws cc enc"
  obtains ca where "files s caPath = Some ca"
    "files t = (files s)(join_path (fs_cwd s) [p] \<mapsto> enc (experiment_config server ca))" "fs_cwd t = fs_cwd s"
    "\<And>q. dir_at (fs_root s) q \<Longrightarrow> dir_at (fs_root t) q"
proof -
  from assms(1) obtain ca s1 cfg s2 where 1: "os_read_file caPath s = (Inr ca, s1)"
    and m: "cc_MinifyConfig cc (experiment_config server ca) = Inr cfg"
    and 2: "os_mkdir_all (filepath_Dir (fs_cwd s1) p) s1 = (Inr (), s2)" and 3: "cc_WriteToFile cc cfg p s2 = (Inr (), t)"
    by (auto simp: WriteKubeconfig_def sbind_Inr_iff Let_def)
  from os_read_file_Inr [OF 1] have "files s caPath = Some ca" by simp
  moreover have "fs_root s1 = fs_root s" "fs_cwd s1 = fs_cwd s"
    using preservesD [OF preserves_disk(1) same_disk_refl 1] by (simp_all add: same_disk_def)
  moreover have "cfg = experiment_config server ca" using laws_minify [OF laws m experiment_config_wf(2)] .
  ultimately show thesis
    using that [of ca] mkdir_pki [OF 2] mkdir_all_dirs [OF 2] laws_write [OF laws 3] by auto
qed

lemma patch_Inr:
  assumes "patchKubeconfigForAnonymous cc p s = (Inr (), t)" and laws: "clientcmd_laws cc enc"
    and "files s (join_path (fs_cwd s) [p]) = Some (enc (experiment_config server ca))"
  shows "files t = (files s)(join_path (fs_cwd s) [p] \<mapsto> enc (anonymous_config server ca))"
    "fs_cwd t = fs_cwd s" "\<And>q. dir_at (fs_root s) q \<Longrightarrow> dir_at (fs_root t) q"
proof -
  from assms(1) obtain cfg s1 where 1: "cc_LoadFromFile cc p s = (Inr cfg, s1)"
    and 2: "cc_WriteToFile cc (cfg\<lparr>kc_authInfos := map (\<lambda>(n, ai). (n, patch_auth_info ai)) (kc_authInfos cfg)\<rparr>) p s1 = (Inr (), t)"
    by (auto simp: patchKubeconfigForAnonymous_def sbind_Inr_iff)
  note l = laws_load [OF laws 1 experiment_config_wf(1) assms(3)]
  have "cfg\<lparr>kc_authInfos := map (\<lambda>(n, ai). (n, patch_auth_info ai)) (kc_authInfos cfg)\<rparr> = anonymous_config server ca"
    using l by (simp add: anonymous_config_def experiment_config_def patch_auth_info_def empty_auth_info_def)
  with laws_write [OF laws 2] l
  show "files t = (files s)(join_path (fs_cwd s) [p] \<mapsto> enc (anonymous_config server ca))"
    "fs_cwd t = fs_cwd s" "\<And>q. dir_at (fs_root s) q \<Longrightarrow> dir_at (fs_root t) q" by auto
qed

lemma serving_ready_mono:
  assumes "serving_ready cr now hosts d n" and "\<And>q. dir_at n q \<Longrightarrow> dir_at n' q"
    and "\<forall>f \<in> {''ca.crt'', ''ca.key'', ''server.crt'', ''server.key''}. file_at n' (d @ [f]) = file_at n (d @ [f])"
  shows "serving_ready cr now hosts d n'"
  using assms by (auto simp: serving_ready_def cert_file_def exists_at_def)

lemma mkdir_all_Inr: "mkdir_all dir s = (Inr (), t) \<Longrightarrow> fs_cwd t = fs_cwd s \<and> dir \<noteq> []"
  by (auto simp: mkdir_all_def sbind_Inr_iff dest: mkdir_pki(2) split: if_splits)

lemma prepare_Inr:
  assumes run: "prepare cr cc time bindAddr bindPort certDir dataDir kubeconfigOut s = (Inr (), t)"
    and x: "x509_laws cr vn" and laws: "clientcmd_laws cc enc" and "x_ParseIP cr bindAddr = None \<longrightarrow> vn bindAddr"
  defines "d \<equiv> join_path (fs_cwd s) [certDir]" and "k \<equiv> join_path (fs_cwd s) [kubeconfigOut]"
  assumes k: "k \<notin> (\<lambda>f. d @ [f]) ` {''ca.crt'', ''ca.key'', ''server.crt'', ''server.key''}"
  shows "fs_cwd t = fs_cwd s \<and> serving_ready cr time (ensureLoopback cr [bindAddr, ''127.0.0.1'', ''localhost'']) d (fs_root t) \<and>
    (\<exists>ca. files t (d @ [''ca.crt'']) = Some ca \<and>
       files t k = Some (enc (anonymous_config (server_url bindAddr bindPort) ca)))"
proof -
  from run obtain s1 s2 s3 s4 where 1: "mkdir_all certDir s = (Inr (), s1)" and 2: "mkdir_all dataDir s1 = (Inr (), s2)"
    and 3: "EnsureServerCert cr time certDir [bindAddr, ''127.0.0.1'', ''localhost''] pki_year s2 = (Inr (), s3)"
    and 4: "WriteKubeconfig cc kubeconfigOut (server_url bindAddr bindPort) (pki_path (fs_cwd s3) certDir ''ca.crt'') s3 = (Inr (), s4)"
    and 5: "patchKubeconfigForAnonymous cc kubeconfigOut s4 = (Inr (), t)"
    by (auto simp: prepare_def sbind_Inr_iff Let_def)
  have cwd: "fs_cwd s2 = fs_cwd s" and dir: "certDir \<noteq> []" using mkdir_all_Inr [OF 1] mkdir_all_Inr [OF 2] by auto
  from EnsureServerCert_cwd [OF 3] cwd have cwd3: "fs_cwd s3 = fs_cwd s" by simp
  have "\<forall>h \<in> set [bindAddr, ''127.0.0.1'', ''localhost'']. x_ParseIP cr h = None \<longrightarrow> vn h"
    using assms(4) laws_loopback [OF x] by simp
  from EnsureServerCert_issued(1) [OF 3 _ x _ this] cwd
  have ready: "serving_ready cr time (ensureLoopback cr [bindAddr, ''127.0.0.1'', ''localhost'']) d (fs_root s3)"
    by (simp add: d_def)
  from 4 laws obtain ca where ca: "files s3 (d @ [''ca.crt'']) = Some ca"
    and f4: "files s4 = (files s3)(k \<mapsto> enc (experiment_config (server_url bindAddr bindPort) ca))" "fs_cwd s4 = fs_cwd s"
    and d4: "\<And>q. dir_at (fs_root s3) q \<Longrightarrow> dir_at (fs_root s4) q"
    by (rule WriteKubeconfig_Inr) (auto simp: cwd3 pki_path_eq [OF dir] d_def k_def)
  from f4 have "files s4 (join_path (fs_cwd s4) [kubeconfigOut]) = Some (enc (experiment_config (server_url bindAddr bindPort) ca))"
    by (simp add: k_def)
  note p = patch_Inr [OF 5 laws this]
  from p f4 have ft: "files t = (files s3)(k \<mapsto> enc (anonymous_config (server_url bindAddr bindPort) ca))"
    by (simp add: k_def)
  have "serving_ready cr time (ensureLoopback cr [bindAddr, ''127.0.0.1'', ''localhost'']) d (fs_root t)"
    using k by (intro serving_ready_mono [OF ready]) (auto simp: ft dest: d4 intro: p(3))
  with ft ca k p(2) f4(2) show ?thesis by auto
qed

text \<open>
  C34: When the server is built, its disk is ready: the serving certificate is good for the bind address and
  the loopback names, and the kubeconfig names the server's URL, identifies its user and trusts exactly
  the authority that is on disk.
\<close>

theorem kubeconfig_trusts_the_authority:
  assumes run: "prepare cr cc time bindAddr bindPort certDir dataDir kubeconfigOut s = (Inr (), t)"
    and x: "x509_laws cr vn" and laws: "clientcmd_laws cc enc" and "x_ParseIP cr bindAddr = None \<longrightarrow> vn bindAddr"
  defines "d \<equiv> join_path (fs_cwd s) [certDir]" and "k \<equiv> join_path (fs_cwd s) [kubeconfigOut]"
  assumes k: "k \<notin> (\<lambda>f. d @ [f]) ` {''ca.crt'', ''ca.key'', ''server.crt'', ''server.key''}"
  shows "serving_ready cr time (ensureLoopback cr [bindAddr, ''127.0.0.1'', ''localhost'']) d (fs_root t) \<and>
    (\<exists>ca. files t (d @ [''ca.crt'']) = Some ca \<and>
       files t k = Some (enc (anonymous_config (server_url bindAddr bindPort) ca)))"
  using prepare_Inr [OF assms(1-4)] k by (simp add: d_def k_def)

text \<open>An instance of client-go that knows the two configurations of a server on port 80.\<close>

definition demo_encode :: "kubeconfig \<Rightarrow> bytes" where
  "demo_encode cfg =
     (if cfg = experiment_config (server_url ''127.0.0.1'' 80) ''ca'' then ''experiment''
      else if cfg = anonymous_config (server_url ''127.0.0.1'' 80) ''ca'' then ''anonymous'' else ''other'')"

definition demo_clientcmd :: clientcmd where
  "demo_clientcmd =
     \<lparr>cc_MinifyConfig = Inr,
      cc_WriteToFile = (\<lambda>cfg p. sbind (gets (\<lambda>s. join_path (fs_cwd s) [p])) (\<lambda>q.
        map_err (\<lambda>_. ''write'') (sbind (os_create q) (\<lambda>_. f_write q (demo_encode cfg))))),
      cc_LoadFromFile = (\<lambda>p. sbind (gets (\<lambda>s. files s (join_path (fs_cwd s) [p]))) (\<lambda>b.
        if b = Some ''experiment'' then ret (experiment_config (server_url ''127.0.0.1'' 80) ''ca'')
        else if b = Some ''anonymous'' then ret (anonymous_config (server_url ''127.0.0.1'' 80) ''ca'')
        else throw ''load''))\<rparr>"

lemma demo_write:
  assumes "cc_WriteToFile demo_clientcmd cfg p s = (Inr (), t)"
  shows "files t = (files s)(join_path (fs_cwd s) [p] \<mapsto> demo_encode cfg)" "fs_cwd t = fs_cwd s"
    "\<And>q. dir_at (fs_root s) q \<Longrightarrow> dir_at (fs_root t) q"
proof -
  let ?q = "join_path (fs_cwd s) [p]"
  from assms obtain u where 1: "os_create ?q s = (Inr (), u)" and 2: "f_write ?q (demo_encode cfg) u = (Inr (), t)"
    by (auto simp: demo_clientcmd_def sbind_Inr_iff)
  have "same_dirs (dir_at (fs_root s)) s" by (simp add: same_dirs_def)
  from preservesD [OF preserves_dirs(2) preservesD [OF preserves_dirs(1) this 1] 2]
  show "dir_at (fs_root s) q \<Longrightarrow> dir_at (fs_root t) q" for q by (simp add: same_dirs_def)
  show "files t = (files s)(?q \<mapsto> demo_encode cfg)" using os_create_Inr [OF 1] f_write_Inr [OF 2] by simp
  have "fs_cwd (snd (os_create ?q s)) = fs_cwd s" "fs_cwd (snd (f_write ?q (demo_encode cfg) u)) = fs_cwd u"
    by (simp_all add: frame_simps)
  with 1 2 show "fs_cwd t = fs_cwd s" by simp
qed

lemma demo_load:
  "cc_LoadFromFile demo_clientcmd p s = (Inr cfg', t) \<Longrightarrow> files s (join_path (fs_cwd s) [p]) = Some (demo_encode cfg) \<Longrightarrow>
    cfg' = cfg \<and> t = s"
  by (auto simp: demo_clientcmd_def sbind_Inr_iff demo_encode_def split: if_splits)

lemma demo_clientcmd_laws: "clientcmd_laws demo_clientcmd demo_encode"
  unfolding clientcmd_laws_def
  by (intro conjI allI impI; (elim conjE)?; (erule demo_write | drule (1) demo_load)?) (simp_all add: demo_clientcmd_def)

abbreviation demo_start :: pki_state where
  "demo_start \<equiv> \<lparr>fs_root = Dir [], fs_cwd = [], fs_faults = [], pk_seed = 0\<rparr>"

abbreviation demo_prepare :: "(start_error + unit) \<times> pki_state" where
  "demo_prepare \<equiv> prepare demo_x509 demo_clientcmd 60000000000 ''127.0.0.1'' 80 ''/pki'' ''/data'' ''/run/kubeconfig'' demo_start"

lemma demo_prepare_Inr: "demo_prepare = (Inr (), snd demo_prepare)"
proof -
  have "fst demo_prepare = Inr ()" by code_simp
  then show ?thesis by (metis prod.collapse)
qed

theorem kubeconfig_trusts_the_authority_witness:
  "\<exists>ca. files (snd demo_prepare) [''pki'', ''ca.crt''] = Some ca \<and>
    files (snd demo_prepare) [''run'', ''kubeconfig''] = Some (demo_encode (anonymous_config (server_url ''127.0.0.1'' 80) ca))"
proof -
  have p: "join_path [] [''/run/kubeconfig''] = [''run'', ''kubeconfig'']" by code_simp
  show ?thesis
    using kubeconfig_trusts_the_authority [OF demo_prepare_Inr demo_laws demo_clientcmd_laws]
    by (simp add: demo_paths p demo_x509_def)
qed

end
