(* ===== verification/Strategy.thy ===== *)
theory Strategy
  imports Pods "HOL-Library.AList"
begin

text \<open>
  \<open>internal/apiserver/strategy.go\<close>: what the API server does to objects before it stores them, and when
  a deletion is graceful. Objects are the kinds the server knows; the parts of the strategies that
  are third-party code (typer, name generator) do not appear.
\<close>

section \<open>Objects and strategies\<close>

record namespace = object_meta +
  ns_phase :: string
  ns_finalizers :: "string list option"

datatype api_object =
    PodObj pod | NamespaceObj namespace | EventObj kevent | ConfigMapObj configmap | SecretObj secret
  | OtherObj string

text \<open>The text of \<open>%T\<close>; other objects carry it.\<close>

fun go_type :: "api_object \<Rightarrow> string" where
  "go_type (PodObj _) = ''*v1.Pod''"
| "go_type (NamespaceObj _) = ''*v1.Namespace''"
| "go_type (EventObj _) = ''*v1.Event''"
| "go_type (ConfigMapObj _) = ''*v1.ConfigMap''"
| "go_type (SecretObj _) = ''*v1.Secret''"
| "go_type (OtherObj t) = t"

fun phase_text :: "phase \<Rightarrow> string" where
  "phase_text NoPhase = []"
| "phase_text Pending = ''Pending''"
| "phase_text Running = ''Running''"
| "phase_text Succeeded = ''Succeeded''"
| "phase_text Failed = ''Failed''"

record objectStrategy =
  namespaceScoped :: bool
  resetStatus :: "(api_object \<Rightarrow> api_object) option"
  beforeWrite :: "(api_object \<Rightarrow> api_object) option"

definition reset_pod_status :: "api_object \<Rightarrow> api_object" where
  "reset_pod_status obj = (case obj of PodObj p \<Rightarrow> PodObj (p\<lparr>p_status := empty_status\<rparr>) | _ \<Rightarrow> obj)"

definition newPodStrategy :: objectStrategy where
  "newPodStrategy = \<lparr>namespaceScoped = True, resetStatus = Some reset_pod_status, beforeWrite = None\<rparr>"

definition reset_namespace_status :: "api_object \<Rightarrow> api_object" where
  "reset_namespace_status obj =
     (case obj of
        NamespaceObj ns \<Rightarrow>
          NamespaceObj (ns\<lparr>ns_phase := [],
            ns_finalizers := (case ns_finalizers ns of None \<Rightarrow> Some [''kubernetes''] | Some f \<Rightarrow> Some f)\<rparr>)
      | _ \<Rightarrow> obj)"

definition newNamespaceStrategy :: objectStrategy where
  "newNamespaceStrategy = \<lparr>namespaceScoped = False, resetStatus = Some reset_namespace_status, beforeWrite = None\<rparr>"

definition PrepareForCreate :: "objectStrategy \<Rightarrow> api_object \<Rightarrow> api_object" where
  "PrepareForCreate s obj =
     (let obj = (case resetStatus s of Some f \<Rightarrow> f obj | None \<Rightarrow> obj)
      in case beforeWrite s of Some f \<Rightarrow> f obj | None \<Rightarrow> obj)"

definition Validate :: "objectStrategy \<Rightarrow> api_object \<Rightarrow> string list" where
  "Validate s obj = []"

definition WarningsOnCreate :: "objectStrategy \<Rightarrow> api_object \<Rightarrow> string list" where
  "WarningsOnCreate s obj = []"

definition Canonicalize :: "objectStrategy \<Rightarrow> api_object \<Rightarrow> api_object" where
  "Canonicalize s obj = obj"

definition AllowCreateOnUpdate :: "objectStrategy \<Rightarrow> bool" where
  "AllowCreateOnUpdate s = False"

definition PrepareForUpdate :: "objectStrategy \<Rightarrow> api_object \<Rightarrow> api_object \<Rightarrow> api_object" where
  "PrepareForUpdate s obj old = (case beforeWrite s of Some f \<Rightarrow> f obj | None \<Rightarrow> obj)"

definition ValidateUpdate :: "objectStrategy \<Rightarrow> api_object \<Rightarrow> api_object \<Rightarrow> string list" where
  "ValidateUpdate s obj old = []"

definition WarningsOnUpdate :: "objectStrategy \<Rightarrow> api_object \<Rightarrow> api_object \<Rightarrow> string list" where
  "WarningsOnUpdate s obj old = []"

definition AllowUnconditionalUpdate :: "objectStrategy \<Rightarrow> bool" where
  "AllowUnconditionalUpdate s = True"

text \<open>The strategies that embed an \<open>objectStrategy\<close> and override one method of it.\<close>

datatype rest_strategy = ObjectStrategy objectStrategy | PodGraceful objectStrategy | PodStatus objectStrategy

definition newPodGracefulStrategy :: rest_strategy where
  "newPodGracefulStrategy = PodGraceful newPodStrategy"

definition newPodStatusStrategy :: rest_strategy where
  "newPodStatusStrategy = PodStatus newPodStrategy"

definition newEventStrategy :: objectStrategy where
  "newEventStrategy = \<lparr>namespaceScoped = True, resetStatus = None, beforeWrite = None\<rparr>"

definition newConfigDataStrategy :: "bool \<Rightarrow> objectStrategy" where
  "newConfigDataStrategy namespaced = \<lparr>namespaceScoped = namespaced, resetStatus = None, beforeWrite = None\<rparr>"

text \<open>Folding \<open>StringData\<close> into \<open>Data\<close>, key by key.\<close>

definition fold_string_data :: "api_object \<Rightarrow> api_object" where
  "fold_string_data obj =
     (case obj of
        SecretObj sec \<Rightarrow>
          if length (sec_stringData sec) = 0 then obj
          else SecretObj (sec\<lparr>sec_data := fold (\<lambda>(k, v) d. AList.update k v d) (sec_stringData sec) (sec_data sec),
                              sec_stringData := []\<rparr>)
      | _ \<Rightarrow> obj)"

definition newSecretStrategy :: objectStrategy where
  "newSecretStrategy = (newConfigDataStrategy True)\<lparr>beforeWrite := Some fold_string_data\<rparr>"

section \<open>Deletion and the status subresource\<close>

record delete_options =
  GracePeriodSeconds :: "int option"

text \<open>The result with the options as the method leaves them.\<close>

definition CheckGracefulDelete :: "api_object \<Rightarrow> delete_options option \<Rightarrow> bool \<times> delete_options option" where
  "CheckGracefulDelete obj options =
     (case options of
        None \<Rightarrow> (False, None)
      | Some opts \<Rightarrow>
          (case obj of
             PodObj pod \<Rightarrow>
               let period = (case p_gracePeriod pod of Some s \<Rightarrow> s | None \<Rightarrow> 30);
                   opts = (if GracePeriodSeconds opts = None then opts\<lparr>GracePeriodSeconds := Some period\<rparr> else opts)
               in (0 < the (GracePeriodSeconds opts), Some opts)
           | _ \<Rightarrow> (False, Some opts)))"

text \<open>
  The assignments \<open>newPod.Spec = oldPod.Spec\<close> and \<open>newPod.ObjectMeta = oldPod.ObjectMeta\<close>, field by field: a pod's
  record holds the fields of its metadata, of its specification and its status side by side.
\<close>

definition set_spec :: "pod \<Rightarrow> pod \<Rightarrow> pod" where
  "set_spec newPod oldPod =
     newPod\<lparr>p_containers := p_containers oldPod, p_volumes := p_volumes oldPod, p_nodeName := p_nodeName oldPod,
            p_gracePeriod := p_gracePeriod oldPod\<rparr>"

definition set_object_meta :: "pod \<Rightarrow> pod \<Rightarrow> pod" where
  "set_object_meta newPod oldPod =
     newPod\<lparr>p_uid := p_uid oldPod, p_namespace := p_namespace oldPod, p_name := p_name oldPod,
            p_resourceVersion := p_resourceVersion oldPod, p_labels := p_labels oldPod,
            p_creationTimestamp := p_creationTimestamp oldPod, p_deletionTimestamp := p_deletionTimestamp oldPod,
            p_deletionGrace := p_deletionGrace oldPod\<rparr>"

definition podStatus_PrepareForUpdate :: "api_object \<Rightarrow> api_object \<Rightarrow> api_object" where
  "podStatus_PrepareForUpdate obj old =
     (case (obj, old) of
        (PodObj newPod, PodObj oldPod) \<Rightarrow>
          let newPod = set_spec newPod oldPod;
              newPod = set_object_meta newPod oldPod
          in PodObj newPod
      | _ \<Rightarrow> obj)"

text \<open>The methods that the generic store calls, with Go's promotion of embedded methods.\<close>

fun prepare_update :: "rest_strategy \<Rightarrow> api_object \<Rightarrow> api_object \<Rightarrow> api_object" where
  "prepare_update (PodStatus _) obj old = podStatus_PrepareForUpdate obj old"
| "prepare_update (ObjectStrategy s) obj old = PrepareForUpdate s obj old"
| "prepare_update (PodGraceful s) obj old = PrepareForUpdate s obj old"

text \<open>A strategy without \<open>CheckGracefulDelete\<close> is no \<open>RESTGracefulDeleteStrategy\<close>: deletions are immediate.\<close>

fun graceful_delete :: "rest_strategy \<Rightarrow> api_object \<Rightarrow> delete_options option \<Rightarrow> bool" where
  "graceful_delete (PodGraceful _) obj options = fst (CheckGracefulDelete obj options)"
| "graceful_delete (ObjectStrategy _) obj options = False"
| "graceful_delete (PodStatus _) obj options = False"

section \<open>Lemmas\<close>

lemma map_of_fold_update:
  assumes "distinct (map fst kvs)"
  shows "map_of (fold (\<lambda>(k, v) d. AList.update k v d) kvs d) = map_of d ++ map_of kvs"
  using assms
proof (induction kvs arbitrary: d)
  case (Cons kv kvs)
  obtain k v where kv: "kv = (k, v)" by fastforce
  with Cons.prems have "map_of kvs k = None" by (simp add: map_of_eq_None_iff)
  with Cons kv show ?case
    by (auto simp: AList.update_conv' fun_eq_iff map_add_def split: option.splits)
qed simp

text \<open>Of the submitted pod only the status is left.\<close>

lemma prepare_status:
  "prepare_update newPodStatusStrategy (PodObj new) (PodObj old) = PodObj (old\<lparr>p_status := p_status new\<rparr>)"
  by (simp add: newPodStatusStrategy_def podStatus_PrepareForUpdate_def set_spec_def set_object_meta_def)

section \<open>Properties\<close>

text \<open>
  Secrets. On create and on update alike, the string data of a secret ends up in its data, where it
  overrides the entries of the same keys, and no string data is stored; preparing the result again
  changes nothing.
\<close>

theorem secret_string_data_is_folded:
  assumes "distinct (map fst (sec_stringData sec))"
  shows "\<exists>sec'. PrepareForCreate newSecretStrategy (SecretObj sec) = SecretObj sec' \<and>
    PrepareForUpdate newSecretStrategy (SecretObj sec) old = SecretObj sec' \<and>
    map_of (sec_data sec') = map_of (sec_data sec) ++ map_of (sec_stringData sec) \<and>
    sec_stringData sec' = [] \<and> sec_type sec' = sec_type sec \<and>
    PrepareForUpdate newSecretStrategy (SecretObj sec') (SecretObj sec') = SecretObj sec'"
  using map_of_fold_update [OF assms, of "sec_data sec"]
  by (auto simp: PrepareForCreate_def PrepareForUpdate_def newSecretStrategy_def newConfigDataStrategy_def
      fold_string_data_def Let_def)

theorem secret_string_data_is_folded_witness:
  "\<exists>sec'. PrepareForCreate newSecretStrategy
      (SecretObj \<lparr>om_name = ''s'', om_namespace = ''default'', om_labels = [], om_creationTimestamp = 0, 
         sec_type = ''Opaque'', sec_data = [(''a'', ''1''), (''b'', ''2'')], sec_stringData = [(''a'', ''3'')]\<rparr>) =
      SecretObj sec' \<and> map_of (sec_data sec') ''a'' = Some ''3'' \<and> map_of (sec_data sec') ''b'' = Some ''2''"
  using secret_string_data_is_folded [of "\<lparr>om_name = ''s'', om_namespace = ''default'', om_labels = [], om_creationTimestamp = 0, 
      sec_type = ''Opaque'', sec_data = [(''a'', ''1''), (''b'', ''2'')],
      sec_stringData = [(''a'', ''3'')]\<rparr>" "OtherObj []"] by auto

text \<open>
  Two phases of deletion. A deletion of a pod without a grace period is graceful with the period of
  its specification, or 30 seconds, unless that is not positive; one with a grace period keeps it and
  is graceful exactly for a positive one. One with grace period 0, as the kubelet sends it once the
  containers are stopped, is never graceful, so it removes the object; and no other kind of object
  is ever deleted gracefully.
\<close>

theorem deletion_has_two_phases:
  "CheckGracefulDelete (PodObj p) (Some \<lparr>GracePeriodSeconds = None\<rparr>) =
     (let period = (case p_gracePeriod p of Some s \<Rightarrow> s | None \<Rightarrow> 30)
      in (0 < period, Some \<lparr>GracePeriodSeconds = Some period\<rparr>)) \<and>
   CheckGracefulDelete (PodObj p) (Some \<lparr>GracePeriodSeconds = Some s\<rparr>) = (0 < s, Some \<lparr>GracePeriodSeconds = Some s\<rparr>) \<and>
   CheckGracefulDelete obj (Some \<lparr>GracePeriodSeconds = Some 0\<rparr>) = (False, Some \<lparr>GracePeriodSeconds = Some 0\<rparr>) \<and>
   (fst (CheckGracefulDelete obj options) = (\<exists>q opts. obj = PodObj q \<and> options = Some opts \<and>
      0 < (case GracePeriodSeconds opts of Some g \<Rightarrow> g
         | None \<Rightarrow> (case p_gracePeriod q of Some g \<Rightarrow> g | None \<Rightarrow> 30))))"
  by (auto simp: CheckGracefulDelete_def Let_def split: api_object.split option.split)

end
