(* ===== verification/Float64.thy ===== *)
theory Float64
  imports Prelude "HOL-Library.Log_Nat"
begin

text \<open>
  The part of Go's \<open>float64\<close> that the ages of the tables use: non-negative numbers of moderate size,
  represented by the rationals they denote. Operations round their exact result to the nearest
  number with 53 significant bits, ties to even (IEEE 754).
\<close>

section \<open>Rounding\<close>

definition round_even :: "rat \<Rightarrow> int" where
  "round_even x =
     (let f = \<lfloor>x\<rfloor>; d = x - of_int f
      in if d < 1 / 2 then f else if 1 / 2 < d then f + 1 else if even f then f else f + 1)"

definition bit_length :: "int \<Rightarrow> int" where
  "bit_length a = int (floorlog 2 (nat a))"

text \<open>The exponent \<open>e\<close> with \<open>2 ^ e \<le> x < 2 ^ (e + 1)\<close>.\<close>

definition exponent :: "rat \<Rightarrow> int" where
  "exponent x =
     (case quotient_of x of (a, b) \<Rightarrow>
        let e = bit_length a - bit_length b in if 2 powi e \<le> x then e else e - 1)"

definition float64 :: "rat \<Rightarrow> rat" where
  "float64 x =
     (if x \<le> 0 then 0
      else let u = 2 powi (exponent x - 52) in of_int (round_even (x / u)) * u)"

definition fadd :: "rat \<Rightarrow> rat \<Rightarrow> rat" where
  "fadd x y = float64 (x + y)"

definition fdiv :: "rat \<Rightarrow> rat \<Rightarrow> rat" where
  "fdiv x y = float64 (x / y)"

section \<open>Accuracy\<close>

lemma round_even_error: "\<bar>of_int (round_even x) - x\<bar> \<le> 1 / 2"
proof -
  have "0 \<le> x - of_int \<lfloor>x\<rfloor>" "x - of_int \<lfloor>x\<rfloor> < 1" by linarith+
  then show ?thesis unfolding round_even_def Let_def abs_if
    by (auto split: if_splits; linarith)
qed

lemma round_even_int [simp]: "round_even (of_int i) = i"
  by (simp add: round_even_def)

lemma bit_length_bounds:
  assumes "0 < a"
  shows "2 powi (bit_length a - 1) \<le> (of_int a :: rat)" "of_int a < (2 powi bit_length a :: rat)"
proof -
  let ?n = "floorlog 2 (nat a)"
  have "2 ^ (?n - 1) \<le> nat a" "nat a < 2 ^ ?n" "0 < ?n"
    using floorlog_bounds [of "nat a" 2] assms by (simp_all add: floorlog_def)
  then have "(2 :: int) ^ (?n - 1) \<le> a" "a < 2 ^ ?n" using assms by (simp_all add: nat_less_iff le_nat_iff)
  then have "(of_int (2 ^ (?n - 1)) :: rat) \<le> of_int a" "(of_int a :: rat) < of_int (2 ^ ?n)"
    by (simp_all only: of_int_le_iff of_int_less_iff)
  with \<open>0 < ?n\<close> show "2 powi (bit_length a - 1) \<le> (of_int a :: rat)" "of_int a < (2 powi bit_length a :: rat)"
    by (simp_all add: bit_length_def power_int_def nat_diff_distrib)
qed

lemma exponent_bounds:
  assumes "0 < x"
  shows "2 powi exponent x \<le> x"
proof -
  obtain a b where ab: "quotient_of x = (a, b)" by fastforce
  then have "0 < b" "x = of_int a / of_int b" using quotient_of_denom_pos quotient_of_div by blast+
  with assms have "0 < a" by (simp add: zero_less_divide_iff)
  let ?e = "bit_length a - bit_length b"
  have "(2 :: rat) powi (?e - 1) = 2 powi (bit_length a - 1) / 2 powi bit_length b"
    by (simp flip: power_int_diff add: algebra_simps)
  also have "\<dots> \<le> of_int a / of_int b"
    using bit_length_bounds [OF \<open>0 < a\<close>] bit_length_bounds [OF \<open>0 < b\<close>] \<open>0 < b\<close> \<open>0 < a\<close>
    by (intro frac_le) auto
  finally show ?thesis using ab \<open>x = _\<close> by (simp add: exponent_def Let_def)
qed

lemma float64_0 [simp]: "float64 0 = 0"
  by (simp add: float64_def)

lemma float64_nonneg: "0 \<le> float64 x"
proof -
  have "0 \<le> round_even z" if "0 \<le> z" for z
  proof -
    have "(-1 :: rat) < of_int (round_even z)" using that round_even_error [of z] by linarith
    then show ?thesis by linarith
  qed
  then show ?thesis by (simp add: float64_def Let_def)
qed

text \<open>The relative error is at most \<open>2 ^ - 53\<close>, and integers of 53 bits are exact.\<close>

lemma float64_error:
  assumes "0 \<le> x"
  shows "\<bar>float64 x - x\<bar> \<le> x / 2 ^ 53"
proof (cases "x = 0")
  case False
  with assms have x: "0 < x" by simp
  let ?u = "2 powi (exponent x - 52) :: rat"
  have u: "0 < ?u" by simp
  have "float64 x - x = (of_int (round_even (x / ?u)) - x / ?u) * ?u"
    using x u by (simp add: float64_def Let_def left_diff_distrib)
  then have "\<bar>float64 x - x\<bar> = \<bar>of_int (round_even (x / ?u)) - x / ?u\<bar> * ?u"
    using u by (simp add: abs_mult)
  also have "\<dots> \<le> 1 / 2 * ?u" using u round_even_error by (intro mult_right_mono) auto
  also have "\<dots> = 2 powi exponent x / 2 ^ 53" by (simp add: power_int_diff)
  also have "\<dots> \<le> x / 2 ^ 53" using exponent_bounds [OF x] by (simp add: divide_right_mono)
  finally show ?thesis .
qed (simp add: float64_def)

lemma float64_int:
  assumes "0 \<le> i" and "i < 2 ^ 53"
  shows "float64 (of_int i) = of_int i"
proof (cases "i = 0")
  case False
  with assms have i: "0 < i" by simp
  let ?x = "of_int i :: rat" and ?e = "exponent (of_int i)"
  have "?x < 2 powi 53" using assms(2) by (simp add: power_int_def flip: of_int_power)
  with exponent_bounds [of ?x] i have "\<not> 53 \<le> ?e"
    using power_int_increasing [of 53 ?e "2 :: rat"] by auto
  then obtain n where n: "52 - ?e = int n" using zero_le_imp_eq_int [of "52 - ?e"] by auto
  then have "?e - 52 = - int n" by simp
  then have u: "2 powi (?e - 52) = (1 / 2 ^ n :: rat)" by (simp only: power_int_minus power_int_of_nat inverse_eq_divide)
  have "?x / 2 powi (?e - 52) = of_int (i * 2 ^ n)" by (simp add: u)
  then have "round_even (?x / 2 powi (?e - 52)) = i * 2 ^ n" by (metis round_even_int)
  with i show ?thesis by (simp add: float64_def Let_def u)
qed (simp add: float64_def)

section \<open>Quotients\<close>

lemma approx_trans: "\<bar>a - b\<bar> \<le> d \<Longrightarrow> \<bar>b - c\<bar> \<le> e \<Longrightarrow> \<bar>a - c\<bar> \<le> d + (e :: rat)"
  by linarith

lemma div_mod_rat: "0 < n \<Longrightarrow> of_int s / of_int n = of_int (s div n) + (of_int (s mod n) / of_int n :: rat)"
proof -
  assume "0 < n"
  have "(of_int s :: rat) = of_int (s div n * n + s mod n)" by simp
  with \<open>0 < n\<close> show ?thesis by (simp only: of_int_add of_int_mult add_divide_distrib) simp
qed

text \<open>The floor of a number that is close to a quotient, and equal to it where that is an integer.\<close>

lemma floor_near:
  fixes y :: rat
  assumes "0 < n" and "\<bar>y - of_int s / of_int n\<bar> < 1 / of_int n" and "s mod n = 0 \<Longrightarrow> y = of_int (s div n)"
  shows "\<lfloor>y\<rfloor> = s div n"
proof (cases "s mod n = 0")
  case False
  let ?k = "s div n" and ?r = "s mod n"
  have "1 \<le> ?r" "?r + 1 \<le> n" using False assms(1) pos_mod_bound [of n s] pos_mod_sign [of n s] by linarith+
  then have "(1 :: rat) \<le> of_int ?r" "of_int ?r + 1 \<le> (of_int n :: rat)" by linarith+
  then have "1 / of_int n \<le> (of_int ?r / of_int n :: rat)" "of_int ?r / of_int n + 1 / of_int n \<le> (1 :: rat)"
    using assms(1) by (simp_all add: divide_right_mono flip: add_divide_distrib)
  with assms(2) div_mod_rat [OF assms(1), of s] have "of_int ?k < y" "y < of_int ?k + 1"
    by (auto simp: abs_less_iff)
  then show ?thesis by (intro floor_unique) auto
qed (simp add: assms(3))

lemma sum_bound: "f \<le> q + 1 \<Longrightarrow> 0 \<le> k \<Longrightarrow> 0 \<le> q \<Longrightarrow> k + f + q \<le> 2 * (k + q + (2 :: rat))"
  by (simp add: distrib_left)

text \<open>A quotient computed as the sum of its integral and its fractional part.\<close>

lemma float_quotient:
  assumes "0 \<le> s" and "0 < n" and "s div n < 2 ^ 53"
  defines "y \<equiv> float64 (of_int (s div n) + float64 (of_int (s mod n) / of_int n))"
  shows "s mod n = 0 \<Longrightarrow> y = of_int (s div n)" and "\<bar>y - of_int s / of_int n\<bar> \<le> (of_int s / of_int n + 2) / 2 ^ 52"
proof -
  let ?k = "of_int (s div n) :: rat" and ?q = "of_int (s mod n) / of_int n :: rat"
  have k: "0 \<le> s div n" using assms(1,2) by (simp add: pos_imp_zdiv_nonneg_iff)
  show "y = ?k" if "s mod n = 0" using that k assms(3) by (simp add: y_def float64_int)
  have q: "0 \<le> ?q" "?q \<le> 1"
    using assms(2) less_imp_le [OF pos_mod_bound [of n s]] pos_mod_sign [of n s] by (simp_all add: divide_le_eq)
  have e: "\<bar>float64 ?q - ?q\<bar> \<le> ?q / 2 ^ 53" using float64_error [OF q(1)] .
  have p: "0 \<le> float64 ?q" using e q by (simp add: abs_le_iff)
  have "\<bar>y - (?k + float64 ?q)\<bar> \<le> (?k + float64 ?q) / 2 ^ 53"
    unfolding y_def using k p by (intro float64_error) simp
  moreover have "\<bar>(?k + float64 ?q) - (?k + ?q)\<bar> \<le> ?q / 2 ^ 53" using e by simp
  ultimately have "\<bar>y - (?k + ?q)\<bar> \<le> (?k + float64 ?q) / 2 ^ 53 + ?q / 2 ^ 53" by (rule approx_trans)
  also have "\<dots> = (?k + float64 ?q + ?q) / 2 ^ 53" by (simp add: add_divide_distrib)
  also have "\<dots> \<le> (2 * (?k + ?q + 2)) / 2 ^ 53"
  proof (rule divide_right_mono)
    have "?q / 2 ^ 53 \<le> 1" using q by simp
    then have "float64 ?q \<le> ?q + 1" using e by linarith
    moreover have "0 \<le> ?k" using k by simp
    ultimately show "?k + float64 ?q + ?q \<le> 2 * (?k + ?q + 2)" using q(1) by (rule sum_bound)
  qed simp
  also have "\<dots> = (?k + ?q + 2) / 2 ^ 52" by simp
  finally show "\<bar>y - of_int s / of_int n\<bar> \<le> (of_int s / of_int n + 2) / 2 ^ 52"
    by (simp only: div_mod_rat [OF assms(2), of s])
qed

text \<open>A further division by a constant.\<close>

lemma float_divide:
  assumes "\<bar>y - x\<bar> \<le> d" and "0 \<le> y" and "y \<le> 2 ^ 24" and "1 \<le> c"
  shows "\<bar>fdiv y c - x / c\<bar> \<le> d + 1 / 2 ^ 29" and "0 \<le> fdiv y c" and "fdiv y c \<le> y + 1"
proof -
  have yc: "0 \<le> y / c" "y / c \<le> y" using assms(2,4) mult_left_mono [of 1 c y] by (simp_all add: divide_le_eq)
  have e: "\<bar>fdiv y c - y / c\<bar> \<le> (y / c) / 2 ^ 53" unfolding fdiv_def using float64_error [OF yc(1)] .
  also have "\<dots> \<le> 1 / 2 ^ 29" using yc assms(3) by simp
  finally have e': "\<bar>fdiv y c - y / c\<bar> \<le> 1 / 2 ^ 29" .
  have "\<bar>y / c - x / c\<bar> = \<bar>y - x\<bar> / c" using assms(4) by (simp add: abs_divide flip: diff_divide_distrib)
  also have "\<dots> \<le> \<bar>y - x\<bar>" using assms(4) by (simp add: divide_le_eq mult_left_mono [of 1 c "\<bar>y - x\<bar>", simplified])
  finally have "\<bar>y / c - x / c\<bar> \<le> d" using assms(1) by linarith
  from approx_trans [OF e' this] show "\<bar>fdiv y c - x / c\<bar> \<le> d + 1 / 2 ^ 29" by (simp add: add.commute)
  show "0 \<le> fdiv y c" using e yc by (simp add: abs_le_iff)
  have "1 / 2 ^ 29 \<le> (1 :: rat)" by simp
  with e' yc show "fdiv y c \<le> y + 1" by linarith
qed

end
