(* ===== verification/Ages.thy ===== *)
theory Ages
  imports Go_Strings Float64
begin

text \<open>
  \<open>shortHumanDuration\<close> of \<open>internal/apiserver/tables.go\<close>: the age of an object in its largest unit,
  computed in floating point. For a whole number of seconds rounding never shows.
\<close>

section \<open>Durations\<close>

text \<open>\<open>Duration.Seconds\<close>, \<open>Minutes\<close> and \<open>Hours\<close> of a non-negative duration in nanoseconds.\<close>

definition in_units :: "int \<Rightarrow> int \<Rightarrow> rat" where
  "in_units unit d = fadd (float64 (of_int (d div unit))) (fdiv (float64 (of_int (d mod unit))) (of_int unit))"

definition shortHumanDuration :: "int \<Rightarrow> string" where
  "shortHumanDuration d =
     (let second = 1000000000; minute = 60 * second; hour = 60 * minute; hours = in_units hour d
      in if d < second then ''0s''
         else if d < minute then format_int \<lfloor>in_units second d\<rfloor> @ ''s''
         else if d < hour then format_int \<lfloor>in_units minute d\<rfloor> @ ''m''
         else if d < 24 * hour then format_int \<lfloor>hours\<rfloor> @ ''h''
         else if d < 365 * 24 * hour then format_int \<lfloor>fdiv hours 24\<rfloor> @ ''d''
         else format_int \<lfloor>fdiv (fdiv hours 24) 365\<rfloor> @ ''y'')"

section \<open>Whole seconds\<close>

lemma in_units_seconds:
  assumes "0 \<le> s" and "s < 2 ^ 34" and "0 < n" and "n \<le> 3600"
  shows "in_units (n * 1000000000) (s * 1000000000) =
    float64 (of_int (s div n) + float64 (of_int (s mod n) / of_int n))"
proof -
  have "s mod n < 3600" using assms(3,4) pos_mod_bound [of n s] by linarith
  then have "s div n < 2 ^ 53" "0 \<le> s div n" "0 \<le> s mod n * 1000000000" "s mod n * 1000000000 < 2 ^ 53"
    using assms zdiv_mono2 [of s 1 n] by (auto simp: pos_imp_zdiv_nonneg_iff)
  then have "float64 (of_int (s div n)) = of_int (s div n)"
    "float64 (of_int (s mod n * 1000000000)) = of_int (s mod n * 1000000000)" by (simp_all only: float64_int)
  then show ?thesis by (simp add: in_units_def fadd_def fdiv_def mult.commute)
qed

lemma units_floor:
  assumes "0 \<le> s" and "s < 2 ^ 34" and "0 < n" and "n \<le> 3600"
  defines "y \<equiv> in_units (n * 1000000000) (s * 1000000000)"
  shows "s mod n = 0 \<Longrightarrow> y = of_int (s div n)" "\<bar>y - of_int s / of_int n\<bar> \<le> (of_int s / of_int n + 2) / 2 ^ 52"
    "\<lfloor>y\<rfloor> = s div n"
proof -
  have k: "s div n < 2 ^ 53" using assms(1-3) zdiv_mono2 [of s 1 n] by simp
  note q = float_quotient [OF assms(1,3) k, folded in_units_seconds [OF assms(1-4)], folded y_def]
  show e: "y = of_int (s div n)" if "s mod n = 0" using q(1) that .
  show "\<bar>y - of_int s / of_int n\<bar> \<le> (of_int s / of_int n + 2) / 2 ^ 52" by (rule q(2))
  also have "\<dots> < 1 / 3600"
  proof -
    have "of_int s / of_int n \<le> (of_int s :: rat)"
      using assms(1,3) mult_left_mono [of 1 n s] by (simp add: divide_le_eq flip: of_int_mult)
    also have "of_int s \<le> (2 ^ 34 :: rat)" using assms(2) of_int_less_iff [of s "2 ^ 34", where 'a = rat] by simp
    finally have x: "of_int s / of_int n \<le> (2 ^ 34 :: rat)" .
    have "x \<le> 2 ^ 34 \<Longrightarrow> (x + 2) / 2 ^ 52 < 1 / 3600" for x :: rat by simp
    from this [OF x] show ?thesis .
  qed
  also have "\<dots> \<le> 1 / of_int n" using assms(3,4) of_int_le_iff [of n 3600, where 'a = rat] by (intro frac_le) simp_all
  finally show "\<lfloor>y\<rfloor> = s div n" using floor_near [OF assms(3) _ e] by blast
qed

text \<open>The reference: the largest unit, rounded down.\<close>

definition age_text :: "int \<Rightarrow> string" where
  "age_text s =
     (if s < 1 then ''0s''
      else if s < 60 then format_int s @ ''s''
      else if s < 3600 then format_int (s div 60) @ ''m''
      else if s < 86400 then format_int (s div 3600) @ ''h''
      else if s < 31536000 then format_int (s div 86400) @ ''d''
      else format_int (s div 31536000) @ ''y'')"

lemma days_and_years:
  assumes "0 \<le> s" and "s < 2 ^ 34"
  defines "h \<equiv> in_units (3600 * 1000000000) (s * 1000000000)"
  shows "\<lfloor>fdiv h 24\<rfloor> = s div 86400" "\<lfloor>fdiv (fdiv h 24) 365\<rfloor> = s div 31536000"
proof -
  note u = units_floor [of s 3600, folded h_def, OF assms(1,2)]
  have "of_int s / of_int 3600 \<le> (2 ^ 23 - 4 :: rat)"
    using assms(2) of_int_less_iff [of s "2 ^ 34", where 'a = rat] by simp
  then have "(of_int s / of_int 3600 + 2) / 2 ^ 52 \<le> (1 / 2 ^ 29 :: rat)" by simp
  with u(2) have h: "\<bar>h - of_int s / 3600\<bar> \<le> 1 / 2 ^ 29" by simp
  have "\<bar>h - of_int s / 3600\<bar> \<le> 1" using h by (rule order_trans) simp
  then have "h \<le> of_int s / 3600 + 1" by linarith
  also have "\<dots> \<le> 2 ^ 23" using \<open>of_int s / of_int 3600 \<le> _\<close> by simp
  finally have h0: "0 \<le> h" "h \<le> 2 ^ 23" by (simp_all add: h_def in_units_def fadd_def float64_nonneg)
  have exact: "fdiv h 24 = of_int k" if "s = 86400 * k" for k
  proof -
    have "h = of_int (24 * k)" using u(1) that by simp
    moreover have "float64 (of_int k) = of_int k" using assms(1,2) that by (intro float64_int) simp_all
    ultimately show ?thesis by (simp add: fdiv_def)
  qed
  note d = float_divide [OF h h0(1), of 24]
  have "fdiv h 24 \<le> h + 1" using d(3) h0(2) by simp
  also have "\<dots> \<le> 2 ^ 24" using h0(2) by simp
  finally have d24: "fdiv h 24 \<le> 2 ^ 24" .
  show "\<lfloor>fdiv h 24\<rfloor> = s div 86400"
  proof (rule floor_near)
    show "\<bar>fdiv h 24 - of_int s / of_int 86400\<bar> < 1 / of_int 86400" using d(1) h0 by simp
    show "fdiv h 24 = of_int (s div 86400)" if "s mod 86400 = 0" using exact [of "s div 86400"] that by auto
  qed simp
  show "\<lfloor>fdiv (fdiv h 24) 365\<rfloor> = s div 31536000"
  proof (rule floor_near)
    have "\<bar>fdiv h 24 - of_int s / 3600 / 24\<bar> \<le> 1 / 2 ^ 29 + 1 / 2 ^ 29" "0 \<le> fdiv h 24" using d h0 by simp_all
    from float_divide(1) [OF this d24, of 365]
    show "\<bar>fdiv (fdiv h 24) 365 - of_int s / of_int 31536000\<bar> < 1 / of_int 31536000" by simp
    show "fdiv (fdiv h 24) 365 = of_int (s div 31536000)" if "s mod 31536000 = 0"
    proof -
      let ?k = "s div 31536000"
      have s: "s = 31536000 * ?k" using that by auto
      then have "fdiv h 24 = of_int (365 * ?k)" using exact [of "365 * ?k"] by simp
      moreover have "float64 (of_int ?k) = of_int ?k" using assms(1,2) s by (intro float64_int) simp_all
      ultimately show ?thesis by (simp add: fdiv_def)
    qed
  qed simp
qed

text \<open>
  C31: Ages. For every duration of a whole number of seconds that the 64-bit duration can hold, the age
  is the duration in its largest unit among seconds, minutes, hours, days and years, rounded down:
  the floating-point divisions of the code never show. A negative age is shown as 0s.
\<close>

theorem age_is_the_largest_unit:
  assumes "s \<le> 9223372036"
  shows "shortHumanDuration (s * 1000000000) = age_text s"
proof (cases "s < 1")
  case False
  then have s: "0 \<le> s" "s < 2 ^ 34" using assms by simp_all
  have "\<lfloor>in_units (n * 1000000000) (s * 1000000000)\<rfloor> = s div n" if "n \<in> {1, 60, 3600}" for n
    using units_floor(3) [OF s, of n] that by auto
  from this [of 1] this [of 60] this [of 3600] days_and_years [OF s] False show ?thesis
    by (simp add: shortHumanDuration_def age_text_def Let_def)
qed (simp add: shortHumanDuration_def age_text_def)

theorem age_is_the_largest_unit_witness:
  "shortHumanDuration 195000000000 = ''3m'' \<and> shortHumanDuration 31535999000000000 = ''364d'' \<and>
   shortHumanDuration (-1000000000) = ''0s''"
proof -
  have "age_text 195 = ''3m''" "age_text 31535999 = ''364d''" "age_text (-1) = ''0s''" by code_simp+
  then show ?thesis
    using age_is_the_largest_unit [of 195] age_is_the_largest_unit [of 31535999] age_is_the_largest_unit [of "-1"]
    by simp
qed

end
