(* ===== verification/Tables.thy ===== *)
theory Tables
  imports Strategy Kubelet_Example Ages
begin

text \<open>
  \<open>internal/apiserver/tables.go\<close>: the tables that \<open>kubectl get\<close> prints. Each kind has a convertor from
  an object or a list of objects to a table; the age of an object is relative to \<open>now\<close>.
\<close>

section \<open>Tables\<close>

record column =
  col_Name :: string
  col_Type :: string
  col_Format :: string
  col_Description :: string
  col_Priority :: int

abbreviation col :: "string \<Rightarrow> string \<Rightarrow> string \<Rightarrow> string \<Rightarrow> int \<Rightarrow> column" where
  "col n t f d p \<equiv> \<lparr>col_Name = n, col_Type = t, col_Format = f, col_Description = d, col_Priority = p\<rparr>"

datatype cell = CellString string | CellInt int

record row =
  r_cells :: "cell list"
  r_object :: api_object

record table =
  t_columns :: "column list"
  t_rows :: "row list"
  t_resourceVersion :: string

text \<open>What a convertor is given: an object, or a list with its version.\<close>

datatype table_input =
    Single api_object
  | PodList string "pod list"
  | NamespaceList string "namespace list"
  | EventList string "kevent list"
  | ConfigMapList string "configmap list"
  | SecretList string "secret list"

fun input_type :: "table_input \<Rightarrow> string" where
  "input_type (Single obj) = go_type obj"
| "input_type (PodList _ _) = ''*v1.PodList''"
| "input_type (NamespaceList _ _) = ''*v1.NamespaceList''"
| "input_type (EventList _ _) = ''*v1.EventList''"
| "input_type (ConfigMapList _ _) = ''*v1.ConfigMapList''"
| "input_type (SecretList _ _) = ''*v1.SecretList''"

definition unexpected :: "string \<Rightarrow> table_input \<Rightarrow> string" where
  "unexpected convertor obj = convertor @ '': unexpected type '' @ input_type obj"

text \<open>The table options, if they are \<open>TableOptions\<close>: whether to leave the header out.\<close>

definition tableNoHeaders :: "bool option \<Rightarrow> bool" where
  "tableNoHeaders opts = (case opts of Some noHeaders \<Rightarrow> noHeaders | None \<Rightarrow> False)"

definition new_table :: "bool option \<Rightarrow> column list \<Rightarrow> table" where
  "new_table opts columns =
     \<lparr>t_columns = (if \<not> tableNoHeaders opts then columns else []), t_rows = [], t_resourceVersion = []\<rparr>"

definition add_row :: "cell list \<Rightarrow> api_object \<Rightarrow> table \<Rightarrow> table" where
  "add_row cells obj t = t\<lparr>t_rows := t_rows t @ [\<lparr>r_cells = cells, r_object = obj\<rparr>]\<rparr>"

section \<open>Cells\<close>

definition stringOrNone :: "string \<Rightarrow> string" where
  "stringOrNone s = (if s = [] then ''<none>'' else s)"

text \<open>\<open>time.Since\<close> saturates at the bounds of the 64-bit duration.\<close>

definition translateTimestampSince :: "time \<Rightarrow> time \<Rightarrow> string" where
  "translateTimestampSince now t =
     (if t = 0 then ''<unknown>'' else shortHumanDuration (max (- (2 ^ 63)) (min (2 ^ 63 - 1) (now - t))))"

fun waiting_reason :: "container_status list \<Rightarrow> string option" where
  "waiting_reason [] = None"
| "waiting_reason (cs # rest) =
     (case cs_state cs of
        Waiting reason \<Rightarrow> if reason \<noteq> [] then Some reason else waiting_reason rest
      | Terminated _ reason _ _ _ \<Rightarrow> if reason \<noteq> [] then Some reason else waiting_reason rest
      | _ \<Rightarrow> waiting_reason rest)"

definition podDisplayStatus :: "pod \<Rightarrow> string" where
  "podDisplayStatus p =
     (if p_deletionTimestamp p \<noteq> None then ''Terminating''
      else case waiting_reason (ps_containerStatuses (p_status p)) of
        Some reason \<Rightarrow> reason
      | None \<Rightarrow>
          if ps_reason (p_status p) \<noteq> [] then ps_reason (p_status p)
          else if ps_phase (p_status p) = NoPhase then ''Pending''
          else phase_text (ps_phase (p_status p)))"

definition podReadinessCounts :: "pod \<Rightarrow> int \<times> int \<times> int" where
  "podReadinessCounts p =
     (let tot = int (length (p_containers p));
          (ready, restarts) = fold (\<lambda>cs (ready, restarts).
             (if cs_ready cs then ready + 1 else ready, int32 (restarts + cs_restartCount cs)))
            (ps_containerStatuses (p_status p)) (0, 0)
      in (ready, tot, restarts))"

definition eventLastSeen :: "kevent \<Rightarrow> time" where
  "eventLastSeen e =
     (if ke_lastTimestamp e \<noteq> 0 then ke_lastTimestamp e
      else if ke_firstTimestamp e \<noteq> 0 then ke_firstTimestamp e
      else if ke_eventTime e \<noteq> 0 then ke_eventTime e
      else om_creationTimestamp e)"

section \<open>Convertors\<close>

definition podColumns :: "column list" where
  "podColumns =
     [col ''Name'' ''string'' ''name'' [] 0,
      col ''Ready'' ''string'' [] ''Ready containers / total'' 0,
      col ''Status'' ''string'' [] ''Pod phase or container reason'' 0,
      col ''Restarts'' ''integer'' [] ''Sum of container restart counts'' 0,
      col ''Age'' ''string'' [] ''Time since creation'' 0,
      col ''IP'' ''string'' [] ''Pod IP'' 1,
      col ''Node'' ''string'' [] ''Scheduled node'' 1]"

definition pod_cells :: "time \<Rightarrow> pod \<Rightarrow> cell list" where
  "pod_cells now p =
     (case podReadinessCounts p of (ready, tot, restarts) \<Rightarrow>
        [CellString (p_name p), CellString (format_int ready @ ''/'' @ format_int tot),
         CellString (podDisplayStatus p), CellInt restarts,
         CellString (translateTimestampSince now (p_creationTimestamp p)),
         CellString (stringOrNone (ps_podIP (p_status p))), CellString (stringOrNone (p_nodeName p))])"

definition podTable :: "time \<Rightarrow> table_input \<Rightarrow> bool option \<Rightarrow> string + table" where
  "podTable now object opts =
     (let t = new_table opts podColumns; add = (\<lambda>p. add_row (pod_cells now p) (PodObj p))
      in case object of
           Single (PodObj p) \<Rightarrow> Inr (add p t)
         | PodList rv items \<Rightarrow> Inr (fold add items (t\<lparr>t_resourceVersion := rv\<rparr>))
         | _ \<Rightarrow> Inl (unexpected ''podTableConvertor'' object))"

definition namespaceColumns :: "column list" where
  "namespaceColumns =
     [col ''Name'' ''string'' ''name'' [] 0,
      col ''Status'' ''string'' [] ''Namespace phase'' 0,
      col ''Age'' ''string'' [] ''Time since creation'' 0]"

definition namespace_cells :: "time \<Rightarrow> namespace \<Rightarrow> cell list" where
  "namespace_cells now ns =
     [CellString (om_name ns), CellString (if ns_phase ns = [] then ''Active'' else ns_phase ns),
      CellString (translateTimestampSince now (om_creationTimestamp ns))]"

text \<open>\<open>meta.ListAccessor\<close> is a parameter: the version of an object that is a list.\<close>

definition namespaceTable :: "(table_input \<Rightarrow> string option) \<Rightarrow> time \<Rightarrow> table_input \<Rightarrow> bool option \<Rightarrow> string + table" where
  "namespaceTable listAccessor now object opts =
     (let t = new_table opts namespaceColumns; add = (\<lambda>ns. add_row (namespace_cells now ns) (NamespaceObj ns));
          stamp = (\<lambda>t. case listAccessor object of Some rv \<Rightarrow> t\<lparr>t_resourceVersion := rv\<rparr> | None \<Rightarrow> t)
      in case object of
           Single (NamespaceObj ns) \<Rightarrow> Inr (stamp (add ns t))
         | NamespaceList rv items \<Rightarrow> Inr (stamp (fold add items (t\<lparr>t_resourceVersion := rv\<rparr>)))
         | _ \<Rightarrow> Inl (unexpected ''namespaceTableConvertor'' object))"

definition configMapColumns :: "column list" where
  "configMapColumns =
     [col ''Name'' ''string'' ''name'' [] 0,
      col ''Data'' ''integer'' [] ''Total number of keys (data + binaryData)'' 0,
      col ''Age'' ''string'' [] ''Time since creation'' 0]"

definition configmap_cells :: "time \<Rightarrow> configmap \<Rightarrow> cell list" where
  "configmap_cells now c =
     [CellString (om_name c), CellInt (int (length (cm_data c)) + int (length (cm_binaryData c))),
      CellString (translateTimestampSince now (om_creationTimestamp c))]"

definition configMapTable :: "time \<Rightarrow> table_input \<Rightarrow> bool option \<Rightarrow> string + table" where
  "configMapTable now object opts =
     (let t = new_table opts configMapColumns; add = (\<lambda>c. add_row (configmap_cells now c) (ConfigMapObj c))
      in case object of
           Single (ConfigMapObj c) \<Rightarrow> Inr (add c t)
         | ConfigMapList rv items \<Rightarrow> Inr (fold add items (t\<lparr>t_resourceVersion := rv\<rparr>))
         | _ \<Rightarrow> Inl (unexpected ''configMapTableConvertor'' object))"

definition secretColumns :: "column list" where
  "secretColumns =
     [col ''Name'' ''string'' ''name'' [] 0,
      col ''Type'' ''string'' [] ''Secret type (Opaque, kubernetes.io/dockerconfigjson, ...)'' 0,
      col ''Data'' ''integer'' [] ''Number of stored keys'' 0,
      col ''Age'' ''string'' [] ''Time since creation'' 0]"

definition secret_cells :: "time \<Rightarrow> secret \<Rightarrow> cell list" where
  "secret_cells now s =
     [CellString (om_name s), CellString (if sec_type s = [] then ''Opaque'' else sec_type s),
      CellInt (int (length (sec_data s)) + int (length (sec_stringData s))),
      CellString (translateTimestampSince now (om_creationTimestamp s))]"

definition secretTable :: "time \<Rightarrow> table_input \<Rightarrow> bool option \<Rightarrow> string + table" where
  "secretTable now object opts =
     (let t = new_table opts secretColumns; add = (\<lambda>s. add_row (secret_cells now s) (SecretObj s))
      in case object of
           Single (SecretObj s) \<Rightarrow> Inr (add s t)
         | SecretList rv items \<Rightarrow> Inr (fold add items (t\<lparr>t_resourceVersion := rv\<rparr>))
         | _ \<Rightarrow> Inl (unexpected ''secretTableConvertor'' object))"

definition eventColumns :: "column list" where
  "eventColumns =
     [col ''Last Seen'' ''string'' [] ''Time since LastTimestamp'' 0,
      col ''Type'' ''string'' [] ''Normal or Warning'' 0,
      col ''Reason'' ''string'' [] ''Short, machine-readable cause'' 0,
      col ''Object'' ''string'' [] ''<kind>/<name> the event refers to'' 0,
      col ''Message'' ''string'' [] ''Human-readable detail'' 0]"

definition event_cells :: "time \<Rightarrow> kevent \<Rightarrow> cell list" where
  "event_cells now e =
     [CellString (translateTimestampSince now (eventLastSeen e)), CellString (ke_type e),
      CellString (ke_reason e), CellString (ke_kind e @ ''/'' @ ke_objectName e), CellString (ke_message e)]"

definition eventTable :: "time \<Rightarrow> table_input \<Rightarrow> bool option \<Rightarrow> string + table" where
  "eventTable now object opts =
     (let t = new_table opts eventColumns; add = (\<lambda>e. add_row (event_cells now e) (EventObj e))
      in case object of
           Single (EventObj e) \<Rightarrow> Inr (add e t)
         | EventList rv items \<Rightarrow> Inr (fold add items (t\<lparr>t_resourceVersion := rv\<rparr>))
         | _ \<Rightarrow> Inl (unexpected ''eventTableConvertor'' object))"

text \<open>The convertors as the resources name them.\<close>

datatype convertor = PodTable | NamespaceTable | EventTable | ConfigMapTable | SecretTable

fun ConvertToTable ::
  "(table_input \<Rightarrow> string option) \<Rightarrow> convertor \<Rightarrow> time \<Rightarrow> table_input \<Rightarrow> bool option \<Rightarrow> string + table" where
  "ConvertToTable acc PodTable = podTable"
| "ConvertToTable acc NamespaceTable = namespaceTable acc"
| "ConvertToTable acc EventTable = eventTable"
| "ConvertToTable acc ConfigMapTable = configMapTable"
| "ConvertToTable acc SecretTable = secretTable"

fun columns_of :: "convertor \<Rightarrow> column list" where
  "columns_of PodTable = podColumns"
| "columns_of NamespaceTable = namespaceColumns"
| "columns_of EventTable = eventColumns"
| "columns_of ConfigMapTable = configMapColumns"
| "columns_of SecretTable = secretColumns"

section \<open>Lemmas\<close>

fun items_of :: "table_input \<Rightarrow> api_object list" where
  "items_of (Single obj) = [obj]"
| "items_of (PodList _ ps) = map PodObj ps"
| "items_of (NamespaceList _ ns) = map NamespaceObj ns"
| "items_of (EventList _ es) = map EventObj es"
| "items_of (ConfigMapList _ cs) = map ConfigMapObj cs"
| "items_of (SecretList _ ss) = map SecretObj ss"

fun version_of :: "table_input \<Rightarrow> string option" where
  "version_of (Single _) = None"
| "version_of (PodList rv _) = Some rv"
| "version_of (NamespaceList rv _) = Some rv"
| "version_of (EventList rv _) = Some rv"
| "version_of (ConfigMapList rv _) = Some rv"
| "version_of (SecretList rv _) = Some rv"

fun cell_type :: "cell \<Rightarrow> string" where
  "cell_type (CellString _) = ''string''"
| "cell_type (CellInt _) = ''integer''"

fun convertor_of :: "table_input \<Rightarrow> convertor option" where
  "convertor_of (Single (PodObj _)) = Some PodTable"
| "convertor_of (Single (NamespaceObj _)) = Some NamespaceTable"
| "convertor_of (Single (EventObj _)) = Some EventTable"
| "convertor_of (Single (ConfigMapObj _)) = Some ConfigMapTable"
| "convertor_of (Single (SecretObj _)) = Some SecretTable"
| "convertor_of (Single (OtherObj _)) = None"
| "convertor_of (PodList _ _) = Some PodTable"
| "convertor_of (NamespaceList _ _) = Some NamespaceTable"
| "convertor_of (EventList _ _) = Some EventTable"
| "convertor_of (ConfigMapList _ _) = Some ConfigMapTable"
| "convertor_of (SecretList _ _) = Some SecretTable"

fun convertor_name :: "convertor \<Rightarrow> string" where
  "convertor_name PodTable = ''podTableConvertor''"
| "convertor_name NamespaceTable = ''namespaceTableConvertor''"
| "convertor_name EventTable = ''eventTableConvertor''"
| "convertor_name ConfigMapTable = ''configMapTableConvertor''"
| "convertor_name SecretTable = ''secretTableConvertor''"

definition demo_namespace :: namespace where
  "demo_namespace =
     \<lparr>om_name = ''default'', om_namespace = [], om_labels = [], om_creationTimestamp = 1, ns_phase = [],
      ns_finalizers = None\<rparr>"






lemma fold_add_row:
  "fold (\<lambda>x. add_row (cells x) (C x)) xs t =
     t\<lparr>t_rows := t_rows t @ map (\<lambda>x. \<lparr>r_cells = cells x, r_object = C x\<rparr>) xs\<rparr>"
  by (induction xs arbitrary: t) (simp_all add: add_row_def)

lemma pod_cells_types: "map cell_type (pod_cells now p) = map col_Type podColumns"
  by (simp add: pod_cells_def podColumns_def split: prod.split)

lemma other_cells_types:
  "map cell_type (namespace_cells now ns) = map col_Type namespaceColumns"
  "map cell_type (configmap_cells now c) = map col_Type configMapColumns"
  "map cell_type (secret_cells now s) = map col_Type secretColumns"
  "map cell_type (event_cells now e) = map col_Type eventColumns"
  by (simp_all add: namespace_cells_def namespaceColumns_def configmap_cells_def configMapColumns_def
      secret_cells_def secretColumns_def event_cells_def eventColumns_def)

lemmas table_defs = podTable_def namespaceTable_def configMapTable_def secretTable_def eventTable_def
  new_table_def fold_add_row add_row_def Let_def


section \<open>Properties\<close>

text \<open>
  C29: Tables are well typed. A convertor accepts exactly the objects and lists of its kind, and names
  the type of anything else in its error. The table has one row per object, in order, each with its
  object and with cells of the very types its columns declare; the header is left out only on
  request, and the version is that of the list. (\<open>meta.ListAccessor\<close> gives the version of lists.)
\<close>

theorem tables_are_well_typed:
  assumes "\<And>obj. listAccessor obj = version_of obj"
  shows "case ConvertToTable listAccessor conv now object opts of
      Inl e \<Rightarrow> convertor_of object \<noteq> Some conv \<and> e = convertor_name conv @ '': unexpected type '' @ input_type object
    | Inr t \<Rightarrow> convertor_of object = Some conv \<and>
        (\<forall>r \<in> set (t_rows t). map cell_type (r_cells r) = map col_Type (columns_of conv)) \<and>
        map r_object (t_rows t) = items_of object \<and>
        t_columns t = (if opts = Some True then [] else columns_of conv) \<and>
        t_resourceVersion t = (case version_of object of Some rv \<Rightarrow> rv | None \<Rightarrow> [])"
  using assms
  by (cases conv; cases object)
    (auto simp: table_defs pod_cells_types other_cells_types tableNoHeaders_def unexpected_def
      split: api_object.splits option.splits)

theorem tables_are_well_typed_witness:
  "\<exists>t. ConvertToTable version_of NamespaceTable 5 (NamespaceList ''7'' [demo_namespace]) None = Inr t \<and>
     length (t_rows t) = 1 \<and> t_resourceVersion t = ''7'' \<and> t_columns t = namespaceColumns"
proof (cases "ConvertToTable version_of NamespaceTable 5 (NamespaceList ''7'' [demo_namespace]) None")
  case (Inl e)
  then show ?thesis
    using tables_are_well_typed [where listAccessor = version_of and conv = NamespaceTable and now = 5
        and object = "NamespaceList ''7'' [demo_namespace]" and opts = None] by simp
next
  case (Inr t)
  then have "map r_object (t_rows t) = [NamespaceObj demo_namespace]" "t_resourceVersion t = ''7''"
    "t_columns t = namespaceColumns"
    using tables_are_well_typed [where listAccessor = version_of and conv = NamespaceTable and now = 5
        and object = "NamespaceList ''7'' [demo_namespace]" and opts = None] by simp_all
  with Inr show ?thesis by auto
qed



end
