(* ===== verification/Resources.thy ===== *)
theory Resources
  imports Tables Example
begin

text \<open>
  The resources the API server serves: \<open>internal/apiserver/storage.go\<close> (\<open>newStore\<close>), \<open>fields.go\<close> (field
  selectors), \<open>openapi.go\<close> and the part of \<open>apiserver.go\<close> that is not calls of the generic server
  (\<open>Options.Defaults\<close>, \<open>buildV1Storage\<close>).
\<close>

section \<open>fields.go\<close>

definition podSelectableFields :: "string list" where
  "podSelectableFields = [''spec.nodeName'', ''status.phase'']"

definition namespaceSelectableFields :: "string list" where
  "namespaceSelectableFields = [''status.phase'']"

definition secretSelectableFields :: "string list" where
  "secretSelectableFields = [''type'']"

definition eventSelectableFields :: "string list" where
  "eventSelectableFields =
     [''involvedObject.kind'', ''involvedObject.namespace'', ''involvedObject.name'', ''involvedObject.uid'',
      ''involvedObject.apiVersion'', ''involvedObject.resourceVersion'', ''involvedObject.fieldPath'',
      ''reason'', ''reportingComponent'', ''source'', ''type'']"

type_synonym conversion = "string \<Rightarrow> string \<Rightarrow> string + string \<times> string"

text \<open>The API machinery's default conversion is a parameter.\<close>

definition passthroughFieldSelectors :: "conversion \<Rightarrow> string list \<Rightarrow> conversion" where
  "passthroughFieldSelectors dflt allowed label value =
     (if label = ''metadata.name'' \<or> label = ''metadata.namespace'' then Inr (label, value)
      else if label \<in> set allowed then Inr (label, value)
      else dflt label value)"

text \<open>\<open>scheme.AddFieldLabelConversionFunc\<close>, for a kind of the core group, is a parameter.\<close>

definition registerFieldLabelConversions ::
  "conversion \<Rightarrow> (string \<Rightarrow> conversion \<Rightarrow> 's \<Rightarrow> string + 's) \<Rightarrow> 's \<Rightarrow> string + 's" where
  "registerFieldLabelConversions dflt add scheme =
     (case add ''Pod'' (passthroughFieldSelectors dflt podSelectableFields) scheme of
        Inl e \<Rightarrow> Inl e
      | Inr scheme \<Rightarrow>
     (case add ''Namespace'' (passthroughFieldSelectors dflt namespaceSelectableFields) scheme of
        Inl e \<Rightarrow> Inl e
      | Inr scheme \<Rightarrow>
     (case add ''Event'' (passthroughFieldSelectors dflt eventSelectableFields) scheme of
        Inl e \<Rightarrow> Inl e
      | Inr scheme \<Rightarrow>
     add ''Secret'' (passthroughFieldSelectors dflt secretSelectableFields) scheme)))"

section \<open>apiserver.go: the attributes of objects\<close>

type_synonym attrs = "(string \<times> string) list \<times> (string \<times> string) list"

definition pod_getAttrs :: "api_object \<Rightarrow> string + attrs" where
  "pod_getAttrs obj =
     (case obj of
        PodObj p \<Rightarrow>
          Inr (p_labels p,
            [(''metadata.name'', p_name p), (''metadata.namespace'', p_namespace p),
             (''spec.nodeName'', p_nodeName p), (''status.phase'', phase_text (ps_phase (p_status p)))])
      | _ \<Rightarrow> Inl (''not a Pod: '' @ go_type obj))"

definition namespace_getAttrs :: "api_object \<Rightarrow> string + attrs" where
  "namespace_getAttrs obj =
     (case obj of
        NamespaceObj ns \<Rightarrow> Inr (om_labels ns, [(''metadata.name'', om_name ns), (''status.phase'', ns_phase ns)])
      | _ \<Rightarrow> Inl (''not a Namespace: '' @ go_type obj))"

definition event_getAttrs :: "api_object \<Rightarrow> string + attrs" where
  "event_getAttrs obj =
     (case obj of
        EventObj e \<Rightarrow>
          Inr (om_labels e,
            [(''metadata.name'', om_name e), (''metadata.namespace'', om_namespace e),
             (''involvedObject.kind'', ke_kind e), (''involvedObject.namespace'', ke_objectNamespace e),
             (''involvedObject.name'', ke_objectName e), (''involvedObject.uid'', ke_objectUID e),
             (''involvedObject.apiVersion'', ke_apiVersion e),
             (''involvedObject.resourceVersion'', ke_objectVersion e),
             (''involvedObject.fieldPath'', ke_fieldPath e), (''reason'', ke_reason e),
             (''reportingComponent'', ke_controller e), (''source'', ke_component e), (''type'', ke_type e)])
      | _ \<Rightarrow> Inl (''not an Event: '' @ go_type obj))"

definition configmap_getAttrs :: "api_object \<Rightarrow> string + attrs" where
  "configmap_getAttrs obj =
     (case obj of
        ConfigMapObj cm \<Rightarrow> Inr (om_labels cm, [(''metadata.name'', om_name cm), (''metadata.namespace'', om_namespace cm)])
      | _ \<Rightarrow> Inl (''not a ConfigMap: '' @ go_type obj))"

definition secret_getAttrs :: "api_object \<Rightarrow> string + attrs" where
  "secret_getAttrs obj =
     (case obj of
        SecretObj s \<Rightarrow>
          Inr (om_labels s,
            [(''metadata.name'', om_name s), (''metadata.namespace'', om_namespace s), (''type'', sec_type s)])
      | _ \<Rightarrow> Inl (''not a Secret: '' @ go_type obj))"

section \<open>storage.go: newStore\<close>

record resource_config =
  rs_resource :: string
  rs_singular :: string
  rs_prefix :: string
  rs_namespaced :: bool
  rs_shortNames :: "string list"
  rs_table :: "convertor option"
  rs_newFunc :: api_object
  rs_newListFunc :: table_input
  rs_getAttrs :: "api_object \<Rightarrow> string + attrs"
  rs_create :: objectStrategy
  rs_update :: rest_strategy
  rs_del :: rest_strategy

text \<open>
  The fields of the generic registry's store that \<open>newStore\<close> sets. \<open>PredicateFunc\<close> is determined by
  its attribute function; no table convertor stands for the default one. The storage is the file
  store's configuration with the broadcaster it made. The counter that \<open>buildV1Storage\<close> loads and passes to every
  store is the one \<open>c_rv\<close> of the state; \<open>New\<close> is told that it was given one and loads none of its own. That two stores
  might hold two counters is not expressible here.
\<close>

record generic_store =
  gs_NewFunc :: api_object
  gs_NewListFunc :: table_input
  gs_DefaultQualifiedResource :: string
  gs_SingularQualifiedResource :: string
  gs_KeyRootFunc :: "string option \<Rightarrow> string"
  gs_KeyFunc :: "string option \<Rightarrow> string \<Rightarrow> string + string"
  gs_ObjectNameFunc :: "api_object \<Rightarrow> string + string"
  gs_GetAttrs :: "api_object \<Rightarrow> string + attrs"
  gs_CreateStrategy :: objectStrategy
  gs_UpdateStrategy :: rest_strategy
  gs_DeleteStrategy :: rest_strategy
  gs_TableConvertor :: "convertor option"
  gs_Storage :: "api_object config"
  gs_Broadcaster :: "api_object broadcaster"

text \<open>
  What the server is built from: the file store's configuration without root and \<open>Newer\<close> (codec,
  versioner, metadata accessor), \<open>meta.Accessor\<close> for names, and the texts of errors.
\<close>

record machinery =
  mc_base :: "api_object config"
  mc_accessorName :: "api_object \<Rightarrow> string + string"
  mc_newText :: "new_error \<Rightarrow> string"
  mc_counterText :: "counter_error \<Rightarrow> string"

definition newStore :: "machinery \<Rightarrow> resource_config \<Rightarrow> string \<Rightarrow> (api_object sstate, string, generic_store) sem" where
  "newStore mc rs dataRoot =
     (let cfg = (mc_base mc)\<lparr>Root := dataRoot, Newer := rs_newFunc rs\<rparr>
      in sbind (map_err (\<lambda>e. ''fsstorage('' @ rs_resource rs @ ''): '' @ mc_newText mc e) (New cfg True)) (\<lambda>_.
         gets (\<lambda>s.
           \<lparr>gs_NewFunc = rs_newFunc rs, gs_NewListFunc = rs_newListFunc rs,
            gs_DefaultQualifiedResource = rs_resource rs, gs_SingularQualifiedResource = rs_singular rs,
            gs_KeyRootFunc = KeyRootFunc (rs_prefix rs) (rs_namespaced rs),
            gs_KeyFunc = (\<lambda>ns name. case KeyFunc (rs_prefix rs) (rs_namespaced rs) ns name of
                None \<Rightarrow> Inl (''namespace required for resource '' @ quote (rs_resource rs))
              | Some key \<Rightarrow> Inr key),
            gs_ObjectNameFunc = mc_accessorName mc, gs_GetAttrs = rs_getAttrs rs,
            gs_CreateStrategy = rs_create rs, gs_UpdateStrategy = rs_update rs, gs_DeleteStrategy = rs_del rs,
            gs_TableConvertor = rs_table rs, gs_Storage = cfg, gs_Broadcaster = s_bc s\<rparr>)))"

datatype rest_storage = PlainStore generic_store | ShortNamedStore generic_store "string list"

definition withShortNames :: "generic_store \<Rightarrow> string list \<Rightarrow> rest_storage" where
  "withShortNames store sn = (if length sn = 0 then PlainStore store else ShortNamedStore store sn)"

fun ShortNames :: "rest_storage \<Rightarrow> string list" where
  "ShortNames (PlainStore _) = []"
| "ShortNames (ShortNamedStore _ sn) = sn"

text \<open>
  A copy of the whole store with another strategy for updates: creations and deletions through it are those of
  the pods' store.
\<close>

definition derivePodStatusStore :: "generic_store \<Rightarrow> rest_strategy \<Rightarrow> generic_store" where
  "derivePodStatusStore podStore statusStrategy = podStore\<lparr>gs_UpdateStrategy := statusStrategy\<rparr>"

section \<open>apiserver.go: the resources\<close>

definition zero_pod :: pod where
  "zero_pod =
     \<lparr>p_uid = [], p_namespace = [], p_name = [], p_resourceVersion = [], p_labels = [], p_creationTimestamp = 0,
      p_deletionTimestamp = None, p_deletionGrace = None, p_containers = [], p_volumes = [], p_nodeName = [],
      p_gracePeriod = None, p_status = empty_status\<rparr>"

definition zero_meta :: object_meta where
  "zero_meta = \<lparr>om_name = [], om_namespace = [], om_labels = [], om_creationTimestamp = 0\<rparr>"

definition zero_namespace :: namespace where
  "zero_namespace = object_meta.extend zero_meta (namespace.fields [] None)"

definition zero_configmap :: configmap where
  "zero_configmap = object_meta.extend zero_meta (configmap.fields [] [])"

definition zero_secret :: secret where
  "zero_secret = object_meta.extend zero_meta (secret.fields [] [] [])"

definition zero_event :: kevent where
  "zero_event = object_meta.extend zero_meta (kevent.fields [] [] [] [] [] [] [] [] [] [] 0 0 0 0 [] [] [] [])"

definition pods_config :: resource_config where
  "pods_config =
     \<lparr>rs_resource = ''pods'', rs_singular = ''pod'', rs_prefix = ''/pods'', rs_namespaced = True,
      rs_shortNames = [''po''], rs_table = Some PodTable, rs_newFunc = PodObj zero_pod,
      rs_newListFunc = PodList [] [], rs_getAttrs = pod_getAttrs,
      rs_create = newPodStrategy, rs_update = ObjectStrategy newPodStrategy, rs_del = newPodGracefulStrategy\<rparr>"

definition namespaces_config :: resource_config where
  "namespaces_config =
     \<lparr>rs_resource = ''namespaces'', rs_singular = ''namespace'', rs_prefix = ''/namespaces'', rs_namespaced = False,
      rs_shortNames = [''ns''], rs_table = Some NamespaceTable, rs_newFunc = NamespaceObj zero_namespace,
      rs_newListFunc = NamespaceList [] [], rs_getAttrs = namespace_getAttrs,
      rs_create = newNamespaceStrategy, rs_update = ObjectStrategy newNamespaceStrategy,
      rs_del = ObjectStrategy newNamespaceStrategy\<rparr>"

definition events_config :: resource_config where
  "events_config =
     \<lparr>rs_resource = ''events'', rs_singular = ''event'', rs_prefix = ''/events'', rs_namespaced = True,
      rs_shortNames = [''ev''], rs_table = Some EventTable, rs_newFunc = EventObj zero_event,
      rs_newListFunc = EventList [] [], rs_getAttrs = event_getAttrs,
      rs_create = newEventStrategy, rs_update = ObjectStrategy newEventStrategy,
      rs_del = ObjectStrategy newEventStrategy\<rparr>"

definition configmaps_config :: resource_config where
  "configmaps_config =
     \<lparr>rs_resource = ''configmaps'', rs_singular = ''configmap'', rs_prefix = ''/configmaps'', rs_namespaced = True,
      rs_shortNames = [''cm''], rs_table = Some ConfigMapTable, rs_newFunc = ConfigMapObj zero_configmap,
      rs_newListFunc = ConfigMapList [] [], rs_getAttrs = configmap_getAttrs,
      rs_create = newConfigDataStrategy True, rs_update = ObjectStrategy (newConfigDataStrategy True),
      rs_del = ObjectStrategy (newConfigDataStrategy True)\<rparr>"

definition secrets_config :: resource_config where
  "secrets_config =
     \<lparr>rs_resource = ''secrets'', rs_singular = ''secret'', rs_prefix = ''/secrets'', rs_namespaced = True,
      rs_shortNames = [], rs_table = Some SecretTable, rs_newFunc = SecretObj zero_secret,
      rs_newListFunc = SecretList [] [], rs_getAttrs = secret_getAttrs,
      rs_create = newSecretStrategy, rs_update = ObjectStrategy newSecretStrategy,
      rs_del = ObjectStrategy newSecretStrategy\<rparr>"

definition buildV1Storage :: "machinery \<Rightarrow> string \<Rightarrow> (api_object sstate, string, (string \<times> rest_storage) list) sem" where
  "buildV1Storage mc dataDir =
     sbind (map_err (\<lambda>e. ''rv counter: '' @ mc_counterText mc e) (NewCounter dataDir)) (\<lambda>_.
     sbind (newStore mc pods_config dataDir) (\<lambda>pods.
     let podStatus = derivePodStatusStore pods newPodStatusStrategy in
     sbind (newStore mc namespaces_config dataDir) (\<lambda>namespaces.
     sbind (newStore mc events_config dataDir) (\<lambda>events.
     sbind (newStore mc configmaps_config dataDir) (\<lambda>configMaps.
     sbind (newStore mc secrets_config dataDir) (\<lambda>secrets.
     ret [(''pods'', withShortNames pods [''po'']), (''pods/status'', PlainStore podStatus),
          (''namespaces'', withShortNames namespaces [''ns'']), (''events'', withShortNames events [''ev'']),
          (''configmaps'', withShortNames configMaps [''cm'']), (''secrets'', PlainStore secrets)]))))))"

record Options =
  BindAddress :: string
  BindPort :: int
  CertDir :: string
  DataDir :: string
  ExternalHost :: string
  KubeletLogURL :: string

definition Defaults :: "Options \<Rightarrow> Options" where
  "Defaults opts =
     (let opts = (if BindAddress opts = [] then opts\<lparr>BindAddress := ''127.0.0.1''\<rparr> else opts);
          opts = (if CertDir opts = [] then opts\<lparr>CertDir := ''run/pki''\<rparr> else opts);
          opts = (if DataDir opts = [] then opts\<lparr>DataDir := ''data''\<rparr> else opts);
          opts = (if ExternalHost opts = [] then opts\<lparr>ExternalHost := BindAddress opts\<rparr> else opts)
      in if KubeletLogURL opts = [] then opts\<lparr>KubeletLogURL := ''http://127.0.0.1:10350''\<rparr> else opts)"

section \<open>openapi.go\<close>

text \<open>The definitions by name, each a schema with its type.\<close>

definition minimalOpenAPIDefinitions :: "(string \<times> string) list" where
  "minimalOpenAPIDefinitions =
     map (\<lambda>name. (name, ''object''))
      [''io.k8s.api.core.v1.Pod'', ''io.k8s.api.core.v1.PodList'', ''io.k8s.api.core.v1.PodSpec'',
       ''io.k8s.api.core.v1.PodStatus'', ''io.k8s.api.core.v1.Namespace'', ''io.k8s.api.core.v1.NamespaceList'',
       ''io.k8s.api.core.v1.NamespaceSpec'', ''io.k8s.api.core.v1.NamespaceStatus'', ''io.k8s.api.core.v1.Event'',
       ''io.k8s.api.core.v1.EventList'', ''io.k8s.api.core.v1.EventSource'', ''io.k8s.api.core.v1.EventSeries'',
       ''io.k8s.api.core.v1.ObjectReference'', ''io.k8s.api.core.v1.ConfigMap'', ''io.k8s.api.core.v1.ConfigMapList'',
       ''io.k8s.api.core.v1.Secret'', ''io.k8s.api.core.v1.SecretList'',
       ''io.k8s.apimachinery.pkg.apis.meta.v1.ObjectMeta'', ''io.k8s.apimachinery.pkg.apis.meta.v1.ListMeta'',
       ''io.k8s.apimachinery.pkg.apis.meta.v1.Status'']"

section \<open>Lemmas\<close>

definition v1_configs :: "resource_config list" where
  "v1_configs = [pods_config, namespaces_config, events_config, configmaps_config, secrets_config]"

lemmas config_defs = pods_config_def namespaces_config_def events_config_def configmaps_config_def secrets_config_def

lemma v1_cases [consumes 1, case_names pods namespaces events configmaps secrets]:
  assumes "rs \<in> set v1_configs"
  obtains "rs = pods_config" | "rs = namespaces_config" | "rs = events_config" | "rs = configmaps_config"
    | "rs = secrets_config"
  using assms unfolding v1_configs_def by (simp only: list.set insert_iff empty_iff) blast

lemma config_simps [simp]:
  "rs_resource pods_config = ''pods''" "rs_resource namespaces_config = ''namespaces''"
  "rs_resource events_config = ''events''" "rs_resource configmaps_config = ''configmaps''"
  "rs_resource secrets_config = ''secrets''"
  "rs_prefix pods_config = ''/pods''" "rs_prefix namespaces_config = ''/namespaces''"
  "rs_prefix events_config = ''/events''" "rs_prefix configmaps_config = ''/configmaps''"
  "rs_prefix secrets_config = ''/secrets''"
  "rs_namespaced pods_config" "\<not> rs_namespaced namespaces_config" "rs_namespaced events_config"
  "rs_namespaced configmaps_config" "rs_namespaced secrets_config"
  "rs_newFunc pods_config = PodObj zero_pod" "rs_newFunc namespaces_config = NamespaceObj zero_namespace"
  "rs_newFunc events_config = EventObj zero_event" "rs_newFunc configmaps_config = ConfigMapObj zero_configmap"
  "rs_newFunc secrets_config = SecretObj zero_secret"
  "rs_getAttrs pods_config = pod_getAttrs" "rs_getAttrs namespaces_config = namespace_getAttrs"
  "rs_getAttrs events_config = event_getAttrs" "rs_getAttrs configmaps_config = configmap_getAttrs"
  "rs_getAttrs secrets_config = secret_getAttrs"
  by (simp_all add: config_defs)

lemmas getAttrs_defs = pod_getAttrs_def namespace_getAttrs_def event_getAttrs_def configmap_getAttrs_def secret_getAttrs_def

lemmas selectable_defs = podSelectableFields_def namespaceSelectableFields_def eventSelectableFields_def
  secretSelectableFields_def

fun kind_of :: "api_object \<Rightarrow> string" where
  "kind_of (PodObj _) = ''Pod''"
| "kind_of (NamespaceObj _) = ''Namespace''"
| "kind_of (EventObj _) = ''Event''"
| "kind_of (ConfigMapObj _) = ''ConfigMap''"
| "kind_of (SecretObj _) = ''Secret''"
| "kind_of (OtherObj t) = t"

text \<open>The conversion the scheme uses for a kind.\<close>

definition conversion_for :: "('s \<Rightarrow> string \<Rightarrow> conversion option) \<Rightarrow> conversion \<Rightarrow> 's \<Rightarrow> string \<Rightarrow> conversion" where
  "conversion_for lookup dflt scheme kind = (case lookup scheme kind of Some f \<Rightarrow> f | None \<Rightarrow> dflt)"

lemma registered_conversions:
  assumes "\<And>k f s s'. add k f s = Inr s' \<Longrightarrow> lookup s' = (lookup s)(k \<mapsto> f)"
    and "registerFieldLabelConversions dflt add scheme = Inr scheme'"
  shows "lookup scheme' = (lookup scheme)
    (''Pod'' \<mapsto> passthroughFieldSelectors dflt podSelectableFields,
     ''Namespace'' \<mapsto> passthroughFieldSelectors dflt namespaceSelectableFields,
     ''Event'' \<mapsto> passthroughFieldSelectors dflt eventSelectableFields,
     ''Secret'' \<mapsto> passthroughFieldSelectors dflt secretSelectableFields)"
  using assms(2) by (auto simp: registerFieldLabelConversions_def dest!: assms(1) split: sum.splits)

text \<open>The fields a kind makes selectable beyond name and namespace.\<close>

fun extra_fields :: "api_object \<Rightarrow> string list" where
  "extra_fields (PodObj _) = podSelectableFields"
| "extra_fields (NamespaceObj _) = namespaceSelectableFields"
| "extra_fields (EventObj _) = eventSelectableFields"
| "extra_fields (SecretObj _) = secretSelectableFields"
| "extra_fields (ConfigMapObj _) = []"
| "extra_fields (OtherObj _) = []"

lemma passthrough_accepts:
  assumes "\<And>l v. dflt l v = (if l \<in> {''metadata.name'', ''metadata.namespace''} then Inr (l, v) else Inl (unknown l))"
  shows "passthroughFieldSelectors dflt allowed l v =
    (if l \<in> {''metadata.name'', ''metadata.namespace''} \<union> set allowed then Inr (l, v) else Inl (unknown l))"
  by (simp add: passthroughFieldSelectors_def assms)

lemma published_fields:
  assumes "rs \<in> set v1_configs" and "rs_getAttrs rs obj = Inr (lbls, flds)"
  shows "insert ''metadata.namespace'' (fst ` set flds) =
    {''metadata.name'', ''metadata.namespace''} \<union> set (extra_fields (rs_newFunc rs))"
proof -
  have "map fst flds = (''metadata.name'' # (if rs_namespaced rs then [''metadata.namespace''] else [])) @
      extra_fields (rs_newFunc rs)"
    using assms by (cases rule: v1_cases) (auto simp: getAttrs_defs selectable_defs split: api_object.splits)
  then have "fst ` set flds = set ((''metadata.name'' # (if rs_namespaced rs then [''metadata.namespace''] else [])) @
      extra_fields (rs_newFunc rs))" by (metis list.set_map)
  then show ?thesis by auto
qed

lemma conversion_for_v1:
  assumes "lookup scheme' = (lookup scheme)
    (''Pod'' \<mapsto> passthroughFieldSelectors dflt podSelectableFields,
     ''Namespace'' \<mapsto> passthroughFieldSelectors dflt namespaceSelectableFields,
     ''Event'' \<mapsto> passthroughFieldSelectors dflt eventSelectableFields,
     ''Secret'' \<mapsto> passthroughFieldSelectors dflt secretSelectableFields)"
    and "lookup scheme = Map.empty" and "rs \<in> set v1_configs"
  shows "conversion_for lookup dflt scheme' (kind_of (rs_newFunc rs)) =
    (if kind_of (rs_newFunc rs) = ''ConfigMap'' then dflt else passthroughFieldSelectors dflt (extra_fields (rs_newFunc rs)))"
  using assms(3) by (cases rule: v1_cases) (simp_all add: conversion_for_def assms(1,2))

lemma v1_resources_distinct: "inj_on rs_resource (set v1_configs)"
proof -
  have "distinct (map rs_resource v1_configs)" by (simp add: v1_configs_def config_defs)
  then show ?thesis by (simp add: distinct_map)
qed

lemma key_path_v1:
  assumes "rs \<in> set v1_configs" and "Root cfg \<noteq> []" and "plain_seg ns" and "plain_seg n"
    and "KeyFunc (rs_prefix rs) (rs_namespaced rs) (Some ns) n = Some key"
  shows "key_path cfg cwd key = Inr (join_path cwd [Root cfg] @
    (if rs_namespaced rs then [rs_resource rs, ns, n @ ''.json''] else [rs_resource rs, n @ ''.json'']))"
proof -
  let ?r = "rs_resource rs"
  have r: "plain_seg ?r" "rs_prefix rs = ''/'' @ ?r"
    using assms(1) by (cases rule: v1_cases; simp add: plain_seg_def)+
  have n: "slash \<notin> set n" "n \<noteq> []" "ns \<noteq> []" using assms(3,4) by (simp_all add: plain_seg_def)
  have "parseKey key = Inr (?r, if rs_namespaced rs then ns else [], n)"
    using parseKey_plain [OF r(1)] assms(3-5) n r(2)
    by (auto simp: KeyFunc_def simp del: parseKey.simps split: if_splits)
  then show ?thesis
    using objectPath_plain [OF assms(2) r(1) n(1)] assms(3) n
    by (simp add: key_path_def del: parseKey.simps)
qed

fun store_of :: "rest_storage \<Rightarrow> generic_store" where
  "store_of (PlainStore g) = g"
| "store_of (ShortNamedStore g _) = g"

lemma New_shared: "New cfg True s = (Inr (), t) \<Longrightarrow> s_bc t = newBroadcaster 1000"
  by (auto simp: New_def sbind_Inr_iff split: if_splits)

text \<open>What \<open>newStore\<close> makes of a resource's configuration.\<close>

definition wired :: "string \<Rightarrow> resource_config \<Rightarrow> generic_store \<Rightarrow> bool" where
  "wired dataRoot rs g \<longleftrightarrow>
     gs_NewFunc g = rs_newFunc rs \<and> gs_NewListFunc g = rs_newListFunc rs \<and> gs_GetAttrs g = rs_getAttrs rs \<and>
     gs_TableConvertor g = rs_table rs \<and> gs_CreateStrategy g = rs_create rs \<and> gs_UpdateStrategy g = rs_update rs \<and>
     gs_DeleteStrategy g = rs_del rs \<and> gs_DefaultQualifiedResource g = rs_resource rs \<and>
     gs_KeyRootFunc g = KeyRootFunc (rs_prefix rs) (rs_namespaced rs) \<and> Root (gs_Storage g) = dataRoot \<and> Newer (gs_Storage g) = rs_newFunc rs \<and>
     gs_Broadcaster g = newBroadcaster 1000"

lemma newStore_wired: "newStore mc rs dataRoot s = (Inr g, t) \<Longrightarrow> wired dataRoot rs g"
  using New_shared [of "(mc_base mc)\<lparr>Root := dataRoot, Newer := rs_newFunc rs\<rparr>" s]
  by (auto simp: newStore_def sbind_Inr_iff wired_def Let_def)

text \<open>A store whose parts are about one kind of object.\<close>

definition store_consistent :: "string \<Rightarrow> generic_store \<Rightarrow> bool" where
  "store_consistent dataDir g \<longleftrightarrow>
     Root (gs_Storage g) = dataDir \<and> Newer (gs_Storage g) = gs_NewFunc g \<and>
     (\<exists>a. gs_GetAttrs g (gs_NewFunc g) = Inr a) \<and> gs_TableConvertor g \<noteq> None \<and>
     convertor_of (Single (gs_NewFunc g)) = gs_TableConvertor g \<and>
     convertor_of (gs_NewListFunc g) = gs_TableConvertor g \<and>
     list_all (\<lambda>suffix. map_of minimalOpenAPIDefinitions
       (''io.k8s.api.core.v1.'' @ kind_of (gs_NewFunc g) @ suffix) = Some ''object'') [[], ''List'']"

lemma wired_consistent: "wired dataDir rs g \<Longrightarrow> rs \<in> set v1_configs \<Longrightarrow> store_consistent dataDir g"
  by (auto simp: v1_configs_def wired_def store_consistent_def config_defs getAttrs_defs minimalOpenAPIDefinitions_def)

lemma status_consistent: "store_consistent dataDir (g\<lparr>gs_UpdateStrategy := u\<rparr>) = store_consistent dataDir g"
  by (simp add: store_consistent_def)

text \<open>
  What is served under which name: the resource, the root of its keys and the kind of its objects. The
  status store is the pods' store but for the strategy of updates.
\<close>

definition served :: "string \<times> rest_storage \<Rightarrow> string \<times> string \<times> string \<times> string" where
  "served = (\<lambda>(n, st). (n, gs_DefaultQualifiedResource (store_of st), gs_KeyRootFunc (store_of st) None,
     kind_of (gs_NewFunc (store_of st))))"

definition v1_served :: "(string \<times> string \<times> string \<times> string) list" where
  "v1_served =
     [(''pods'', ''pods'', ''/pods'', ''Pod''), (''pods/status'', ''pods'', ''/pods'', ''Pod''),
      (''namespaces'', ''namespaces'', ''/namespaces'', ''Namespace''), (''events'', ''events'', ''/events'', ''Event''),
      (''configmaps'', ''configmaps'', ''/configmaps'', ''ConfigMap''), (''secrets'', ''secrets'', ''/secrets'', ''Secret'')]"

lemma buildV1Storage_Inr:
  assumes "buildV1Storage mc dataDir s = (Inr m, t)"
  shows "map served m = v1_served" "\<forall>st \<in> snd ` set m. store_consistent dataDir (store_of st)"
    "map (ShortNames \<circ> snd) m = [[''po''], [], [''ns''], [''ev''], [''cm''], []]"
    "map (gs_UpdateStrategy \<circ> store_of \<circ> snd) m =
      [ObjectStrategy newPodStrategy, newPodStatusStrategy, ObjectStrategy newNamespaceStrategy, ObjectStrategy newEventStrategy,
       ObjectStrategy (newConfigDataStrategy True), ObjectStrategy newSecretStrategy]"
proof -
  from assms obtain u pods s1 ns s2 ev s3 cm s4 sec where
    g: "newStore mc pods_config dataDir u = (Inr pods, s1)" "newStore mc namespaces_config dataDir s1 = (Inr ns, s2)"
      "newStore mc events_config dataDir s2 = (Inr ev, s3)" "newStore mc configmaps_config dataDir s3 = (Inr cm, s4)"
      "newStore mc secrets_config dataDir s4 = (Inr sec, t)"
    and m: "m = [(''pods'', ShortNamedStore pods [''po'']), (''pods/status'', PlainStore (derivePodStatusStore pods newPodStatusStrategy)),
      (''namespaces'', ShortNamedStore ns [''ns'']), (''events'', ShortNamedStore ev [''ev'']),
      (''configmaps'', ShortNamedStore cm [''cm'']), (''secrets'', PlainStore sec)]"
    by (auto simp: buildV1Storage_def sbind_Inr_iff Let_def withShortNames_def)
  note w = newStore_wired [OF g(1)] newStore_wired [OF g(2)] newStore_wired [OF g(3)] newStore_wired [OF g(4)]
    newStore_wired [OF g(5)]
  note c = w [THEN wired_consistent]
  show "\<forall>st \<in> snd ` set m. store_consistent dataDir (store_of st)"
    using c by (simp add: m v1_configs_def derivePodStatusStore_def status_consistent)
  show "map (ShortNames \<circ> snd) m = [[''po''], [], [''ns''], [''ev''], [''cm''], []]" by (simp add: m)
  show "map served m = v1_served"
    using w by (simp add: m served_def v1_served_def wired_def derivePodStatusStore_def KeyRootFunc_def)
  show "map (gs_UpdateStrategy \<circ> store_of \<circ> snd) m =
      [ObjectStrategy newPodStrategy, newPodStatusStrategy, ObjectStrategy newNamespaceStrategy, ObjectStrategy newEventStrategy,
       ObjectStrategy (newConfigDataStrategy True), ObjectStrategy newSecretStrategy]"
    using w by (simp add: m wired_def derivePodStatusStore_def config_defs)
qed

definition demo_default :: conversion where
  "demo_default l v = (if l \<in> {''metadata.name'', ''metadata.namespace''} then Inr (l, v) else Inl l)"

definition demo_add :: "string \<Rightarrow> conversion \<Rightarrow> (string \<rightharpoonup> conversion) \<Rightarrow> string + (string \<rightharpoonup> conversion)" where
  "demo_add k f scheme = Inr (scheme(k \<mapsto> f))"

text \<open>A codec that stores nothing, which is enough to build the stores.\<close>

definition demo_machinery :: machinery where
  "demo_machinery =
     \<lparr>mc_base = \<lparr>Root = [], codec_encode = \<lambda>_. Inl [], codec_decode = \<lambda>_ _. Inl [], Newer = PodObj zero_pod,
        accessor_ok = \<lambda>_. True, get_uid = \<lambda>_. [], set_uid = \<lambda>x _. x, get_namespace = \<lambda>_. [], get_name = \<lambda>_. [],
        update_object = \<lambda>x _. Inr x, object_rv = \<lambda>_. Inr 0, annotate_end = Inr, parse_rv = \<lambda>_. Inr 0\<rparr>,
      mc_accessorName = \<lambda>_. Inr [], mc_newText = \<lambda>_. [], mc_counterText = \<lambda>_. []\<rparr>"

definition demo_disk :: "api_object sstate" where
  "demo_disk =
     \<lparr>fs_root = Dir [], fs_cwd = [], fs_faults = [], c_rv = 0, s_uid = 0, s_bc = newBroadcaster 0\<rparr>"

text \<open>A codec for the versions and phases of one pod, and the stores built from it.\<close>

definition plain_pod :: "string \<Rightarrow> phase \<Rightarrow> pod" where
  "plain_pod rv ph =
     zero_pod\<lparr>p_uid := ''u1'', p_namespace := ''default'', p_name := ''web'', p_resourceVersion := rv,
       p_nodeName := ''local'', p_status := empty_status\<lparr>ps_phase := ph\<rparr>\<rparr>"

fun phase_encode :: "phase \<Rightarrow> char" where
  "phase_encode NoPhase = CHR ''n''"
| "phase_encode Pending = CHR ''p''"
| "phase_encode Running = CHR ''r''"
| "phase_encode Succeeded = CHR ''s''"
| "phase_encode Failed = CHR ''f''"

definition phase_decode :: "char \<Rightarrow> phase" where
  "phase_decode c = (if c = CHR ''p'' then Pending else if c = CHR ''r'' then Running
     else if c = CHR ''s'' then Succeeded else if c = CHR ''f'' then Failed else NoPhase)"

definition plain_encode :: "api_object \<Rightarrow> string + bytes" where
  "plain_encode obj =
     (case obj of
        PodObj q \<Rightarrow>
          if q = plain_pod (p_resourceVersion q) (ps_phase (p_status q))
          then Inr (phase_encode (ps_phase (p_status q)) # p_resourceVersion q) else Inl ''not a plain pod''
      | _ \<Rightarrow> Inl ''not a pod'')"

fun plain_decode :: "bytes \<Rightarrow> api_object \<Rightarrow> string + api_object" where
  "plain_decode [] into = Inl ''empty''"
| "plain_decode (c # rv) into = Inr (PodObj (plain_pod rv (phase_decode c)))"

lemma plain_codec: "plain_encode y = Inr d \<Longrightarrow> plain_decode d into = Inr y"
proof -
  have "phase_decode (phase_encode ph) = ph" for ph by (cases ph) (simp_all add: phase_decode_def)
  then show "plain_encode y = Inr d \<Longrightarrow> plain_decode d into = Inr y"
    by (auto simp: plain_encode_def split: api_object.splits if_splits)
qed

definition pod_of :: "api_object \<Rightarrow> pod" where
  "pod_of obj = (case obj of PodObj q \<Rightarrow> q | _ \<Rightarrow> zero_pod)"

definition plain_machinery :: machinery where
  "plain_machinery =
     \<lparr>mc_base = \<lparr>Root = [], codec_encode = plain_encode, codec_decode = plain_decode, Newer = PodObj zero_pod,
        accessor_ok = \<lambda>_. True, get_uid = p_uid \<circ> pod_of, set_uid = \<lambda>x u. PodObj (pod_of x\<lparr>p_uid := u\<rparr>),
        get_namespace = p_namespace \<circ> pod_of, get_name = p_name \<circ> pod_of,
        update_object = \<lambda>x v. Inr (PodObj (pod_of x\<lparr>p_resourceVersion := format_uint v\<rparr>)), object_rv = \<lambda>_. Inr 0,
        annotate_end = Inr, parse_rv = \<lambda>_. Inr 0\<rparr>,
      mc_accessorName = \<lambda>x. Inr (p_name (pod_of x)), mc_newText = \<lambda>_. [], mc_counterText = \<lambda>_. []\<rparr>"

definition plain_cfg :: "api_object config" where
  "plain_cfg = (mc_base plain_machinery)\<lparr>Root := ''/data'', Newer := PodObj zero_pod\<rparr>"

definition plain_pods :: "generic_store \<times> api_object sstate" where
  "plain_pods = map_prod projr id
     (sbind (map_err (\<lambda>_. ''counter'') (NewCounter ''/data'')) (\<lambda>_. newStore plain_machinery pods_config ''/data'') demo_disk)"

definition with_plain :: "api_object sstate" where
  "with_plain = snd (Create plain_cfg ''/pods/default/web'' (PodObj (plain_pod [] Pending)) None (snd plain_pods))"

text \<open>What a client may submit: a running pod with another name, node and labels.\<close>

definition submitted :: pod where
  "submitted = zero_pod\<lparr>p_name := ''other'', p_labels := [(''a'', ''b'')], p_nodeName := ''elsewhere'',
     p_status := empty_status\<lparr>ps_phase := Running\<rparr>\<rparr>"

definition status_update :: "api_object update_func" where
  "status_update cur v = Inr (prepare_update newPodStatusStrategy (PodObj submitted) cur, cur)"

lemma plain_storage: "gs_Storage (fst plain_pods) = plain_cfg"
proof -
  let ?run = "sbind (map_err (\<lambda>_. ''counter'') (NewCounter ''/data''))
    (\<lambda>_. newStore plain_machinery pods_config ''/data'') demo_disk"
  have "\<not> isl (fst ?run)" by code_simp
  then obtain g t where run: "?run = (Inr g, t)" by (cases ?run; cases "fst ?run") auto
  then have "gs_Storage g = plain_cfg"
    by (auto simp: sbind_Inr_iff newStore_def plain_cfg_def Let_def config_defs)
  with run show ?thesis by (simp add: plain_pods_def)
qed

lemma plain_laws:
  "codec_encode plain_cfg = plain_encode" "codec_decode plain_cfg = plain_decode" "Root plain_cfg = ''/data''"
  "update_object plain_cfg (PodObj q) v = Inr (PodObj (q\<lparr>p_resourceVersion := format_uint v\<rparr>))"
  "get_uid plain_cfg (PodObj q) = p_uid q" "object_rv plain_cfg x = Inr 0" "Newer plain_cfg = PodObj zero_pod"
  by (simp_all add: plain_cfg_def plain_machinery_def pod_of_def)

section \<open>Properties\<close>

text \<open>
  C28: Field selectors. For every resource the server serves, a request may select by exactly the fields
  that the resource's \<open>getAttrs\<close> publishes, and by \<open>metadata.namespace\<close>; label and value pass
  unchanged. So no selector that can match is rejected, and every other one is. (The scheme keeps
  the conversion registered for a kind; the default conversion accepts name and namespace only.)
\<close>

theorem selectable_fields_are_the_published_ones:
  assumes "registerFieldLabelConversions dflt add scheme = Inr scheme'"
    and "\<And>k f s s'. add k f s = Inr s' \<Longrightarrow> lookup s' = (lookup s)(k \<mapsto> f)" and "lookup scheme = Map.empty"
    and "\<And>l v. dflt l v = (if l \<in> {''metadata.name'', ''metadata.namespace''} then Inr (l, v) else Inl (unknown l))"
    and "rs \<in> set v1_configs" and "rs_getAttrs rs obj = Inr (lbls, flds)"
  shows "conversion_for lookup dflt scheme' (kind_of (rs_newFunc rs)) l v =
    (if l = ''metadata.namespace'' \<or> l \<in> fst ` set flds then Inr (l, v) else Inl (unknown l))"
proof -
  have "lookup scheme' = (lookup scheme)
    (''Pod'' \<mapsto> passthroughFieldSelectors dflt podSelectableFields,
     ''Namespace'' \<mapsto> passthroughFieldSelectors dflt namespaceSelectableFields,
     ''Event'' \<mapsto> passthroughFieldSelectors dflt eventSelectableFields,
     ''Secret'' \<mapsto> passthroughFieldSelectors dflt secretSelectableFields)"
    using assms(2,1) by (rule registered_conversions)
  note c = conversion_for_v1 [OF this assms(3,5)]
  have "l \<in> insert ''metadata.namespace'' (fst ` set flds) \<longleftrightarrow>
      l \<in> {''metadata.name'', ''metadata.namespace''} \<union> set (extra_fields (rs_newFunc rs))"
    by (simp only: published_fields [OF assms(5,6)])
  note f = this [unfolded insert_iff [of l "''metadata.namespace''" "fst ` set flds"]]
  show ?thesis
  proof (cases "kind_of (rs_newFunc rs) = ''ConfigMap''")
    case True
    with assms(5) have "extra_fields (rs_newFunc rs) = []" by (cases rule: v1_cases) simp_all
    then show ?thesis by (simp only: c f) (simp only: True simp_thms if_True assms(4) list.set Un_empty_right)
  next
    case False
    then show ?thesis by (simp only: c if_False passthrough_accepts [OF assms(4)] f)
  qed
qed

theorem selectable_fields_are_the_published_ones_witness:
  "\<exists>scheme. registerFieldLabelConversions demo_default demo_add Map.empty = Inr scheme \<and>
     conversion_for id demo_default scheme ''Event'' ''involvedObject.name'' ''web'' = Inr (''involvedObject.name'', ''web'') \<and>
     conversion_for id demo_default scheme ''Event'' ''status.phase'' ''x'' = Inl ''status.phase''"
proof -
  obtain scheme where r: "registerFieldLabelConversions demo_default demo_add Map.empty = Inr scheme"
    by (simp add: registerFieldLabelConversions_def demo_add_def)
  obtain lbls flds where a: "rs_getAttrs events_config (EventObj zero_event) = Inr (lbls, flds)"
    and f: "fst ` set flds = set (''metadata.name'' # ''metadata.namespace'' # eventSelectableFields)"
    by (simp add: events_config_def event_getAttrs_def eventSelectableFields_def)
  have "conversion_for id demo_default scheme (kind_of (rs_newFunc events_config)) l v =
      (if l = ''metadata.namespace'' \<or> l \<in> fst ` set flds then Inr (l, v) else Inl (id l))" for l v
    by (rule selectable_fields_are_the_published_ones [OF r _ _ _ _ a])
      (simp_all add: demo_add_def demo_default_def v1_configs_def)
  with r show ?thesis by (simp add: f events_config_def eventSelectableFields_def)
qed

text \<open>
  C26: The stores do not interfere. All resources keep their objects below one root, and yet objects of
  different resources, and different objects of one resource, are never in the same file.
\<close>

theorem stores_never_share_files:
  assumes "rs \<in> set v1_configs" and "rs' \<in> set v1_configs" and "Root cfg \<noteq> []"
    and "plain_seg ns" and "plain_seg n" and "plain_seg ns'" and "plain_seg n'"
    and "KeyFunc (rs_prefix rs) (rs_namespaced rs) (Some ns) n = Some key"
    and "KeyFunc (rs_prefix rs') (rs_namespaced rs') (Some ns') n' = Some key'"
    and "key_path cfg cwd key = key_path cfg cwd key'"
  shows "rs = rs' \<and> n = n' \<and> (rs_namespaced rs \<longrightarrow> ns = ns') \<and> key = key'"
proof -
  have "rs_resource rs = rs_resource rs' \<and> n = n' \<and> (rs_namespaced rs \<longrightarrow> ns = ns')"
    using key_path_v1 [OF assms(1,3-5,8), of cwd] key_path_v1 [OF assms(2,3,6,7,9), of cwd] assms(10)
    by (auto split: if_splits)
  moreover from this have "rs = rs'" using assms(1,2) inj_onD [OF v1_resources_distinct] by blast
  ultimately show ?thesis using assms(8,9) by (auto simp: KeyFunc_def split: if_splits)
qed

theorem stores_never_share_files_witness:
  "key_path demo [] ''/pods/default/web'' \<noteq> key_path demo [] ''/secrets/default/web''"
proof
  assume "key_path demo [] ''/pods/default/web'' = key_path demo [] ''/secrets/default/web''"
  moreover have "KeyFunc (rs_prefix pods_config) (rs_namespaced pods_config) (Some ''default'') ''web'' = Some ''/pods/default/web''"
    "KeyFunc (rs_prefix secrets_config) (rs_namespaced secrets_config) (Some ''default'') ''web'' = Some ''/secrets/default/web''"
    by (simp_all add: config_defs KeyFunc_def)
  ultimately show False
    using stores_never_share_files [of pods_config secrets_config demo "''default''" "''web''" "''default''" "''web''"
        "''/pods/default/web''" "''/secrets/default/web''" "[]"]
    by (simp add: v1_configs_def plain_seg_def)
qed

text \<open>
  C22: The status of a pod is updated through \<open>pods/status\<close>. The store behind it passes what a client submits
  through its update strategy, as the generic registry does before it writes; whatever pod the client
  submits, after a successful update on a disk that does not fail a get returns the pod as it was
  stored, with the submitted status and a version, and everything else unchanged. (The
  codec decodes what it encodes into the objects used here, the versioner sets the version, and the stored pod
  has a UID. Deletions through \<open>pods/status\<close> are another matter: the derived store has those of the pods' store.)
\<close>

theorem status_update_changes_only_status:
  assumes "g = derivePodStatusStore pods newPodStatusStrategy" and "cfg = gs_Storage g" and "Root cfg \<noteq> []"
    and "fs_faults s = []" and "key_path cfg (fs_cwd s) key = Inr p" and "files s p = Some data"
    and "codec_decode cfg data (Newer cfg) = Inr (PodObj old)" and "p_uid old \<noteq> []"
    and "upd (PodObj old) (shown_rv cfg (PodObj old)) =
      Inr (prepare_update (gs_UpdateStrategy g) (PodObj new) (PodObj old), PodObj old)"
    and "GuaranteedUpdate cfg key dst ign pre upd s = (Inr x, t)" and "fs_faults t = []"
    and "\<And>y d into. into \<in> {ptr, Newer cfg} \<Longrightarrow> codec_encode cfg y = Inr d \<Longrightarrow> codec_decode cfg d into = Inr y"
    and "\<And>q v. update_object cfg (PodObj q) v = Inr (PodObj (q\<lparr>p_resourceVersion := text_of v\<rparr>))"
    and "\<And>q. get_uid cfg (PodObj q) = p_uid q"
  shows "\<exists>v. Get cfg key ign' ptr t = (Inr (PodObj (old\<lparr>p_status := p_status new, p_resourceVersion := v\<rparr>)), t)"
proof -
  let ?new = "PodObj (old\<lparr>p_status := p_status new\<rparr>)"
  have upd: "upd (PodObj old) (shown_rv cfg (PodObj old)) = Inr (?new, PodObj old)"
    using assms(9) by (simp add: assms(1) derivePodStatusStore_def prepare_status)
  show ?thesis
  proof (cases "codec_encode cfg ?new = Inr data")
    case True
    with assms(7,12) have same: "old\<lparr>p_status := p_status new\<rparr> = old" by fastforce
    have "pre key (PodObj old) = Inr ()"
      using Update_rejected [OF assms(5,6,4,7), of pre _ upd dst ign] assms(10) by (cases "pre key (PodObj old)") auto
    from Update_unchanged [where pre = pre and upd = upd, OF assms(5,6,4,7) this upd True] assms(10) have "t = s" by simp
    with Get_present [OF assms(5,6,4), of ign' ptr] assms(12) [OF _ True, of ptr]
    have "Get cfg key ign' ptr t = (Inr (PodObj (old\<lparr>p_status := p_status new\<rparr>)), t)" by simp
    then have "Get cfg key ign' ptr t =
        (Inr (PodObj (old\<lparr>p_status := p_status new, p_resourceVersion := p_resourceVersion old\<rparr>)), t)" by simp
    then show ?thesis ..
  next
    case False
    let ?v = "text_of (c_rv s + 1)"
    let ?obj = "PodObj (old\<lparr>p_status := p_status new, p_resourceVersion := ?v\<rparr>)"
    from Update_Inr [where pre = pre and upd = upd, OF assms(3) steady_no_faults [OF assms(4)] assms(5-7) upd False assms(10)] obtain obj data' where
      ob: "update_object cfg ?new (c_rv s + 1) = Inr obj" and
      d: "codec_encode cfg (kept_uid cfg (PodObj old) obj) = Inr data'" "files t p = Some data'" by metis
    from ob assms(13) have "obj = ?obj" by simp
    then have "kept_uid cfg (PodObj old) obj = ?obj" using assms(8,14) by (simp add: kept_uid_def)
    with d assms(12) [of ptr ?obj data'] have "codec_decode cfg data' ptr = Inr ?obj" by simp
    moreover have "fs_cwd t = fs_cwd s" using exec_cwd [of cfg "ReqUpdate key dst ign pre upd"] assms(10) by simp
    ultimately have "Get cfg key ign' ptr t = (Inr ?obj, t)"
      using Get_present [of cfg t key p data' ign' ptr] assms(5,11) d(2) by simp
    then show ?thesis ..
  qed
qed

theorem status_update_changes_only_status_witness:
  "\<exists>v. Get plain_cfg ''/pods/default/web'' False (PodObj zero_pod)
      (snd (GuaranteedUpdate plain_cfg ''/pods/default/web'' None False (\<lambda>_ _. Inr ()) status_update with_plain)) =
    (Inr (PodObj ((plain_pod ''2'' Pending)\<lparr>p_status := p_status submitted, p_resourceVersion := v\<rparr>)),
     snd (GuaranteedUpdate plain_cfg ''/pods/default/web'' None False (\<lambda>_ _. Inr ()) status_update with_plain))"
proof (rule status_update_changes_only_status [OF refl])
  let ?run = "GuaranteedUpdate plain_cfg ''/pods/default/web'' None False (\<lambda>_ _. Inr ()) status_update with_plain"
  show "plain_cfg = gs_Storage (derivePodStatusStore (fst plain_pods) newPodStatusStrategy)"
    by (simp add: derivePodStatusStore_def plain_storage)
  show "key_path plain_cfg (fs_cwd with_plain) ''/pods/default/web'' = Inr [''data'', ''pods'', ''default'', ''web.json'']"
    by code_simp
  show "files with_plain [''data'', ''pods'', ''default'', ''web.json''] = Some ''p2''" by code_simp
  show "fs_faults with_plain = []" by code_simp
  show "fs_faults (snd ?run) = []" by code_simp
  have "fst ?run = Inr None" by code_simp
  then show "?run = (Inr None, snd ?run)" by (metis prod.collapse)
  show "codec_decode plain_cfg ''p2'' (Newer plain_cfg) = Inr (PodObj (plain_pod ''2'' Pending))"
    by (simp add: plain_laws phase_decode_def)
  show "status_update (PodObj (plain_pod ''2'' Pending)) (shown_rv plain_cfg (PodObj (plain_pod ''2'' Pending))) =
      Inr (prepare_update (gs_UpdateStrategy (derivePodStatusStore (fst plain_pods) newPodStatusStrategy))
        (PodObj submitted) (PodObj (plain_pod ''2'' Pending)), PodObj (plain_pod ''2'' Pending))"
    by (simp add: status_update_def derivePodStatusStore_def)
qed (simp_all add: plain_laws plain_codec plain_pod_def)

end
