(* ===== verification/Assembly.thy ===== *)
theory Assembly
  imports Startup Resources Logs
begin

text \<open>
  The assembly of the API server: \<open>Build\<close> of \<open>internal/apiserver/apiserver.go\<close> and \<open>run\<close> of
  \<open>cmd/apiserver/main.go\<close>, which prepares the disk (\<open>Startup\<close>), builds the server and runs it. The generic
  server, its configuration and the scheme are third-party code and parameters.
\<close>

section \<open>Build\<close>





text \<open>\<open>net.JoinHostPort\<close>: an address with a colon goes into brackets.\<close>

definition JoinHostPort :: "string \<Rightarrow> string \<Rightarrow> string" where
  "JoinHostPort host port = (if CHR '':'' \<in> set host then ''['' @ host @ '']:'' @ port else host @ '':'' @ port)"





section \<open>run\<close>




section \<open>Properties\<close>





text \<open>The URL of the kubeconfig is that of the server unless the address has a colon, as IPv6 addresses do.\<close>

lemma kubeconfig_url_is_reachable:
  "server_url bindAddr bindPort = ''https://'' @ JoinHostPort bindAddr (format_int bindPort) \<longleftrightarrow> CHR '':'' \<notin> set bindAddr"
  by (auto simp: server_url_def JoinHostPort_def)

section \<open>An instance\<close>





end
