(* ===== verification/Supervisor.thy ===== *)
theory Supervisor
  imports Events
begin

text \<open>
  The process of kubelet-lite: \<open>run\<close> of \<open>cmd/kubelet-lite/main.go\<close>, which builds the reconciler, starts the log server
  (\<open>LogServer.Run\<close>, \<open>logs.go\<close>) and the reconciler (\<open>Reconciler.Run\<close>, \<open>reconciler.go\<close>) as goroutines and waits
  for both. The three are a transition system: a step is a goroutine passing its next blocking
  point. The reconciler's work between its start and its end (\<open>Reconciler\<close>) does not touch this state.
\<close>

section \<open>Feature gates\<close>

text \<open>The features of client-go that \<open>staticGates\<close> names; all others are off.\<close>

datatype feature = WatchListClient | ClientsAllowCBOR | ClientsPreferCBOR | InOrderInformers
  | InOrderInformersBatchProcess | InformerResourceVersion | OtherFeature string

fun Enabled :: "feature \<Rightarrow> bool" where
  "Enabled WatchListClient = True"
| "Enabled ClientsAllowCBOR = False"
| "Enabled ClientsPreferCBOR = False"
| "Enabled InOrderInformers = True"
| "Enabled InOrderInformersBatchProcess = True"
| "Enabled InformerResourceVersion = True"
| "Enabled (OtherFeature f) = False"

section \<open>Setting up\<close>

text \<open>\<open>NewDockerRuntime\<close> (\<open>docker.go\<close>) and \<open>New\<close> (\<open>reconciler.go\<close>); the SDK's client and client-go are parameters.\<close>

definition NewDockerRuntime :: "string + ('d, 'r) docker_cli \<Rightarrow> string + 'd docker_runtime" where
  "NewDockerRuntime client = (case client of Inl e \<Rightarrow> Inl (''docker client: '' @ e) | Inr cli \<Rightarrow> Inr (dockerRT cli))"

definition NewReconciler ::
  "('d, 'k, 'q) reconciler \<Rightarrow> 'k kube_api \<Rightarrow> 'd docker_runtime \<Rightarrow> string \<Rightarrow> ('d, 'k, 'q) reconciler" where
  "NewReconciler base kube docker volumeRoot =
     base\<lparr>rc_kube := kube, rc_docker := docker, rc_host := ''kubelet-lite'', rc_volumeRoot := volumeRoot\<rparr>"

text \<open>
  \<open>run\<close> up to the goroutines. \<open>ks_base\<close> holds the third-party parts of a reconciler: the queue, the splitting of
  keys, error texts, clock and UUIDs. \<open>filepath.Abs\<close> gives the text of the path from the root.
\<close>

record ('c, 'd, 'k, 'q, 'r) kubelet_lib =
  ks_BuildConfigFromFlags :: "string \<Rightarrow> string + 'c"
  ks_NewForConfig :: "string \<Rightarrow> 'c \<Rightarrow> string + 'k kube_api"
  ks_NewClientWithOpts :: "string + ('d, 'r) docker_cli"
  ks_base :: "('d, 'k, 'q) reconciler"

definition path_text :: "path \<Rightarrow> string" where
  "path_text p = (if p = [] then ''/'' else concat (map (\<lambda>c. CHR ''/'' # c) p))"

definition volume_root :: "os_text \<Rightarrow> string \<Rightarrow> ('x fs_state_scheme, string, string) sem" where
  "volume_root err_text volumeRoot =
     (if volumeRoot \<noteq> [] then
        sbind (gets (\<lambda>s. join_path (fs_cwd s) [volumeRoot])) (\<lambda>abs.
        sbind (map_err (\<lambda>e. ''create volume-root '' @ quote (path_text abs) @ '': '' @ err_text e) (os_mkdir_all abs)) (\<lambda>_.
        ret (path_text abs)))
      else ret [])"

definition kubelet_setup ::
  "('c, 'd, 'k, 'q, 'r) kubelet_lib \<Rightarrow> string \<Rightarrow> string \<Rightarrow> ('x fs_state_scheme, string, ('d, 'k, 'q) reconciler) sem" where
  "kubelet_setup L kubeconfig volumeRoot =
     sbind (volume_root (rc_text (ks_base L)) volumeRoot) (\<lambda>volumeRoot.
     sbind (of_sum (ks_BuildConfigFromFlags L kubeconfig)) (\<lambda>cfg.
     sbind (of_sum (ks_NewForConfig L ''kubelet-lite/v1'' cfg)) (\<lambda>clientset.
     sbind (of_sum (NewDockerRuntime (ks_NewClientWithOpts L))) (\<lambda>docker.
     ret (NewReconciler (ks_base L) clientset docker volumeRoot)))))"

text \<open>
  The directory for volumes exists afterwards, and where a pod's volume goes no longer depends on the
  working directory.
\<close>

lemma mkdirs_made: "mkdirs_at p n = Inr n' \<Longrightarrow> dir_at n' p"
  by (induction p n arbitrary: n' rule: mkdirs_at.induct) (auto simp: map_of_ins split: sum.splits)

lemma absolute_join: "r \<noteq> [] \<Longrightarrow> hd r = CHR ''/'' \<Longrightarrow> join_path cwd (r # es) = join_path cwd' (r # es)"
  by (simp add: join_path_def Let_def)

lemma path_text_absolute: "path_text p \<noteq> []" "hd (path_text p) = CHR ''/''"
  by (cases p; simp add: path_text_def)+

lemma kubelet_setup_volumes:
  assumes "kubelet_setup L kubeconfig volumeRoot s = (Inr R, t)" and "volumeRoot \<noteq> []"
  shows "dir_at (fs_root t) (join_path (fs_cwd s) [volumeRoot])"
    "volumeHostDir cwd (rc_volumeRoot R) pod vol = volumeHostDir cwd' (rc_volumeRoot R) pod vol"
proof -
  let ?abs = "join_path (fs_cwd s) [volumeRoot]"
  from assms have mk: "os_mkdir_all ?abs s = (Inr (), t)" and R: "rc_volumeRoot R = path_text ?abs"
    by (auto simp: kubelet_setup_def volume_root_def NewReconciler_def sbind_Inr_iff)
  from mk show "dir_at (fs_root t) ?abs" unfolding os_mkdir_all_def by (auto dest!: change_Inr intro: mkdirs_made)
  show "volumeHostDir cwd (rc_volumeRoot R) pod vol = volumeHostDir cwd' (rc_volumeRoot R) pod vol"
    unfolding R volumeHostDir_def by (rule absolute_join [OF path_text_absolute])
qed

section \<open>The goroutines\<close>

text \<open>
  An error is \<open>None\<close> for \<open>nil\<close>. \<open>Serve\<close> returns \<open>http.ErrServerClosed\<close> after a shutdown and other errors when
  it fails. A finished goroutine has sent its result into a channel with room for it.
\<close>

type_synonym err = "string option"

datatype serve_error = ErrServerClosed | ServeError string

datatype log_server = LogListening | LogServing | LogDone err
datatype rec_loop = RecSyncing | RecRunning | RecDone err
datatype main_loop = Selecting | AwaitingRec err | AwaitingLog err | Returned err

record proc =
  pr_cancelled :: bool
  pr_log :: log_server
  pr_rec :: rec_loop
  pr_main :: main_loop

definition proc_init :: proc where
  "proc_init = \<lparr>pr_cancelled = False, pr_log = LogListening, pr_rec = RecSyncing, pr_main = Selecting\<rparr>"

fun serve_result :: "serve_error \<Rightarrow> err" where
  "serve_result ErrServerClosed = None"
| "serve_result (ServeError e) = Some e"

text \<open>
  What makes a goroutine move. \<open>Own\<close> steps need nobody: they are passed as soon as the goroutine runs, such as a call that
  returns one way or the other, a channel that is ready, a context that is done. \<open>Env\<close> steps are the
  environment's, and may never come: a signal, a failing listener, the API server's answer to the first list.
\<close>

datatype cause = Own | Env

text \<open>
  \<open>LogServer.Run\<close>: it listens, and then waits for the context or for \<open>Serve\<close> to fail; if both are ready
  either may be taken.
\<close>

inductive log_step :: "string \<Rightarrow> bool \<Rightarrow> cause \<Rightarrow> log_server \<Rightarrow> log_server \<Rightarrow> bool" for addr where
  listen_failed: "log_step addr c Own LogListening (LogDone (Some (''log listen '' @ addr @ '': '' @ e)))"
| listening: "log_step addr c Own LogListening LogServing"
| log_shutdown: "log_step addr True Own LogServing (LogDone None)"
| serve_failed: "log_step addr c Env LogServing (LogDone (serve_result e))"

text \<open>
  \<open>Reconciler.Run\<close>: the cache syncs or the context ends the wait; then it reaps orphans, starts the worker
  and the reaper, and waits for the context.
\<close>

inductive rec_step :: "bool \<Rightarrow> cause \<Rightarrow> rec_loop \<Rightarrow> rec_loop \<Rightarrow> bool" where
  synced: "rec_step c Env RecSyncing RecRunning"
| sync_failed: "rec_step True Own RecSyncing (RecDone (Some ''cache sync failed''))"
| rec_shutdown: "rec_step True Own RecRunning (RecDone None)"

text \<open>
  The process; \<open>signal\<close> is an interrupt or a termination request. The first result that \<open>run\<close> receives makes it call
  \<open>cancel\<close>, and it then waits for the other goroutine.
\<close>

inductive proc_step :: "string \<Rightarrow> cause \<Rightarrow> proc \<Rightarrow> proc \<Rightarrow> bool" for addr where
  signal: "\<not> pr_cancelled s \<Longrightarrow> proc_step addr Env s (s\<lparr>pr_cancelled := True\<rparr>)"
| in_log: "log_step addr (pr_cancelled s) k (pr_log s) l \<Longrightarrow> proc_step addr k s (s\<lparr>pr_log := l\<rparr>)"
| in_rec: "rec_step (pr_cancelled s) k (pr_rec s) r \<Longrightarrow> proc_step addr k s (s\<lparr>pr_rec := r\<rparr>)"
| log_first: "pr_main s = Selecting \<Longrightarrow> pr_log s = LogDone e \<Longrightarrow>
    proc_step addr Own s (s\<lparr>pr_cancelled := True, pr_main := AwaitingRec e\<rparr>)"
| rec_first: "pr_main s = Selecting \<Longrightarrow> pr_rec s = RecDone e \<Longrightarrow>
    proc_step addr Own s (s\<lparr>pr_cancelled := True, pr_main := AwaitingLog e\<rparr>)"
| rec_last: "pr_main s = AwaitingRec e \<Longrightarrow> pr_rec s = RecDone e' \<Longrightarrow> proc_step addr Own s (s\<lparr>pr_main := Returned e\<rparr>)"
| log_last: "pr_main s = AwaitingLog e \<Longrightarrow> pr_log s = LogDone e' \<Longrightarrow> proc_step addr Own s (s\<lparr>pr_main := Returned e\<rparr>)"

inductive_cases log_stepE: "log_step addr c k l l'"
inductive_cases rec_stepE: "rec_step c k r r'"
inductive_cases proc_stepE: "proc_step addr k s t"

section \<open>Runs\<close>

inductive proc_run :: "string \<Rightarrow> proc \<Rightarrow> bool" for addr where
  start: "proc_run addr proc_init"
| move: "proc_run addr s \<Longrightarrow> proc_step addr k s t \<Longrightarrow> proc_run addr t"

text \<open>The invariant of the supervision: who has finished, and whose result is kept.\<close>

fun proc_inv :: "proc \<Rightarrow> bool" where
  "proc_inv s =
     (case pr_main s of
        Selecting \<Rightarrow> True
      | AwaitingRec e \<Rightarrow> pr_cancelled s \<and> pr_log s = LogDone e
      | AwaitingLog e \<Rightarrow> pr_cancelled s \<and> pr_rec s = RecDone e
      | Returned e \<Rightarrow> pr_cancelled s \<and>
          (\<exists>e1 e2. pr_log s = LogDone e1 \<and> pr_rec s = RecDone e2 \<and> (e = e1 \<or> e = e2)))"

lemma proc_inv_step: "proc_step addr k s t \<Longrightarrow> proc_inv s \<Longrightarrow> proc_inv t"
  by (erule proc_stepE) (auto split: main_loop.splits elim!: log_stepE rec_stepE)

lemma proc_run_inv: "proc_run addr s \<Longrightarrow> proc_inv s"
proof (induction rule: proc_run.induct)
  case start
  then show ?case by (simp add: proc_init_def)
next
  case (move s k t)
  then show ?case using proc_inv_step by blast
qed

text \<open>Something has happened that is to end the process: a signal, or one of the goroutines has returned.\<close>

definition ending :: "proc \<Rightarrow> bool" where
  "ending s \<longleftrightarrow> pr_cancelled s \<or> (\<exists>e. pr_log s = LogDone e) \<or> (\<exists>e. pr_rec s = RecDone e)"

lemma ending_step: "proc_step addr k s t \<Longrightarrow> ending s \<Longrightarrow> ending t"
  by (erule proc_stepE) (auto simp: ending_def elim!: log_stepE rec_stepE)

text \<open>Every step uses up something.\<close>

definition proc_left :: "proc \<Rightarrow> nat" where
  "proc_left s =
     (if pr_cancelled s then 0 else 1) +
     (case pr_log s of LogListening \<Rightarrow> 2 | LogServing \<Rightarrow> 1 | LogDone _ \<Rightarrow> 0) +
     (case pr_rec s of RecSyncing \<Rightarrow> 2 | RecRunning \<Rightarrow> 1 | RecDone _ \<Rightarrow> 0) +
     (case pr_main s of Selecting \<Rightarrow> 2 | AwaitingRec _ \<Rightarrow> 1 | AwaitingLog _ \<Rightarrow> 1 | Returned _ \<Rightarrow> 0)"

lemma proc_left_step: "proc_step addr k s t \<Longrightarrow> proc_left t < proc_left s"
  by (erule proc_stepE) (auto simp: proc_left_def elim!: log_stepE rec_stepE)

text \<open>Once it is ending, a process that has not returned can go on without the environment.\<close>

lemma own_progress_cancelled:
  assumes "proc_inv s" and "\<forall>e. pr_main s \<noteq> Returned e" and "pr_cancelled s"
  shows "\<exists>t. proc_step addr Own s t"
proof -
  consider (log) "\<forall>e. pr_log s \<noteq> LogDone e" | (rec) "\<forall>e. pr_rec s \<noteq> RecDone e"
    | (both) e e' where "pr_log s = LogDone e" "pr_rec s = RecDone e'" by auto
  then show ?thesis
  proof cases
    case log
    with assms(3) have "\<exists>l. log_step addr (pr_cancelled s) Own (pr_log s) l"
      by (cases "pr_log s") (auto intro: log_step.intros)
    then show ?thesis by (auto intro: in_log)
  next
    case rec
    with assms(3) have "\<exists>r. rec_step (pr_cancelled s) Own (pr_rec s) r"
      by (cases "pr_rec s") (auto intro: rec_step.intros)
    then show ?thesis by (auto intro: in_rec)
  next
    case both
    with assms(2) show ?thesis by (cases "pr_main s") (auto intro: proc_step.intros)
  qed
qed

lemma own_progress:
  assumes "proc_inv s" and "\<forall>e. pr_main s \<noteq> Returned e" and "ending s"
  shows "\<exists>t. proc_step addr Own s t"
proof (cases "pr_cancelled s")
  case True
  with assms(1,2) show ?thesis by (rule own_progress_cancelled)
next
  case False
  with assms(1,2) have "pr_main s = Selecting" by (cases "pr_main s") auto
  with False assms(3) show ?thesis by (auto simp: ending_def intro: log_first rec_first)
qed

text \<open>
  The process returns whatever happens: it has, with the result of one of the goroutines and after both have returned;
  or it has a step of its own, and returns after every step that is possible.
\<close>

inductive returns :: "string \<Rightarrow> proc \<Rightarrow> bool" for addr where
  returned: "pr_main s = Returned e \<Longrightarrow> pr_log s = LogDone e1 \<Longrightarrow> pr_rec s = RecDone e2 \<Longrightarrow> e = e1 \<or> e = e2 \<Longrightarrow>
    returns addr s"
| goes_on: "proc_step addr Own s t \<Longrightarrow> (\<And>k u. proc_step addr k s u \<Longrightarrow> returns addr u) \<Longrightarrow> returns addr s"

lemma ending_returns: "proc_inv s \<Longrightarrow> ending s \<Longrightarrow> returns addr s"
proof (induction s rule: measure_induct_rule [of proc_left])
  case (less s)
  show ?case
  proof (cases "\<exists>e. pr_main s = Returned e")
    case True
    with less.prems(1) show ?thesis by (auto intro: returned)
  next
    case False
    with less.prems obtain t where "proc_step addr Own s t" using own_progress by blast
    then show ?thesis
    proof (rule goes_on)
      fix k u assume "proc_step addr k s u"
      then show "returns addr u"
        using less.IH proc_left_step proc_inv_step ending_step less.prems by blast
    qed
  qed
qed

text \<open>
  C37: kubelet-lite ends as a whole. In every state that the process can reach, once there was a signal, or the log server or
  the reconciler has returned, \<open>run\<close> returns whatever happens next, after both goroutines have returned and with the
  result of one of them; for that it never needs the environment again, no signal, no failure of the
  listener and no answer of the API server. And it has not returned before.
\<close>

theorem kubelet_ends_as_a_whole:
  assumes "proc_run addr s"
  shows "(ending s \<longrightarrow> returns addr s) \<and> (\<not> ending s \<longrightarrow> pr_main s = Selecting)"
proof -
  note i = proc_run_inv [OF assms]
  then have "\<not> ending s \<Longrightarrow> pr_main s = Selecting" by (cases "pr_main s") (auto simp: ending_def)
  with ending_returns [OF i] show ?thesis by blast
qed

text \<open>The address is in use: the log server fails while the reconciler's cache syncs, and there never is a signal.\<close>

lemma demo_proc_run: "proc_run addr (proc_init\<lparr>pr_log := LogDone (Some (''log listen '' @ addr @ '': '' @ ''in use''))\<rparr>)"
  using proc_run.move [OF proc_run.start in_log, of addr Own] log_step.listen_failed [of addr False "''in use''"]
  by (simp add: proc_init_def)

theorem kubelet_ends_as_a_whole_witness:
  "returns ''127.0.0.1:10350''
    (proc_init\<lparr>pr_log := LogDone (Some (''log listen '' @ ''127.0.0.1:10350'' @ '': '' @ ''in use''))\<rparr>)"
proof -
  have "ending (proc_init\<lparr>pr_log := LogDone (Some (''log listen '' @ ''127.0.0.1:10350'' @ '': '' @ ''in use''))\<rparr>)"
    by (simp add: ending_def)
  with kubelet_ends_as_a_whole [OF demo_proc_run [of "''127.0.0.1:10350''"]] show ?thesis by blast
qed

end
