(* ===== verification/Spec2Isabelle.thy ===== *)
theory Spec2Isabelle
  imports Interleaving Kubelet_Loop Assembly Supervisor
begin

text \<open>
  Verification of a small Kubernetes control plane: an API server whose storage is a directory of
  JSON files (\<open>internal/fsstorage\<close>), the REST layer on top of it (\<open>internal/apiserver\<close>), and a
  kubelet that runs pods as Docker containers (\<open>internal/kubelet\<close>), with their certificates
  (\<open>internal/pki\<close>) and commands (\<open>cmd\<close>).

  \<^bold>\<open>The program.\<close> The store keeps one file per object, draws resource versions from a counter that
  all stores share and that is persisted on every draw, and publishes every change to a broadcaster,
  which keeps a ring of the last events for watches that resume. The API server serves five
  resources with one store each, prepares objects with strategies, prints them as tables and passes
  log requests on to the kubelet. The kubelet reconciles each pod with the containers of the Docker
  daemon, writes back its status and records events, projects ConfigMaps and Secrets into volumes
  and environments, and serves the containers' logs.

  \<^bold>\<open>Shared theories.\<close> \<open>Prelude\<close>: state passing with errors (\<open>sem\<close>, \<open>sbind\<close>, \<open>attempt\<close>), the rules for
  invariants, sorted association lists. \<open>Go_Strings\<close>: the functions of \<open>strings\<close>, \<open>strconv\<close> and
  \<open>path/filepath\<close> in use. \<open>Filesystem\<close>: directory trees and system calls under a list of faults, with
  \<open>atomicWrite\<close> (\<open>store.go\<close>). A fault makes a call fail after part of its work; a crash is a list in
  which all further calls fail. \<open>Walk\<close>: \<open>walkObjects\<close>. \<open>Float64\<close>: IEEE rounding of \<open>float64\<close> results.
  \<open>Url_Query\<close>: \<open>net/url\<close> queries. \<open>Pods\<close>: the fields of the API types that the code reads.

  \<^bold>\<open>The store.\<close> \<open>Counter\<close> (\<open>counter.go\<close>), \<open>Keys\<close> (\<open>parseKey\<close>, \<open>parsePrefix\<close>, paths, key functions), \<open>Broadcast\<close>
  (\<open>watch.go\<close>), \<open>Store\<close> (\<open>New\<close>, \<open>Create\<close>, \<open>Get\<close>, \<open>Delete\<close>, \<open>GuaranteedUpdate\<close>), \<open>Store_Watch\<close> (\<open>GetList\<close>,
  \<open>Count\<close>, \<open>Stats\<close>, \<open>Watch\<close>, \<open>list.go\<close>). \<open>Store_Spec\<close> states what the store promises, an in-memory map
  with two counters and the broadcaster, and proves that each operation simulates it. \<open>Store_Laws\<close>
  has the interface for invariants of the store's state and the histories of a store; \<open>Store_Objects\<close>
  what the operations do to files. A request is one step in these theories. \<open>Interleaving\<close> takes the
  requests apart: a request holds its key's mutex, and requests of other keys run between its
  draw of a version and its publication. It shows what
  stays true under all interleavings, and which guarantee of the sequential store is lost. \<open>Example\<close>
  instantiates codec and versioner.

  \<^bold>\<open>The API server.\<close> \<open>Strategy\<close> (\<open>strategy.go\<close>), \<open>Ages\<close> and \<open>Tables\<close> (\<open>tables.go\<close>), \<open>Resources\<close> (\<open>fields.go\<close>,
  \<open>storage.go\<close>, \<open>openapi.go\<close>, and \<open>Options.Defaults\<close> and \<open>buildV1Storage\<close> of \<open>apiserver.go\<close>), \<open>Logs\<close>
  (\<open>podlogs.go\<close>, and the kubelet's \<open>logs.go\<close>). \<open>Pki\<close> (\<open>pki.go\<close>: \<open>EnsureServerCert\<close>, \<open>WriteKubeconfig\<close>), \<open>Startup\<close>
  (\<open>WaitForReady\<close>, and \<open>run\<close> of \<open>cmd/apiserver/main.go\<close> up to the call of \<open>Build\<close>), \<open>Assembly\<close> (\<open>Build\<close> and the
  whole of \<open>run\<close>).

  \<^bold>\<open>The kubelet.\<close> \<open>Projection\<close> (\<open>projection.go\<close>), \<open>Translate\<close> (\<open>translate.go\<close>), \<open>Docker\<close> (\<open>docker.go\<close>),
  \<open>Runtime\<close> (the interface \<open>DockerRuntime\<close> and its laws, proved for \<open>dockerRT\<close> from the laws of the
  daemon), \<open>Events\<close> (\<open>events.go\<close>), \<open>Reconciler\<close> (\<open>reconciler.go\<close>), \<open>Reconciler_Laws\<close> (its behaviour for
  every runtime with these laws), \<open>Kubelet\<close> (the properties), \<open>Kubelet_Example\<close> (a daemon and a pod),
  \<open>Kubelet_Loop\<close> (handlers, worker and reaper in any order, and \<open>runWorker\<close>), \<open>Supervisor\<close> (\<open>run\<close> of
  \<open>cmd/kubelet-lite/main.go\<close> with \<open>New\<close>, and the two goroutines it waits for as a transition system).

  \<^bold>\<open>What is shown.\<close> The store refines its specification on every request that the disk does not
  fail; after faults and crashes no object is torn, no version is handed out twice and no
  other object is touched; what was written is read; rejected and empty
  updates leave no trace. Watches resume without gaps in one life of the process when requests are served one after
  the other, are refused when they are too old and start with a snapshot, as long as the channel of 100 events holds
  what they are due;
  three theorems show where this breaks: on full channels and under concurrent writers,
  where an event can be lost (\<open>Interleaving\<close>), although versions stay unique and ordered per object.
  The kubelet's reconciliation only adds containers, brings the pod up or records a failure, and is
  idempotent; termination and reaping touch the pod's containers and no others; in every run of the
  kubelet foreign containers are left alone, a deleted pod is gone, and the worker ends with its queue. A log request is
  transparent through both servers. Tables are well typed, their rows and ages agree with the
  kubelet's status and with exact arithmetic; stores, attributes, selectors, convertors and
  strategies of the five resources fit together, and an update through \<open>pods/status\<close> changes the status only. Start-up leaves a serving certificate that verifies
  for the address, a kubeconfig that trusts its authority, and a server wired to both; one theorem shows
  how a failed write of the key is never repaired. Waiting for the server ends, and so does
  the kubelet's process, as a whole, once it was signalled or one of its two goroutines has returned.

  \<^bold>\<open>Parameters.\<close> Third-party code is an argument of the definitions that use it: the codec, versioner
  and metadata accessor of the API machinery, the scheme, the default conversion of field selectors,
  the client, lister and work queue of client-go, the Docker SDK and \<open>stdcopy\<close>, the URL parser and
  the HTTP client of the log proxy, the cryptographic library (\<open>x509\<close>, with its laws), client-go's handling
  of configuration files, and the generic API server. Their laws are hypotheses where a property needs them.

  \<^bold>\<open>Bounds and choices.\<close> Versions are 64-bit words; properties about their order exclude a counter
  that is about to wrap. Channels are bounded queues with the capacity the code gives them; blocking
  for ever on a mutex the caller holds, and a send on a closed channel, are outcomes. Go maps are
  association lists in the order in which \<open>range\<close> happens to visit them. Times are nanoseconds; the
  clock is read once per step of the kubelet and per run of \<open>EnsureServerCert\<close>. File modes are not modelled. \<open>%q\<close> and \<open>TrimSpace\<close> are modelled for ASCII. Truncation
  of durations to seconds is exact for the whole seconds the code passes. Recursion is structural
  or has a measure; \<open>runWorker\<close>, which may go on for ever, is a partial function with an
  option as its result, and is proved to return. No fuel is used. An action of the kubelet is one step of
  its runs; that its goroutines interleave between two calls of the daemon is not modelled.

  \<^bold>\<open>Not modelled.\<close> That the stores are given the same counter object: the state has one counter. Logging, and contexts but for their cancellation; the routing tables of the HTTP
  servers; \<open>Run\<close> of the API server, one call of the generic server; \<open>wait.Until\<close>, which repeats the
  reconciler's steps; \<open>Eventf\<close>, whose formatted text is what \<open>Event\<close> is given, and the recorder that
  does nothing; flag parsing. These are calls of third-party code or have no behaviour of their own.
\<close>

section \<open>The object store\<close>

text \<open>
  C1: Refinement. Every request on the store either fails with an error of the operating system or
  has exactly the result and the effect that the specification has on the view of the state: an
  in-memory map of objects with a version counter, a UID counter and the broadcaster. No
  temporary file, directory or counter file shows through. (A directory with the name of an
  object's file would be taken for the object by \<open>Create\<close> and is excluded; a fault that reports
  a present file as missing is not an error of the disk.)
\<close>

theorem store_implements_specification:
  assumes "Root cfg \<noteq> []" and "steady s"
    and "\<And>p. key_path cfg (fs_cwd s) (req_key req) = Inr p \<Longrightarrow> \<not> dir_at (fs_root s) p"
    and "exec cfg req s = (r, t)"
  shows "(\<exists>e. r = Inl (OsErr e)) \<or> spec_exec cfg req (view_of s) = (r, view_of t)"
  using assms by (rule exec_refines)

theorem store_implements_specification_witness:
  "spec_exec demo (ReqCreate ''/pods/default/web'' web None) (view_of empty_disk) =
     (Inr None, view_of (snd (exec demo (ReqCreate ''/pods/default/web'' web None) empty_disk)))"
proof -
  let ?req = "ReqCreate ''/pods/default/web'' web None"
  have r: "exec demo ?req empty_disk = (Inr None, snd (exec demo ?req empty_disk))"
    by (rule prod_eqI) (simp, code_simp, simp)
  have "steady empty_disk" by (simp add: steady_def empty_disk_def)
  moreover have "\<not> dir_at (fs_root empty_disk) p"
    if "key_path demo (fs_cwd empty_disk) (req_key ?req) = Inr p" for p
  proof -
    have "key_path demo (fs_cwd empty_disk) (req_key ?req) = Inr [''data'', ''pods'', ''default'', ''web.json'']"
      by code_simp
    with that show ?thesis by (simp add: empty_disk_def)
  qed
  ultimately show ?thesis
    using store_implements_specification [of demo empty_disk ?req, OF _ _ _ r] by simp
qed

text \<open>
  C2: Invariant. In every life of the process, from the start of the store with an empty ring and through any
  sequence of requests that are served one after the other under any faults of the disk, the versions of
  the events published in this life increase strictly, and a replay that is not refused returns exactly
  the events of this life that a client that has seen everything up to version \<open>v\<close> is missing: its past
  followed by the replay is the whole log, in order. (For writers that run at the same time this fails, as
  \<open>Interleaving\<close> shows; events of an earlier life are in no log of this one.)
\<close>

theorem replay_is_complete:
  assumes "history cfg hist s" and "replayLocked v (s_bc s) = Some es"
  shows "rv_sorted hist \<and> filter (\<lambda>e. ev_rv e \<le> v) hist @ es = hist"
  using history_inv [OF assms(1)] assms(2) blog.resume [of hist "s_bc s" v es]
  by (simp add: log_ok_def)

theorem replay_is_complete_witness:
  "rv_sorted created_log \<and> filter (\<lambda>e. ev_rv e \<le> 1) created_log @ created_log = created_log"
proof -
  have "replayLocked 1 (s_bc created) = Some created_log" by code_simp
  with replay_is_complete [OF created_history, of 1 created_log] show ?thesis by simp
qed

text \<open>
  C3: Durability of the version counter. After any sequence of requests under any faults, once an
  event has been published, a restart of the process on the disk as it then is loads the counter
  and continues from the very value it had: no version that was handed out is handed out again.
\<close>

theorem restart_continues_versions:
  assumes "history cfg hist s" and "hist \<noteq> []"
  shows "\<exists>t. NewCounter (Root cfg) (s\<lparr>fs_faults := []\<rparr>) = (Inr (), t) \<and> c_rv t = c_rv s \<and>
    (\<forall>e \<in> set hist. ev_rv e \<le> c_rv t)"
proof -
  let ?s = "s\<lparr>fs_faults := []\<rparr>" and ?f = "counter_file (Root cfg) (fs_cwd s)"
  from history_inv [OF assms(1)] have ok: "log_ok hist s" and p: "persisted (Root cfg) s" by simp_all
  from ok assms(2) have "1 < ev_rv (hd hist)" "ev_rv (hd hist) \<le> c_rv s" by (simp_all add: log_ok_def)
  then have gt: "1 < c_rv s" by simp
  then have m: "max 1 (c_rv s) = c_rv s" by simp
  from p m gt obtain b where b: "files s ?f = Some b" "rv_of_bytes b = Inr (c_rv s)"
    by (auto simp: persisted_def stored_rv_def split: option.splits)
  then have "NewCounter (Root cfg) ?s = (Inr (), ?s\<lparr>c_rv := c_rv s\<rparr>)"
    using NewCounter_file [of ?s "Root cfg" b] by simp
  with ok show ?thesis by (auto simp: log_ok_def)
qed

theorem restart_continues_versions_witness:
  "\<exists>t. NewCounter (Root demo) (created\<lparr>fs_faults := []\<rparr>) = (Inr (), t) \<and> c_rv t = c_rv created \<and>
    (\<forall>e \<in> set created_log. ev_rv e \<le> c_rv t)"
  using restart_continues_versions [OF created_history] by (simp add: created_event)

text \<open>
  C4: Crash safety. Whatever calls fail, wherever the process stops, after a request every object
  file of the tree holds what it held before, or the complete encoding of an object, or is gone;
  no file is ever torn.
\<close>

theorem no_torn_objects:
  assumes "Root cfg \<noteq> []" and "exec cfg req s = (r, t)" and "object_path p"
  shows "files t p = files s p \<or> files t p = None \<or>
    (\<exists>obj data. codec_encode cfg obj = Inr data \<and> files t p = Some data)"
proof -
  have "preserves (\<lambda>t. Root cfg \<noteq> [] \<and> intact cfg (files s) t) (exec cfg req)"
    using assms(1) by (intro whole.exec_inv) (auto intro: key_path_object)
  from preservesD [OF this _ assms(2)] assms(1,3) show ?thesis by (simp add: intact_def)
qed

theorem no_torn_objects_witness:
  "let s = created\<lparr>fs_faults := [NoFault, NoFault, Fault EIO 1]\<rparr>;
       t = snd (exec demo (ReqDelete web_key None (\<lambda>_ _. Inr ()) None False) s)
   in files t web_path = files s web_path \<or> files t web_path = None \<or>
      (\<exists>obj data. codec_encode demo obj = Inr data \<and> files t web_path = Some data)"
  using no_torn_objects [of demo "ReqDelete web_key None (\<lambda>_ _. Inr ()) None False"
      "created\<lparr>fs_faults := [NoFault, NoFault, Fault EIO 1]\<rparr>", OF _ prod.collapse [symmetric], of web_path]
  by (simp add: Let_def object_path_def has_suffix_def)

text \<open>
  C5: Isolation. A request touches, on any outcome and under any faults, only the file of its own
  object, the counter's file and their temporary files; every other file keeps its bytes.
\<close>

theorem requests_are_isolated:
  assumes "key_path cfg (fs_cwd s) (req_key req) = Inr p" and "exec cfg req s = (r, t)"
    and "q \<notin> touched cfg (fs_cwd s) p"
  shows "files t q = files s q"
proof -
  have "preserves (others_same cfg (fs_cwd s) p (files s)) (exec cfg req)"
    using assms(1) by (intro iso.exec_inv) (auto simp: others_same_def)
  from preservesD [OF this _ assms(2)] assms(3) show ?thesis by (simp add: others_same_def agree_off_def)
qed

theorem requests_are_isolated_witness:
  "files (snd (exec demo (ReqCreate ''/pods/default/db'' web None) created)) web_path = files created web_path"
proof (rule requests_are_isolated [OF _ prod.collapse [symmetric]])
  show "key_path demo (fs_cwd created) (req_key (ReqCreate ''/pods/default/db'' web None)) =
      Inr [''data'', ''pods'', ''default'', ''db.json'']" unfolding created_facts by code_simp
  show "web_path \<notin> touched demo (fs_cwd created) [''data'', ''pods'', ''default'', ''db.json'']"
    unfolding created_facts by code_simp
qed

text \<open>
  C6: Round trip. After a successful create, a get of the same key returns the object that was
  created, with a UID if it came without one and with the next version, for every codec that
  decodes what it encodes into the object the caller passes (generic callers pass a new one: a
  JSON decode into a filled object would merge).
\<close>

theorem create_then_get:
  assumes "Root cfg \<noteq> []" and "steady s"
    and "\<And>p. key_path cfg (fs_cwd s) key = Inr p \<Longrightarrow> \<not> dir_at (fs_root s) p"
    and "Create cfg key obj out s = (Inr x, t)" and "fs_faults t = []"
    and "\<And>y d. codec_encode cfg y = Inr d \<Longrightarrow> codec_decode cfg d ptr = Inr y"
  shows "\<exists>obj'. Get cfg key ign ptr t = (Inr obj', t) \<and>
    update_object cfg (stamped_uid cfg s obj) (c_rv s + 1) = Inr obj'"
proof -
  from Create_Inr [OF assms(1-4)] obtain p obj' data where *: "key_path cfg (fs_cwd s) key = Inr p"
    "update_object cfg (stamped_uid cfg s obj) (c_rv s + 1) = Inr obj'"
    "codec_encode cfg obj' = Inr data" "files t p = Some data" by metis
  moreover have "fs_cwd t = fs_cwd s" using exec_cwd [of cfg "ReqCreate key obj out"] assms(4) by simp
  ultimately show ?thesis using Get_present [of cfg t key p data ign ptr] assms(5,6) by simp
qed

theorem create_then_get_witness:
  "\<exists>obj'. Get demo web_key False blank created = (Inr obj', created) \<and>
    update_object demo (stamped_uid demo booted web) (c_rv booted + 1) = Inr obj'"
proof (rule create_then_get [OF _ _ _ created_run])
  show "\<not> dir_at (fs_root booted) p" if "key_path demo (fs_cwd booted) web_key = Inr p" for p
  proof -
    from that web_key_path have "p = web_path" by (simp add: booted_facts)
    then show ?thesis by (simp add: booted_facts)
  qed
  show "\<And>y d. codec_encode demo y = Inr d \<Longrightarrow> codec_decode demo d blank = Inr y"
    by (simp add: item_codec)
qed (simp_all add: booted_facts created_facts steady_no_faults)

text \<open>
  C7: Round trip of an update. After a successful update that changed the object, a get returns
  what the update function produced, stamped with the next version; if it came without a UID it
  has the UID of the object it replaced; and exactly one event, \<open>Modified\<close> with that version, was
  published. (The codec decodes what it encodes into the object the caller of the get passes.)
\<close>

theorem update_then_get:
  assumes "Root cfg \<noteq> []" and "steady s" and "key_path cfg (fs_cwd s) key = Inr p"
    and "files s p = Some data" and "codec_decode cfg data (Newer cfg) = Inr cur"
    and "upd cur (shown_rv cfg cur) = Inr (new, cur')" and "codec_encode cfg new \<noteq> Inr data"
    and "GuaranteedUpdate cfg key dst ign pre upd s = (Inr x, t)" and "fs_faults t = []"
    and "\<And>y d. codec_encode cfg y = Inr d \<Longrightarrow> codec_decode cfg d ptr = Inr y"
  shows "\<exists>obj. update_object cfg new (c_rv s + 1) = Inr obj \<and>
    Get cfg key ign' ptr t = (Inr (kept_uid cfg cur' obj), t) \<and>
    s_bc t = snd (publish \<lparr>ev_rv = c_rv s + 1, ev_type = Modified, ev_obj = kept_uid cfg cur' obj\<rparr> (s_bc s))"
proof -
  from Update_Inr [OF assms(1-8)] obtain obj data' where *: "update_object cfg new (c_rv s + 1) = Inr obj"
    "codec_encode cfg (kept_uid cfg cur' obj) = Inr data'" "files t p = Some data'"
    "s_bc t = snd (publish \<lparr>ev_rv = c_rv s + 1, ev_type = Modified, ev_obj = kept_uid cfg cur' obj\<rparr> (s_bc s))"
    by metis
  moreover have "fs_cwd t = fs_cwd s"
    using exec_cwd [of cfg "ReqUpdate key dst ign pre upd"] assms(8) by simp
  ultimately show ?thesis using Get_present [of cfg t key p data' ign' ptr] assms(3,9,10) by simp
qed

theorem update_then_get_witness:
  "\<exists>obj. update_object demo web_new (c_rv created + 1) = Inr obj \<and>
    Get demo web_key False blank edited = (Inr (kept_uid demo web2 obj), edited) \<and>
    s_bc edited = snd (publish \<lparr>ev_rv = c_rv created + 1, ev_type = Modified,
                                ev_obj = kept_uid demo web2 obj\<rparr> (s_bc created))"
proof (rule update_then_get [OF _ _ _ _ _ _ _ conjunct1 [OF edited_run]])
  show "key_path demo (fs_cwd created) web_key = Inr web_path"
    by (simp only: created_facts web_key_path)
  show "files created web_path = Some web_data" by (rule created_facts)
  show "codec_decode demo web_data (Newer demo) = Inr web2" by (rule web_data_decode)
  show "codec_encode demo web_new \<noteq> Inr web_data" by code_simp
  show "\<And>y d. codec_encode demo y = Inr d \<Longrightarrow> codec_decode demo d blank = Inr y"
    by (simp add: item_codec)
qed (simp_all add: steady_no_faults created_facts edit_def edited_run)

text \<open>
  C8: Liveness. Where no call fails, the object's file and the counter's file can be written and every
  watcher that is subscribed (they are a set) and accepts the new object is live and has room, a create of an object that does
  not exist and whose stamped form the codec encodes succeeds; the answer is the encoded object decoded into
  the caller's object, if there is one and that decoding succeeds. (A watcher without room blocks
  the create: \<open>publish\<close> deadlocks.)
\<close>

theorem create_succeeds:
  assumes "key_path cfg (fs_cwd s) key = Inr p" and "healthy cfg p s"
    and "node_at (fs_root s) p = Inl ENOENT" and "accessor_ok cfg obj"
    and "update_object cfg (stamped_uid cfg s obj) (c_rv s + 1) = Inr obj'"
    and "codec_encode cfg obj' = Inr data"
    and "case out of None \<Rightarrow> x = None | Some into \<Rightarrow> \<exists>y. codec_decode cfg data into = Inr y \<and> x = Some y"
    and "distinct (b_subs (s_bc s))"
    and "\<forall>i \<in> set (b_subs (s_bc s)). ready_for \<lparr>ev_rv = c_rv s + 1, ev_type = Added, ev_obj = obj'\<rparr> (s_bc s) i"
  shows "\<exists>t. Create cfg key obj out s = (Inr x, t)"
proof -
  have "spec_out cfg data out (view_of s) = (Inr x, view_of s)"
    using assms(7) by (auto simp: spec_out_def split: option.splits)
  from Create_ok [OF assms(1-6) this] publish_ready [OF assms(8,9)] show ?thesis by auto
qed

theorem create_succeeds_witness:
  "\<exists>t. Create demo web_key web (Some blank) (booted\<lparr>s_bc := one_watcher 100\<rparr>) =
    (Inr (Some ((stamped_uid demo booted web)\<lparr>i_rv := c_rv booted + 1\<rparr>)), t)"
proof (rule create_succeeds)
  let ?s = "booted\<lparr>s_bc := one_watcher 100\<rparr>" and ?obj = "(stamped_uid demo booted web)\<lparr>i_rv := c_rv booted + 1\<rparr>"
  show "key_path demo (fs_cwd ?s) web_key = Inr web_path" by (simp add: booted_facts web_key_path)
  show "healthy demo web_path ?s" using booted_healthy by (simp add: healthy_def Let_def)
  show "codec_encode demo ?obj = Inr web_data"
    unfolding stamped_uid_def booted_facts by code_simp
  then have "codec_decode demo web_data blank = Inr ?obj" by (simp only: item_codec demo_simps)
  then show "case Some blank of None \<Rightarrow> Some ?obj = None
      | Some into \<Rightarrow> \<exists>y. codec_decode demo web_data into = Inr y \<and> Some ?obj = Some y"
    by simp
  show "update_object demo (stamped_uid demo ?s web) (c_rv ?s + 1) = Inr ?obj"
    by (simp add: stamped_uid_def)
qed (simp_all add: booted_facts one_watcher_facts ready_for_def live_def has_room_def)

text \<open>
  C9: Optimistic concurrency. Where the disk does not fail, an update that is rejected leaves the whole state, disk
  included, exactly as it was and fails with the error it was rejected with: by the precondition or the
  update function on the current object; by the update function on a new object, where the object
  does not exist and the caller asked to ignore that; and with \<open>KeyNotFound\<close>, where it does not exist and the
  caller did not.
\<close>

theorem rejected_update_changes_nothing:
  assumes "key_path cfg (fs_cwd s) key = Inr p" and "fs_faults s = []"
    and "node_at (fs_root s) p = Inl ENOENT \<and>
        (if ign then \<exists>e. upd (Newer cfg) 0 = Inl e \<and> err = Rejected e else err = KeyNotFound key) \<or>
      (\<exists>data cur e. files s p = Some data \<and> codec_decode cfg data (Newer cfg) = Inr cur \<and> err = Rejected e \<and>
        (pre key cur = Inl e \<or> pre key cur = Inr () \<and> upd cur (shown_rv cfg cur) = Inl e))"
  shows "GuaranteedUpdate cfg key dst ign pre upd s = (Inl err, s)"
  using assms(3) Update_missing [OF assms(1) _ assms(2)] Update_new_rejected [OF assms(1) _ assms(2)]
    Update_rejected [OF assms(1) _ assms(2)]
  by (cases ign) auto

theorem rejected_update_changes_nothing_witness:
  "GuaranteedUpdate demo web_key None False (\<lambda>_ x. if i_rv x = 1 then Inr () else Inl ''conflict'') edit created =
     (Inl (Rejected ''conflict''), created)"
proof (rule rejected_update_changes_nothing)
  show "key_path demo (fs_cwd created) web_key = Inr web_path" by (simp only: created_facts web_key_path)
  have "codec_decode demo web_data (Newer demo) = Inr web2" "i_rv web2 \<noteq> 1"
    by (rule web_data_decode, simp add: web2_def)
  with created_facts(4) show "node_at (fs_root created) web_path = Inl ENOENT \<and>
      (if False then \<exists>e. edit (Newer demo) 0 = Inl e \<and> Rejected ''conflict'' = Rejected e
       else Rejected ''conflict'' = KeyNotFound web_key) \<or>
    (\<exists>data cur e. files created web_path = Some data \<and> codec_decode demo data (Newer demo) = Inr cur \<and>
      Rejected ''conflict'' = Rejected e \<and>
      ((if i_rv cur = 1 then Inr () else Inl ''conflict'') = Inl e \<or>
       (if i_rv cur = 1 then Inr () else Inl ''conflict'') = Inr () \<and> edit cur (shown_rv demo cur) = Inl e))"
    by auto
qed (rule created_facts)

text \<open>
  An update that does not change the encoded object writes nothing, draws no version and
  publishes no event: the whole state stays, and the destination gets the stored object.
\<close>

theorem unchanged_update_is_silent:
  assumes "key_path cfg (fs_cwd s) key = Inr p" and "files s p = Some data" and "fs_faults s = []"
    and "codec_decode cfg data (Newer cfg) = Inr cur" and "pre key cur = Inr ()"
    and "upd cur (shown_rv cfg cur) = Inr (new, cur')" and "codec_encode cfg new = Inr data"
  shows "GuaranteedUpdate cfg key (Some into) ign pre upd s =
    (map_sum CodecErr Some (codec_decode cfg data into), s)"
  using Update_unchanged [of cfg s key p data cur pre upd new cur' "Some into" ign] assms
  by (auto simp: decodeOut_def decodeInto_def sbind_def map_err_def split: sum.splits)

theorem unchanged_update_is_silent_witness:
  "GuaranteedUpdate demo web_key (Some blank) False always (\<lambda>cur _. Inr (cur, cur)) created =
     (map_sum CodecErr Some (codec_decode demo web_data blank), created)"
proof (rule unchanged_update_is_silent)
  show "key_path demo (fs_cwd created) web_key = Inr web_path" by (simp only: created_facts web_key_path)
  show "files created web_path = Some web_data" by (rule created_facts)
  show "codec_decode demo web_data (Newer demo) = Inr web2" by (rule web_data_decode)
  show "codec_encode demo web2 = Inr web_data" by code_simp
qed (simp_all add: created_facts always_def)

text \<open>
  Round trip of a deletion. After a successful delete, a get of the key finds no object.
\<close>

theorem delete_then_get:
  assumes "Root cfg \<noteq> []" and "Delete cfg key out pre val ign s = (Inr x, t)" and "fs_faults t = []"
  shows "Get cfg key False ptr t = (Inl (KeyNotFound key), t)"
  using Delete_gone [OF assms(2,1)] Get_missing [of cfg t key] assms(3) by metis

theorem delete_then_get_witness:
  "Get demo web_key False blank deleted = (Inl (KeyNotFound web_key), deleted)"
  using delete_then_get [OF _ deleted_run] deleted_facts by simp

text \<open>
  C23: The order of \<open>Delete\<close>. The file is removed before the version of the deletion is drawn; if
  drawing it fails, after the preconditions and the validation of the deletion, if there is one, have passed, the caller is told
  that the delete failed, but the object is gone, and no watcher and no later replay is told so.
\<close>

theorem failed_delete_loses_event:
  assumes "key_path cfg (fs_cwd s) key = Inr p" and "os_read_file p s = (Inr data, s1)"
    and "codec_decode cfg data (Newer cfg) = Inr cur" and "pre key cur = Inr ()"
    and "os_remove p s1 = (Inr (), s2)" and "counter_Next (Root cfg) s2 = (Inl e, t)"
    and "Root cfg \<noteq> []" and "\<And>v. val = Some v \<Longrightarrow> v cur = Inr ()"
  shows "Delete cfg key out pre val ign s = (Inl (OsErr e), t) \<and> files t p = None \<and> s_bc t = s_bc s"
  using assms by (rule Delete_silent)

theorem failed_delete_loses_event_witness:
  "let s = created\<lparr>fs_faults := [NoFault, NoFault, Fault EIO 0]\<rparr>;
       t = snd (counter_Next (Root demo) (snd (os_remove web_path (snd (os_read_file web_path s)))))
   in Delete demo web_key None always None False s = (Inl (OsErr EIO), t) \<and>
      files t web_path = None \<and> s_bc t = s_bc s"
  unfolding Let_def
proof (rule failed_delete_loses_event)
  let ?s = "created\<lparr>fs_faults := [NoFault, NoFault, Fault EIO 0]\<rparr>"
  show "key_path demo (fs_cwd ?s) web_key = Inr web_path" by (simp add: created_facts web_key_path)
  show "os_read_file web_path ?s = (Inr web_data, snd (os_read_file web_path ?s))"
    by (rule split_result) code_simp
  show "os_remove web_path (snd (os_read_file web_path ?s)) =
      (Inr (), snd (os_remove web_path (snd (os_read_file web_path ?s))))"
    by (rule split_result) code_simp
  show "counter_Next (Root demo) (snd (os_remove web_path (snd (os_read_file web_path ?s)))) =
      (Inl EIO, snd (counter_Next (Root demo) (snd (os_remove web_path (snd (os_read_file web_path ?s))))))"
    by (rule split_result) code_simp
  show "codec_decode demo web_data (Newer demo) = Inr web2" by (rule web_data_decode)
qed (simp_all add: always_def)

section \<open>Watches and lists\<close>

text \<open>
  C10: A watch from version \<open>v\<close>. In every life of the process in which requests are served one after the other, a
  watch whose start lies in the ring is due exactly the events after \<open>v\<close> of everything published in this
  life that its key and predicate select, in the order of their versions. If these are at most 100, which is what
  the channel holds, the watch is given all of them before it is subscribed, and it is live and
  subscribed when it is handed out, so it is offered every event from then on. If they are more, it
  breaks: it panics, or a closed watcher is handed out and subscribed.
\<close>

theorem watch_resumes_without_gaps:
  assumes "history cfg hist s" and "replayLocked v (s_bc s) \<noteq> None" and "v \<noteq> 0" and "v < c_rv s"
    and "ResourceVersion opts \<noteq> []" and "parse_rv cfg (ResourceVersion opts) = Inr v"
    and "parsePrefix key = (resource, namespace, single, name)"
    and "mk = matchesKey cfg (Recursive opts) namespace single name"
    and "es = filter (\<lambda>e. v < ev_rv e \<and> mk (ev_obj e) \<and> Predicate opts (ev_obj e) = Inr True) hist"
  shows "if length es \<le> 100
    then \<exists>i t w. Watch cfg expired key opts s = (Inr i, t) \<and> i \<in> set (b_subs (s_bc t)) \<and>
      b_watchers (s_bc t) i = Some w \<and> live w \<and> w_ch w = map wire es \<and>
      w_predicate w = Predicate opts \<and> w_matchesKey w = mk
    else broken_watch (Watch cfg expired key opts s)"
proof -
  from assms(2) obtain evs where evs: "replayLocked v (s_bc s) = Some evs" by auto
  then have "evs = filter (\<lambda>e. v < ev_rv e) hist"
    using history_inv [OF assms(1)] blog.replay_log [of hist "s_bc s" v evs] by (simp add: log_ok_def)
  with assms(9) have "es = filter (\<lambda>e. mk (ev_obj e) \<and> Predicate opts (ev_obj e) = Inr True) evs"
    by (auto intro: filter_cong)
  note w = Watch_replay [OF assms(6,5,3,4) evs assms(7,8) this, of expired]
  show ?thesis
  proof (cases "length es \<le> 100")
    case True
    with w deliver_then_subscribe_room [of "map wire es" opts mk s] show ?thesis
      by (simp add: started_with_simps live_def fresh_def)
  next
    case False
    with w deliver_then_subscribe_overflow [of "map wire es" opts mk s] show ?thesis by simp
  qed
qed

theorem watch_resumes_without_gaps_witness:
  "\<exists>i t w. Watch demo gone_status ''/pods'' (watch_from ''1'') created = (Inr i, t) \<and>
    i \<in> set (b_subs (s_bc t)) \<and> b_watchers (s_bc t) i = Some w \<and> live w \<and>
    w_ch w = map wire created_log \<and> w_predicate w = Predicate (watch_from ''1'') \<and>
    w_matchesKey w = matchesKey demo True [] False []"
proof -
  have "replayLocked 1 (s_bc created) \<noteq> None" by code_simp
  moreover have "parse_rv demo (ResourceVersion (watch_from ''1'')) = Inr 1" by code_simp
  moreover have "created_log = filter (\<lambda>e. 1 < ev_rv e \<and> matchesKey demo True [] False [] (ev_obj e) \<and>
      Predicate (watch_from ''1'') (ev_obj e) = Inr True) created_log"
    by (simp add: created_event matchesKey_def Let_def watch_from_def)
  moreover have "length created_log \<le> 100" by (simp add: created_event)
  ultimately show ?thesis
    using watch_resumes_without_gaps [OF created_history, of 1 "watch_from ''1''" "''/pods''" "''pods''" "[]" False "[]"
        "matchesKey demo True [] False []" created_log gone_status] parse_pods
    by (simp add: created_facts watch_from_def del: parsePrefix.simps)
qed

text \<open>
  A watch from a version that has left the ring is not left hanging: its channel holds the one
  error event, status \<open>Expired\<close> with both versions in its message, the channel is closed, and the
  watcher is not subscribed.
\<close>

theorem watch_too_old_is_refused:
  assumes "ResourceVersion opts \<noteq> []" and "parse_rv cfg (ResourceVersion opts) = Inr v"
    and "b_ring (s_bc s) = old # rest" and "v + 1 < ev_rv old" and "v \<noteq> 0" and "v < c_rv s"
  shows "\<exists>i t w. Watch cfg expired key opts s = (Inr i, t) \<and> b_subs (s_bc t) = b_subs (s_bc s) \<and>
    b_watchers (s_bc t) i = Some w \<and> w_closed w \<and>
    w_ch w = [WError (expired (''too old resource version: '' @ format_uint v @
                               '' (current: '' @ format_uint (c_rv s) @ '')''))]"
proof -
  obtain resource namespace single name where k: "parsePrefix key = (resource, namespace, single, name)"
    by (cases "parsePrefix key") auto
  have old: "replayLocked v (s_bc s) = None" using assms(3,4) by (simp add: replayLocked_def)
  obtain r t where run: "Watch cfg expired key opts s = (r, t)" by fastforce
  from Watch_refused [OF assms(2,1,5,6) old k refl run] run show ?thesis by (simp add: tooOld_def)
qed

theorem watch_too_old_is_refused_witness:
  "\<exists>i t w. Watch demo gone_status ''/pods'' (watch_from ''1'')
      (created\<lparr>c_rv := 9, s_bc := (s_bc created)\<lparr>b_ring := [\<lparr>ev_rv = 9, ev_type = Deleted, ev_obj = web2\<rparr>]\<rparr>\<rparr>) =
      (Inr i, t) \<and>
    b_subs (s_bc t) = b_subs (s_bc created) \<and> b_watchers (s_bc t) i = Some w \<and> w_closed w \<and>
    w_ch w = [WError (gone_status (''too old resource version: '' @ format_uint 1 @
                                   '' (current: '' @ format_uint 9 @ '')''))]"
proof -
  have "parse_rv demo (ResourceVersion (watch_from ''1'')) = Inr 1" by code_simp
  moreover have "ResourceVersion (watch_from ''1'') \<noteq> []" by (simp add: watch_from_def)
  ultimately show ?thesis
    using watch_too_old_is_refused [of "watch_from ''1''" demo 1
        "created\<lparr>c_rv := 9, s_bc := (s_bc created)\<lparr>b_ring := [\<lparr>ev_rv = 9, ev_type = Deleted, ev_obj = web2\<rparr>]\<rparr>\<rparr>"
        "\<lparr>ev_rv = 9, ev_type = Deleted, ev_obj = web2\<rparr>" "[]" gone_status "''/pods''"]
    by simp
qed

text \<open>
  C27: A watch over a collection from version 0, given as \<open>0\<close> or not at all. Where the disk does not fail and no file
  is in the place of the collection's directory, the channel
  starts with one \<open>Added\<close> event for each stored object of the collection that decodes, in path order, followed by the
  bookmark that closes the list, stamped with the current version, if the client asked for it; the
  watcher is live and subscribed. (At most 100 events: the channel holds no more.)
\<close>

theorem watch_starts_with_snapshot:
  assumes "from_zero cfg opts" and "fs_faults s = []"
    and "parsePrefix key = (resource, namespace, False, name)"
    and "dir = resourceDir (fs_cwd s) (Root cfg) resource namespace" and "walkable s dir"
    and "evs = initial_events cfg opts (c_rv s) (decodable cfg (stored_below s dir))" and "length evs \<le> 100"
  shows "\<exists>i t w. Watch cfg expired key opts s = (Inr i, t) \<and> i \<in> set (b_subs (s_bc t)) \<and>
    b_watchers (s_bc t) i = Some w \<and> live w \<and> w_ch w = evs"
  using Watch_initial [OF assms(1-5) refl refl, of expired] assms(6)
    deliver_then_subscribe_room [OF assms(7), of opts _ s]
  by (simp add: started_with_simps live_def fresh_def)

theorem watch_starts_with_snapshot_witness:
  "\<exists>i t w. Watch demo gone_status ''/pods'' (watch_from []) (crowded 3) = (Inr i, t) \<and>
    i \<in> set (b_subs (s_bc t)) \<and> b_watchers (s_bc t) i = Some w \<and> live w \<and>
    w_ch w = map (WEvent Added) (replicate 3 web2) @ [WEvent Bookmark (blank\<lparr>i_rv := 1\<rparr>)]"
proof (rule watch_starts_with_snapshot [OF _ _ parse_pods])
  show "[''data'', ''pods''] = resourceDir (fs_cwd (crowded 3)) (Root demo) ''pods'' []"
    by (simp only: pods_dir crowded_facts)
  have "newInitialEndBookmark demo (c_rv (crowded 3)) = Inr (blank\<lparr>i_rv := 1\<rparr>)"
    by (simp add: newInitialEndBookmark_def crowded_def booted_facts demo_def)
  then show "map (WEvent Added) (replicate 3 web2) @ [WEvent Bookmark (blank\<lparr>i_rv := 1\<rparr>)] =
      initial_events demo (watch_from []) (c_rv (crowded 3)) (decodable demo (stored_below (crowded 3) [''data'', ''pods'']))"
    by (simp add: initial_events_def crowded_decodable watch_from_def del: demo_simps)
qed (simp_all add: watch_from_def crowded_facts from_zero_def)

text \<open>
  C11: More objects than the channel holds. A watch over a collection from version 0, given as \<open>0\<close> or not at all and
  with or without the bookmark that ends the initial list, does not start on a disk that does not fail and has no file
  in the place of the directory, if the
  stored objects that decode and the bookmark are more than 100 events: it panics with a send on
  a closed channel, or it hands out a watcher that is stopped, whose channel is closed, and that
  is nevertheless subscribed.
\<close>

theorem watch_of_large_collection_breaks:
  assumes "from_zero cfg opts" and "fs_faults s = []"
    and "parsePrefix key = (resource, namespace, False, name)"
    and "dir = resourceDir (fs_cwd s) (Root cfg) resource namespace" and "walkable s dir"
    and "100 < length (initial_events cfg opts (c_rv s) (decodable cfg (stored_below s dir)))"
  shows "fst (Watch cfg expired key opts s) = Inl (Abnormal SendOnClosed) \<or>
    (\<exists>i t w. Watch cfg expired key opts s = (Inr i, t) \<and> i \<in> set (b_subs (s_bc t)) \<and>
       b_watchers (s_bc t) i = Some w \<and> w_stopped w \<and> w_closed w)"
proof -
  obtain r t where run: "Watch cfg expired key opts s = (r, t)" by fastforce
  moreover have "broken_watch (Watch cfg expired key opts s)"
    unfolding Watch_initial [OF assms(1-5) refl refl] by (rule deliver_then_subscribe_overflow [OF assms(6)])
  ultimately show ?thesis by (auto simp: broken_watch_def)
qed

theorem watch_of_large_collection_breaks_witness:
  "fst (Watch demo gone_status ''/pods'' (watch_from ''0'') (crowded 100)) = Inl (Abnormal SendOnClosed) \<or>
    (\<exists>i t w. Watch demo gone_status ''/pods'' (watch_from ''0'') (crowded 100) = (Inr i, t) \<and>
       i \<in> set (b_subs (s_bc t)) \<and> b_watchers (s_bc t) i = Some w \<and> w_stopped w \<and> w_closed w)"
proof (rule watch_of_large_collection_breaks [OF _ _ parse_pods])
  show "[''data'', ''pods''] = resourceDir (fs_cwd (crowded 100)) (Root demo) ''pods'' []"
    by (simp only: pods_dir crowded_facts)
  show "from_zero demo (watch_from ''0'')" unfolding from_zero_def by (rule disjI2) code_simp
  have "newInitialEndBookmark demo (c_rv (crowded 100)) = Inr (blank\<lparr>i_rv := 1\<rparr>)"
    by (simp add: newInitialEndBookmark_def crowded_def booted_facts demo_def)
  then show "100 < length (initial_events demo (watch_from ''0'') (c_rv (crowded 100))
      (decodable demo (stored_below (crowded 100) [''data'', ''pods''])))"
    by (simp add: initial_events_def crowded_decodable watch_from_def del: demo_simps)
qed (simp_all add: crowded_facts)

text \<open>
  Delivery. Publishing to subscribers that have room appends the event to the channel of
  exactly the watchers whose key and predicate accept its object, once each; no other watcher and
  nothing else of the broadcaster changes, except that the ring takes the event in.
\<close>

theorem publish_delivers_once:
  assumes "distinct (b_subs b)" and "\<forall>i \<in> set (b_subs b). ready_for ev b i"
  shows "publish ev b =
    (Inr (), b\<lparr>b_ring := push_ring (b_capacity b) ev (b_ring b),
               b_watchers := (\<lambda>i. if i \<in> set (b_subs b) then map_option (offer ev) (b_watchers b i)
                                  else b_watchers b i)\<rparr>)"
  using assms by (rule publish_ready)

theorem publish_delivers_once_witness:
  "publish web_added (one_watcher 1) =
    (Inr (), (one_watcher 1)\<lparr>b_ring := push_ring 1000 web_added [],
       b_watchers := (\<lambda>i. if i \<in> {0} then map_option (offer web_added) (b_watchers (one_watcher 1) i)
                          else b_watchers (one_watcher 1) i)\<rparr>)"
  using publish_delivers_once [of "one_watcher 1" web_added]
  by (simp add: one_watcher_def subscribeLocked_def newWatcher_def newBroadcaster_def ready_for_def
      upd_watcher_def live_def has_room_def cong: if_cong)

text \<open>
  C12: A slow watcher. If one of the subscribers, with the callback that its subscription installed, is live, accepts an event and has a full channel, \<open>publish\<close>
  does not return, whoever else is subscribed: \<open>deliver\<close> calls \<open>Stop\<close>, whose callback locks the mutex that \<open>publish\<close>
  holds. Where the subscribers' channels are open, this is the only possible outcome; where one has
  been closed, a panic may come first.
\<close>

theorem publish_to_full_watcher_deadlocks:
  assumes "i \<in> set (b_subs b)" and "b_watchers b i = Some w" and "accepts w (ev_obj ev)" and "live w"
    and "\<not> has_room w" and "w_onStop w"
  shows "(\<exists>a. fst (publish ev b) = Inl a) \<and> (subs_open b \<longrightarrow> fst (publish ev b) = Inl Deadlock)"
proof -
  let ?b = "b\<lparr>b_ring := push_ring (b_capacity b) ev (b_ring b)\<rparr>"
  from publish_loop_full [of i "b_subs b" ?b w ev] assms obtain a b' where "publish ev b = (Inl a, b')"
    by (auto simp: publish_def)
  moreover from this have "subs_open b \<Longrightarrow> a \<noteq> SendOnClosed" using publish_subs_open [of b ev] by blast
  ultimately show ?thesis by (cases a) auto
qed

theorem publish_to_full_watcher_deadlocks_witness:
  "fst (publish web_added (fed 100)) = Inl Deadlock"
  using publish_to_full_watcher_deadlocks [of 0 "fed 100", OF _ fed_facts(2), of web_added]
  by (simp add: fed_facts subs_open_def accepts_def live_def has_room_def)

text \<open>
  C13: A recursive list. The list holds, after what it held, exactly the stored objects of the
  collection that match, in path order, and carries the current version; reading changes nothing.
\<close>

theorem list_is_the_matching_objects:
  assumes "fs_faults s = []" and "Recursive opts"
    and "parsePrefix key = (resource, namespace, False, name)"
    and "dir = resourceDir (fs_cwd s) (Root cfg) resource namespace" and "walkable s dir"
    and "GetItemsPtr api l = Inr (RPtr (Some (RSlice et xs)))"
    and "\<forall>d \<in> set (stored_below s dir). listable cfg api opts et d"
  shows "GetList cfg api key opts l s =
    (map_sum UpdateListErr id
       (UpdateList api
          (SetItems api l (xs @ filter (matching opts) (decodable cfg (stored_below s dir)))) (c_rv s)), s)"
  using assms by (rule GetList_dir)

theorem list_is_the_matching_objects_witness:
  "GetList demo item_list_api ''/pods'' (watch_from []) ([], 0) (crowded 2) =
    (Inr ([web2, web2], 1), crowded 2)"
proof -
  have dir: "resourceDir (fs_cwd (crowded 2)) (Root demo) ''pods'' [] = [''data'', ''pods'']"
    by (simp only: pods_dir crowded_facts)
  have "codec_decode demo web_data (Newer demo) = Inr web2" by (rule web_data_decode)
  then have "\<forall>d \<in> set (stored_below (crowded 2) [''data'', ''pods'']).
      listable demo item_list_api (watch_from []) (StructElem ''v1.Item'') d"
    by (simp add: crowded_stored listable_def assignable_def item_list_api_def watch_from_def
        del: join_on.simps demo_simps)
  with list_is_the_matching_objects [OF crowded_facts(2) _ parse_pods dir [symmetric] crowded_facts(4),
      of "watch_from []" item_list_api "([], 0)" "StructElem ''v1.Item''" "[]"]
  show ?thesis
    by (simp add: crowded_decodable crowded_facts item_list_api_def watch_from_def matching_def
        numeral_2_eq_2 del: demo_simps)
qed

text \<open>
  What was created is listed. After a successful create under a namespaced key, the walk below
  the resource's directory, the one that feeds lists, counts and watches of all namespaces, meets
  the encoding of the created object; so does the walk below its namespace.
\<close>

theorem created_object_is_listed:
  assumes "Root cfg \<noteq> []" and "steady s" and "wf_node (fs_root s)"
    and "plain_seg r" and "plain_seg ns" and "plain_seg n" and "\<not> has_prefix (n @ ''.json'') ''.''"
    and "\<And>p. key_path cfg (fs_cwd s) (''/'' @ r @ ''/'' @ ns @ ''/'' @ n) = Inr p \<Longrightarrow> \<not> dir_at (fs_root s) p"
    and "Create cfg (''/'' @ r @ ''/'' @ ns @ ''/'' @ n) obj out s = (Inr x, t)"
  shows "\<exists>obj' data. update_object cfg (stamped_uid cfg s obj) (c_rv s + 1) = Inr obj' \<and>
    codec_encode cfg obj' = Inr data \<and>
    data \<in> set (stored_below t (resourceDir (fs_cwd s) (Root cfg) r [])) \<and>
    data \<in> set (stored_below t (resourceDir (fs_cwd s) (Root cfg) r ns))"
proof -
  let ?key = "''/'' @ r @ ''/'' @ ns @ ''/'' @ n" and ?rdir = "join_path (fs_cwd s) [Root cfg]"
  from Create_Inr [OF assms(1,2,8,9)] obtain p obj' data where p: "key_path cfg (fs_cwd s) ?key = Inr p"
    and obj': "update_object cfg (stamped_uid cfg s obj) (c_rv s + 1) = Inr obj'"
    and data: "codec_encode cfg obj' = Inr data" and f: "files t p = Some data" by metis
  have sep: "n \<noteq> []" "slash \<notin> set n" using assms(6) by (simp_all add: plain_seg_def)
  have "p = objectPath (fs_cwd s) (Root cfg) r ns n"
    using p parseKey_plain(2) [OF assms(4-6)] sep by (simp add: key_path_def del: parseKey.simps)
  then have at: "p = ?rdir @ [r, ns, n @ ''.json'']"
    using objectPath_plain(2) [OF assms(1,4) sep(2) assms(5)] by simp
  have dirs: "resourceDir (fs_cwd s) (Root cfg) r [] = ?rdir @ [r]"
    "resourceDir (fs_cwd s) (Root cfg) r ns = ?rdir @ [r, ns]"
    using assms(1,4,5) join_path_plain [of "Root cfg" "[r]" "fs_cwd s"]
      join_path_plain [of "Root cfg" "[r, ns]" "fs_cwd s"] by (auto simp: resourceDir_def plain_seg_def)
  have wf: "wf_node (fs_root t)"
    using exec_wf [of cfg "ReqCreate ?key obj out" s _ t] assms(3,9) by simp
  have "object_name (n @ ''.json'')" using assms(7) by (simp add: object_name_def)
  then have "data \<in> set (stored_below t (?rdir @ [r]))" "data \<in> set (stored_below t (?rdir @ [r, ns]))"
    using f at stored_below_iff [OF wf, of data]
    by (auto intro: exI [of _ "[ns, n @ ''.json'']"] exI [of _ "[n @ ''.json'']"])
  with obj' data dirs show ?thesis by auto
qed

theorem created_object_is_listed_witness:
  "\<exists>obj' data. update_object demo (stamped_uid demo booted web) (c_rv booted + 1) = Inr obj' \<and>
    codec_encode demo obj' = Inr data \<and>
    data \<in> set (stored_below created (resourceDir (fs_cwd booted) (Root demo) ''pods'' [])) \<and>
    data \<in> set (stored_below created (resourceDir (fs_cwd booted) (Root demo) ''pods'' ''default''))"
proof (rule created_object_is_listed)
  show "Create demo (''/'' @ ''pods'' @ ''/'' @ ''default'' @ ''/'' @ ''web'') web None booted = (Inr None, created)"
    using created_run by simp
  show "\<not> dir_at (fs_root booted) p"
    if "key_path demo (fs_cwd booted) (''/'' @ ''pods'' @ ''/'' @ ''default'' @ ''/'' @ ''web'') = Inr p" for p
  proof -
    from that web_key_path have "p = web_path" by (simp add: booted_facts)
    then show ?thesis by (simp add: booted_facts)
  qed
qed (simp_all add: booted_facts steady_no_faults plain_seg_def has_prefix_def)

section \<open>Keys and versions\<close>

text \<open>
  Round trip of keys. The key that the server builds for a namespaced object parses back to
  resource, namespace and name, the key of its collection to resource and namespace, and objects
  that differ in resource, namespace or name are stored in different files.
\<close>

theorem keys_identify_objects:
  assumes "rdir \<noteq> []" and "plain_seg r" and "plain_seg ns" and "plain_seg n"
    and "plain_seg r'" and "plain_seg ns'" and "plain_seg n'"
  shows "(KeyFunc (''/'' @ r) True (Some ns) n = Some key \<longrightarrow> parseKey key = Inr (r, ns, n)) \<and>
    parsePrefix (KeyRootFunc (''/'' @ r) True (Some ns)) = (r, ns, False, []) \<and>
    (objectPath cwd rdir r ns n = objectPath cwd rdir r' ns' n' \<longleftrightarrow> r = r' \<and> ns = ns' \<and> n = n')"
proof -
  have sep: "slash \<notin> set n" "slash \<notin> set n'" "ns \<noteq> []" "ns' \<noteq> []"
    using assms by (simp_all add: plain_seg_def)
  have "KeyFunc (''/'' @ r) True (Some ns) n = Some key \<longrightarrow> parseKey key = Inr (r, ns, n)"
    using parseKey_plain(2) [OF assms(2-4)] sep by (auto simp: KeyFunc_def simp del: parseKey.simps)
  moreover have "parsePrefix (KeyRootFunc (''/'' @ r) True (Some ns)) = (r, ns, False, [])"
    using parsePrefix_plain(2) [OF assms(2,3)] sep by (simp add: KeyRootFunc_def del: parsePrefix.simps)
  moreover have "objectPath cwd rdir r ns n = objectPath cwd rdir r' ns' n' \<longleftrightarrow> r = r' \<and> ns = ns' \<and> n = n'"
    using objectPath_plain(2) [OF assms(1,2) sep(1) assms(3)]
      objectPath_plain(2) [OF assms(1,5) sep(2) assms(6)] by simp
  ultimately show ?thesis by blast
qed

theorem keys_identify_objects_witness:
  "parseKey ''/pods/default/web'' = Inr (''pods'', ''default'', ''web'') \<and>
   objectPath [] ''data'' ''pods'' ''default'' ''web'' \<noteq> objectPath [] ''data'' ''pods'' ''default'' ''db''"
  using keys_identify_objects [of "''data''" "''pods''" "''default''" "''web''" "''pods''" "''default''" "''db''"
      "''/pods/default/web''" "[]"]
  by (simp add: plain_seg_def KeyFunc_def del: parseKey.simps)

text \<open>
  Versions increase. In any sequence of calls of the counter under any faults, the versions
  handed out are strictly above the starting value and strictly increasing, and the counter ends
  at the starting value plus the number of versions handed out: failed calls use up none. (The
  sequence is shorter than what is left of 64 bits.)
\<close>

theorem versions_strictly_increase:
  assumes "unat (c_rv s) + n < 2 ^ 64" and "run_seq (replicate n (counter_Next rdir)) s = (vs, t)"
  shows "sorted_wrt (<) (c_rv s # vs) \<and> unat (c_rv t) = unat (c_rv s) + length vs"
  using assms by (rule rvc.issued_sorted)

theorem versions_strictly_increase_witness:
  "sorted_wrt (<) (c_rv booted # fst (run_seq (replicate 2 (counter_Next ''/data'')) booted)) \<and>
   unat (c_rv (snd (run_seq (replicate 2 (counter_Next ''/data'')) booted))) =
     unat (c_rv booted) + length (fst (run_seq (replicate 2 (counter_Next ''/data'')) booted))"
  using versions_strictly_increase [of booted 2, OF _ prod.collapse [symmetric]] by (simp add: booted_facts)

end
